(* ===== verification/Go_Base.thy ===== *)
theory Go_Base
  imports Complex_Main "HOL-Library.State_Monad" "HOL-Library.Word" "HOL-Library.Multiset"
begin

text \<open>
  The prelude of the development: the Go types every component uses (64-bit integers,
  instants and durations with the saturating \<^verbatim>\<open>Time.Sub\<close>), decimal formatting, the
  loops of the source as combinators of the state monad, the frame calculus
  (\<open>frame_rel\<close>: a relation between the state before and after that every primitive
  respects is respected by every program built from them), Hoare triples over the state
  monad, the random shuffle and the unstable sort of the Go library.
\<close>

section \<open>Collections of facts\<close>

named_theorems frame_intro \<open>introduction rules that push a frame relation through a program\<close>
named_theorems triple_intro \<open>introduction rules for Hoare triples\<close>
named_theorems run_simps \<open>definitions that run a program on a concrete environment\<close>
named_theorems go_simps \<open>unfolding rules for the Go helpers\<close>

section \<open>Integers, instants and durations\<close>

text \<open>
  \<^verbatim>\<open>int\<close> and \<^verbatim>\<open>int64\<close> values whose overflow matters are 64-bit words read as two's
  complement; \<^verbatim>\<open>/\<close> truncates towards zero.
\<close>

type_synonym int64 = "64 word"

definition max_int64 :: int where "max_int64 = 2 ^ 63 - 1"
definition min_int64 :: int where "min_int64 = - (2 ^ 63)"

definition in_int64 :: "int \<Rightarrow> bool" where
  "in_int64 k \<longleftrightarrow> min_int64 \<le> k \<and> k \<le> max_int64"

definition trunc_div :: "int \<Rightarrow> int \<Rightarrow> int" where
  "trunc_div a b = sgn a * sgn b * (\<bar>a\<bar> div \<bar>b\<bar>)"

definition quot64 :: "int64 \<Rightarrow> int64 \<Rightarrow> int64" where
  "quot64 a b = word_of_int (trunc_div (sint a) (sint b))"

text \<open>Arithmetic on an \<^verbatim>\<open>int64\<close> kept as an \<^typ>\<open>int\<close>: the wrap-around of an out-of-range result.\<close>

definition wrap64 :: "int \<Rightarrow> int" where
  "wrap64 k = (k + 2 ^ 63) mod 2 ^ 64 - 2 ^ 63"

text \<open>
  A \<^verbatim>\<open>time.Time\<close> is its instant in nanoseconds since the Unix epoch, a \<^verbatim>\<open>time.Duration\<close>
  a number of nanoseconds. \<^verbatim>\<open>Time.Sub\<close> saturates at the ends of the \<^verbatim>\<open>int64\<close> range; the
  zero \<^verbatim>\<open>time.Time\<close> is the first second of year 1.
\<close>

type_synonym time = int
type_synonym duration = int

definition Nanosecond :: duration where "Nanosecond = 1"
definition Second :: duration where "Second = 1000000000"
definition Minute :: duration where "Minute = 60 * Second"

definition zero_time :: time where "zero_time = - 62135596800 * Second"
definition unix_zero :: time where "unix_zero = 0"

definition time_Sub :: "time \<Rightarrow> time \<Rightarrow> duration" where
  "time_Sub t u = max min_int64 (min max_int64 (t - u))"

lemma wrap64_in_range [simp]: "in_int64 k \<Longrightarrow> wrap64 k = k"
  by (simp add: wrap64_def in_int64_def min_int64_def max_int64_def)

lemma in_int64_wrap64: "in_int64 (wrap64 k)"
  using pos_mod_bound [of "2 ^ 64 :: int" "k + 2 ^ 63"] pos_mod_sign [of "2 ^ 64 :: int" "k + 2 ^ 63"]
  by (simp add: wrap64_def in_int64_def min_int64_def max_int64_def)

lemma time_Sub_range: "in_int64 (time_Sub t u)"
  by (simp add: time_Sub_def in_int64_def min_int64_def max_int64_def)

lemma time_Sub_exact: "in_int64 (t - u) \<Longrightarrow> time_Sub t u = t - u"
  by (simp add: time_Sub_def in_int64_def)

lemma time_Sub_mono: "t \<le> t' \<Longrightarrow> time_Sub t u \<le> time_Sub t' u"
  by (simp add: time_Sub_def min_int64_def max_int64_def)

lemma time_Sub_antimono: "u \<le> u' \<Longrightarrow> time_Sub t u' \<le> time_Sub t u"
  by (simp add: time_Sub_def min_int64_def max_int64_def)

lemma time_Sub_zero_time: "0 \<le> t \<Longrightarrow> time_Sub t zero_time = max_int64"
  by (simp add: time_Sub_def zero_time_def Second_def min_int64_def max_int64_def)

lemma time_Sub_less_iff:
  "d \<le> max_int64 \<Longrightarrow> min_int64 < d \<Longrightarrow> time_Sub t u < d \<longleftrightarrow> t - u < d"
  by (auto simp: time_Sub_def max_def min_def)

lemma sint_plus_exact:
  fixes a b :: int64
  assumes "in_int64 (sint a + sint b)"
  shows "sint (a + b) = sint a + sint b"
  using assms by (simp add: sint_word_add signed_take_bit_int_eq_self_iff in_int64_def
      min_int64_def max_int64_def)

lemma sint_in_int64: "in_int64 (sint (a :: int64))"
  using sint_greater_eq [of a] sint_less [of a]
  by (simp add: in_int64_def min_int64_def max_int64_def)

text \<open>\<^verbatim>\<open>fmt\<close>'s \<open>%d\<close>.\<close>

function show_pos :: "int \<Rightarrow> string" where
  "show_pos n = (if n < 10 then [char_of (48 + n)] else show_pos (n div 10) @ [char_of (48 + n mod 10)])"
  by pat_completeness auto
termination
  by (relation "measure nat") auto

declare show_pos.simps [simp del]

definition show_int :: "int \<Rightarrow> string" where
  "show_int k = (if k < 0 then ''-'' @ show_pos (- k) else show_pos k)"

section \<open>Programs as state transformers\<close>

text \<open>
  Go code with effects is a value of the library's state monad. \<open>ret\<close> is a \<^verbatim>\<open>return\<close>;
  \<open>for_each\<close> is \<^verbatim>\<open>for _, x := range xs\<close> over a body that may \<^verbatim>\<open>continue\<close>.
\<close>

abbreviation ret :: "'a \<Rightarrow> ('s, 'a) state" where
  "ret \<equiv> State_Monad.return"

fun for_each :: "('a \<Rightarrow> ('s, unit) state) \<Rightarrow> 'a list \<Rightarrow> ('s, unit) state" where
  "for_each f [] = ret ()"
| "for_each f (x # xs) = do { _ \<leftarrow> f x; for_each f xs }"

definition when_do :: "bool \<Rightarrow> ('s, unit) state \<Rightarrow> ('s, unit) state" where
  "when_do b m = (if b then m else ret ())"

text \<open>
  A Go function that panics takes the process down; the functions that can do so return
  \<open>Panic\<close> or \<open>Ret\<close>.
\<close>

datatype 'a go = Panic | Ret 'a

definition go_index :: "'a list \<Rightarrow> int \<Rightarrow> 'a go" where
  "go_index xs i = (if 0 \<le> i \<and> i < int (length xs) then Ret (xs ! nat i) else Panic)"

lemma go_index_last: "xs \<noteq> [] \<Longrightarrow> go_index xs (int (length xs) - 1) = Ret (last xs)"
  by (cases xs rule: rev_cases) (auto simp: go_index_def nat_diff_distrib)

lemma run_result: "fst (run_state m s) = x \<Longrightarrow> run_state m s = (x, snd (run_state m s))"
  by (simp add: prod_eq_iff)

subsection \<open>The frame calculus\<close>

text \<open>
  A reflexive and transitive relation between a state and its successor. A program
  respects it (\<open>holds m\<close>) when every run of it moves along the relation; the rules below
  reduce a program to its primitives, loops included. Every frame property of the
  development (what is logged, what is left alone) is one interpretation.
\<close>

locale frame_rel =
  fixes R :: "'s \<Rightarrow> 's \<Rightarrow> bool"
  assumes R_refl: "R s s"
    and R_trans: "R s t \<Longrightarrow> R t u \<Longrightarrow> R s u"
begin

lemma holds_return: "state_io_rel R (ret x)"
  by (auto simp: state_io_rel_def R_refl)

lemma holds_bind:
  assumes "state_io_rel R m" and "\<And>x. state_io_rel R (f x)"
  shows "state_io_rel R (State_Monad.bind m f)"
  using assms unfolding state_io_rel_def
  by (auto split: prod.splits) (metis R_trans prod.sel(2))

text \<open>The continuation need only respect the relation for the results that can occur.\<close>

lemma holds_bind_result:
  assumes "state_io_rel R m" and "\<And>s x t. run_state m s = (x, t) \<Longrightarrow> state_io_rel R (f x)"
  shows "state_io_rel R (State_Monad.bind m f)"
proof (rule state_io_relI)
  fix y s u assume "run_state (State_Monad.bind m f) s = (y, u)"
  moreover obtain x t where m: "run_state m s = (x, t)" by fastforce
  ultimately have "run_state (f x) t = (y, u)" by simp
  then have "R t u" using assms(2) [OF m] by (auto simp: state_io_rel_def dest: spec [where x = t])
  moreover have "R s t" using assms(1) m by (auto simp: state_io_rel_def dest: spec [where x = s])
  ultimately show "R s u" by (rule R_trans [rotated])
qed

lemma holds_when: "state_io_rel R m \<Longrightarrow> state_io_rel R (when_do b m)"
  by (simp add: when_do_def holds_return)

lemma holds_for_each:
  assumes "\<And>x. x \<in> set xs \<Longrightarrow> state_io_rel R (f x)"
  shows "state_io_rel R (for_each f xs)"
  using assms by (induction xs) (auto intro: holds_return holds_bind)

end

lemma state_io_rel_run: "state_io_rel R m \<Longrightarrow> run_state m s = (x, t) \<Longrightarrow> R s t"
  by (auto simp: state_io_rel_def dest: spec [where x = s])

lemma state_io_rel_if:
  "(b \<Longrightarrow> state_io_rel R m) \<Longrightarrow> (\<not> b \<Longrightarrow> state_io_rel R n) \<Longrightarrow> state_io_rel R (if b then m else n)"
  by simp

lemma state_io_rel_sum:
  "(\<And>e. r = Inl e \<Longrightarrow> state_io_rel R (f e)) \<Longrightarrow> (\<And>x. r = Inr x \<Longrightarrow> state_io_rel R (g x)) \<Longrightarrow>
   state_io_rel R (case r of Inl e \<Rightarrow> f e | Inr x \<Rightarrow> g x)"
  by (cases r) auto

lemma state_io_rel_option:
  "(r = None \<Longrightarrow> state_io_rel R f) \<Longrightarrow> (\<And>x. r = Some x \<Longrightarrow> state_io_rel R (g x)) \<Longrightarrow>
   state_io_rel R (case r of None \<Rightarrow> f | Some x \<Rightarrow> g x)"
  by (cases r) auto

lemma state_io_rel_prod:
  "(\<And>x y. p = (x, y) \<Longrightarrow> state_io_rel R (f x y)) \<Longrightarrow> state_io_rel R (case p of (x, y) \<Rightarrow> f x y)"
  by (cases p) auto

lemma state_io_rel_go:
  "(r = Panic \<Longrightarrow> state_io_rel R f) \<Longrightarrow> (\<And>x. r = Ret x \<Longrightarrow> state_io_rel R (g x)) \<Longrightarrow>
   state_io_rel R (case r of Panic \<Rightarrow> f | Ret x \<Rightarrow> g x)"
  by (cases r) auto

lemma state_io_rel_Let: "(\<And>x. x = a \<Longrightarrow> state_io_rel R (f x)) \<Longrightarrow> state_io_rel R (let x = a in f x)"
  by simp

lemmas frame_cases [frame_intro] =
  state_io_rel_if state_io_rel_sum state_io_rel_option state_io_rel_prod state_io_rel_go
  state_io_rel_Let

subsection \<open>Hoare triples\<close>

definition triple :: "('s \<Rightarrow> bool) \<Rightarrow> ('s, 'a) state \<Rightarrow> ('a \<Rightarrow> 's \<Rightarrow> bool) \<Rightarrow> bool" where
  "triple P m Q \<longleftrightarrow> (\<forall>s. P s \<longrightarrow> (\<forall>x t. run_state m s = (x, t) \<longrightarrow> Q x t))"

lemma tripleI: "(\<And>s x t. P s \<Longrightarrow> run_state m s = (x, t) \<Longrightarrow> Q x t) \<Longrightarrow> triple P m Q"
  by (simp add: triple_def)

lemma tripleD: "triple P m Q \<Longrightarrow> run_state m s = (x, t) \<Longrightarrow> P s \<Longrightarrow> Q x t"
  by (simp add: triple_def)

lemma triple_return: "(\<And>s. P s \<Longrightarrow> Q x s) \<Longrightarrow> triple P (ret x) Q"
  by (auto simp: triple_def)

lemma triple_bind:
  assumes "triple P m R" and "\<And>x. triple (R x) (f x) Q"
  shows "triple P (State_Monad.bind m f) Q"
  using assms unfolding triple_def by (auto split: prod.splits)

lemma triple_pre: "triple P m Q \<Longrightarrow> (\<And>s. P' s \<Longrightarrow> P s) \<Longrightarrow> triple P' m Q"
  by (auto simp: triple_def)

lemma triple_post: "triple P m Q \<Longrightarrow> (\<And>x s. Q x s \<Longrightarrow> Q' x s) \<Longrightarrow> triple P m Q'"
  by (auto simp: triple_def)

lemma triple_conj: "triple P m Q \<Longrightarrow> triple P m Q' \<Longrightarrow> triple P m (\<lambda>x s. Q x s \<and> Q' x s)"
  by (simp add: triple_def)

lemma triple_if:
  "(b \<Longrightarrow> triple P m Q) \<Longrightarrow> (\<not> b \<Longrightarrow> triple P n Q) \<Longrightarrow> triple P (if b then m else n) Q"
  by simp

lemma triple_sum:
  "(\<And>e. r = Inl e \<Longrightarrow> triple P (f e) Q) \<Longrightarrow> (\<And>x. r = Inr x \<Longrightarrow> triple P (g x) Q) \<Longrightarrow>
   triple P (case r of Inl e \<Rightarrow> f e | Inr x \<Rightarrow> g x) Q"
  by (cases r) auto

lemma triple_option:
  "(r = None \<Longrightarrow> triple P f Q) \<Longrightarrow> (\<And>x. r = Some x \<Longrightarrow> triple P (g x) Q) \<Longrightarrow>
   triple P (case r of None \<Rightarrow> f | Some x \<Rightarrow> g x) Q"
  by (cases r) auto

lemma triple_Let: "(\<And>x. x = a \<Longrightarrow> triple P (f x) Q) \<Longrightarrow> triple P (let x = a in f x) Q"
  by simp

lemma triple_when: "(b \<Longrightarrow> triple P m (\<lambda>_. Q)) \<Longrightarrow> (\<And>s. \<not> b \<Longrightarrow> P s \<Longrightarrow> Q s) \<Longrightarrow> triple P (when_do b m) (\<lambda>_. Q)"
  by (auto simp: when_do_def triple_def)

text \<open>A loop keeps what each turn of it keeps.\<close>

lemma triple_for_each:
  assumes "\<And>x. x \<in> set xs \<Longrightarrow> triple I (f x) (\<lambda>_. I)"
  shows "triple I (for_each f xs) (\<lambda>_. I)"
  using assms
proof (induction xs)
  case Nil
  show ?case by (simp add: triple_return)
next
  case (Cons x xs)
  show ?case unfolding for_each.simps
    by (rule triple_bind [where R = "\<lambda>_. I"]) (use Cons in auto)
qed

text \<open>A frame relation carries a stable predicate through a program.\<close>

lemma triple_frame:
  assumes "state_io_rel R m" and "\<And>s t. R s t \<Longrightarrow> P s \<Longrightarrow> P t"
  shows "triple P m (\<lambda>_. P)"
  using assms by (auto simp: triple_def dest: state_io_rel_run)

lemmas triple_cases [triple_intro] = triple_if triple_sum triple_option triple_Let

section \<open>Shuffling and sorting\<close>

text \<open>
  \<^verbatim>\<open>rand.Shuffle(n, swap)\<close> runs \<open>i\<close> from \<open>n - 1\<close> down to 1 and swaps positions \<open>i\<close> and
  \<open>j\<close> for a random \<open>j\<close> in \<open>[0, i]\<close>; the random draws are the function \<open>r\<close>.
\<close>

definition swap_at :: "'a list \<Rightarrow> nat \<Rightarrow> nat \<Rightarrow> 'a list" where
  "swap_at xs i j = xs[i := xs ! j, j := xs ! i]"

fun shuffle_from :: "(nat \<Rightarrow> nat) \<Rightarrow> nat \<Rightarrow> 'a list \<Rightarrow> 'a list" where
  "shuffle_from r 0 xs = xs"
| "shuffle_from r (Suc i) xs = shuffle_from r i (swap_at xs (Suc i) (r (Suc i) mod Suc (Suc i)))"

definition rand_Shuffle :: "(nat \<Rightarrow> nat) \<Rightarrow> 'a list \<Rightarrow> 'a list" where
  "rand_Shuffle r xs = shuffle_from r (length xs - 1) xs"

lemma mset_swap_at: "i < length xs \<Longrightarrow> j < length xs \<Longrightarrow> mset (swap_at xs i j) = mset xs"
  by (simp add: swap_at_def mset_swap)

lemma mset_shuffle_from: "i < length xs \<or> xs = [] \<and> i = 0 \<Longrightarrow> mset (shuffle_from r i xs) = mset xs"
proof (induction i arbitrary: xs)
  case 0
  show ?case by simp
next
  case (Suc i)
  let ?j = "r (Suc i) mod Suc (Suc i)"
  have len: "Suc i < length xs" using Suc.prems by auto
  have j: "?j < length xs" using len by (meson le_less_trans less_Suc_eq_le mod_less_divisor zero_less_Suc)
  have "mset (shuffle_from r (Suc i) xs) = mset (swap_at xs (Suc i) ?j)"
    using Suc.IH [of "swap_at xs (Suc i) ?j"] len by (simp add: swap_at_def)
  also have "\<dots> = mset xs" using len j by (simp add: mset_swap_at)
  finally show ?case .
qed

lemma mset_rand_Shuffle [simp]: "mset (rand_Shuffle r xs) = mset xs"
  unfolding rand_Shuffle_def by (rule mset_shuffle_from) (cases xs; simp)

lemma set_rand_Shuffle [simp]: "set (rand_Shuffle r xs) = set xs"
  using mset_rand_Shuffle by (metis set_mset_mset)

lemma length_rand_Shuffle [simp]: "length (rand_Shuffle r xs) = length xs"
  using mset_rand_Shuffle by (metis size_mset)

text \<open>
  \<^verbatim>\<open>sort.Slice\<close> sorts by a key without promising an order among equal keys. Any sorted
  permutation is a stable sort of some rearrangement, so the draws \<open>r\<close> choose one.
\<close>

definition sort_Slice :: "(nat \<Rightarrow> nat) \<Rightarrow> ('a \<Rightarrow> 'k::linorder) \<Rightarrow> 'a list \<Rightarrow> 'a list" where
  "sort_Slice r key xs = sort_key key (rand_Shuffle r xs)"

lemma mset_sort_Slice [simp]: "mset (sort_Slice r key xs) = mset xs"
  by (simp add: sort_Slice_def)

lemma set_sort_Slice [simp]: "set (sort_Slice r key xs) = set xs"
  by (simp add: sort_Slice_def)

lemma sorted_sort_Slice [simp]: "sorted (map key (sort_Slice r key xs))"
  by (simp add: sort_Slice_def)

lemma sort_Slice_Nil_iff [simp]: "sort_Slice r key xs = [] \<longleftrightarrow> xs = []"
  using mset_sort_Slice [of r key xs] by (metis mset_zero_iff)

lemma hd_sort_Slice_least:
  assumes "x \<in> set xs"
  shows "key (hd (sort_Slice r key xs)) \<le> key x"
proof -
  let ?ys = "sort_Slice r key xs"
  have x: "x \<in> set ?ys" and ne: "?ys \<noteq> []" using assms by auto
  then obtain y ys where eq: "?ys = y # ys" by (cases ?ys) auto
  have "sorted (map key (y # ys))" using sorted_sort_Slice [of key r xs] eq by simp
  then show ?thesis using x eq by auto
qed

text \<open>Sorting after \<open>map\<close> is sorting before it by the composed key.\<close>

lemma shuffle_from_map: "i < length xs \<or> i = 0 \<Longrightarrow> shuffle_from r i (map f xs) = map f (shuffle_from r i xs)"
proof (induction i arbitrary: xs)
  case (Suc i)
  let ?j = "r (Suc i) mod Suc (Suc i)"
  have "?j < length xs" using Suc.prems by (auto intro: le_less_trans [OF _ Suc_lessI])
      (meson le_less_trans less_Suc_eq_le mod_less_divisor zero_less_Suc)
  then have "swap_at (map f xs) (Suc i) ?j = map f (swap_at xs (Suc i) ?j)"
    using Suc.prems by (simp add: swap_at_def map_update)
  then show ?case using Suc.prems Suc.IH [of "swap_at xs (Suc i) ?j"] by (simp add: swap_at_def)
qed simp

lemma sort_Slice_map: "sort_Slice r key (map f xs) = map f (sort_Slice r (key \<circ> f) xs)"
proof -
  have "rand_Shuffle r (map f xs) = map f (rand_Shuffle r xs)"
    unfolding rand_Shuffle_def length_map by (rule shuffle_from_map) (cases xs; simp)
  moreover have "sort_key key (map f ys) = map f (sort_key (key \<circ> f) ys)" for ys
  proof -
    have "insort_key key (f y) (map f zs) = map f (insort_key (key \<circ> f) y zs)" for y zs
      by (induction zs) auto
    then show ?thesis by (induction ys) auto
  qed
  ultimately show ?thesis by (simp add: sort_Slice_def)
qed

end
