(* ===== verification/Node_State.thy ===== *)
theory Node_State
  imports Go_Base
begin

text \<open>
  The in-memory tracker of \<^verbatim>\<open>pkg/nodeops/state.go\<close>: the record, one definition per method
  (a method that reads the clock takes the instant it read), and the contract that the
  shutdown and the boot cooldown share, stated once as a locale and interpreted for both.
\<close>

section \<open>The tracker and its methods\<close>

record node_state_tracker =
  shutdownTimestamps :: "string \<rightharpoonup> time"
  bootTimestamps :: "string \<rightharpoonup> time"
  poweredOff :: "string \<rightharpoonup> unit"
  LastShutdownTime :: time

definition NewNodeStateTracker :: node_state_tracker where
  "NewNodeStateTracker =
     \<lparr>shutdownTimestamps = Map.empty, bootTimestamps = Map.empty, poweredOff = Map.empty,
      LastShutdownTime = zero_time\<rparr>"

definition MarkShutdown :: "time \<Rightarrow> string \<Rightarrow> node_state_tracker \<Rightarrow> node_state_tracker" where
  "MarkShutdown now node s = s\<lparr>shutdownTimestamps := (shutdownTimestamps s)(node \<mapsto> now)\<rparr>"

definition IsInCooldown :: "node_state_tracker \<Rightarrow> string \<Rightarrow> time \<Rightarrow> duration \<Rightarrow> bool" where
  "IsInCooldown s node now cooldown =
     (case shutdownTimestamps s node of
        None \<Rightarrow> False
      | Some last_t \<Rightarrow> time_Sub now last_t < cooldown)"

definition MarkPoweredOff :: "string \<Rightarrow> node_state_tracker \<Rightarrow> node_state_tracker" where
  "MarkPoweredOff node s = s\<lparr>poweredOff := (poweredOff s)(node \<mapsto> ())\<rparr>"

definition ClearPoweredOff :: "string \<Rightarrow> node_state_tracker \<Rightarrow> node_state_tracker" where
  "ClearPoweredOff node s = s\<lparr>poweredOff := (poweredOff s)(node := None)\<rparr>"

definition IsPoweredOff :: "node_state_tracker \<Rightarrow> string \<Rightarrow> bool" where
  "IsPoweredOff s node = (poweredOff s node \<noteq> None)"

definition MarkGlobalShutdown :: "time \<Rightarrow> node_state_tracker \<Rightarrow> node_state_tracker" where
  "MarkGlobalShutdown now s = s\<lparr>LastShutdownTime := now\<rparr>"

definition IsGlobalCooldownActive :: "node_state_tracker \<Rightarrow> time \<Rightarrow> duration \<Rightarrow> bool" where
  "IsGlobalCooldownActive s now cooldown = (time_Sub now (LastShutdownTime s) < cooldown)"

definition MarkBooted :: "time \<Rightarrow> string \<Rightarrow> node_state_tracker \<Rightarrow> node_state_tracker" where
  "MarkBooted now node s = s\<lparr>bootTimestamps := (bootTimestamps s)(node \<mapsto> now)\<rparr>"

definition IsBootCooldownActive :: "node_state_tracker \<Rightarrow> string \<Rightarrow> time \<Rightarrow> duration \<Rightarrow> bool" where
  "IsBootCooldownActive s node now cooldown =
     (case bootTimestamps s node of
        None \<Rightarrow> False
      | Some last_t \<Rightarrow> time_Sub now last_t < cooldown)"

definition SetShutdownTime :: "string \<Rightarrow> time \<Rightarrow> node_state_tracker \<Rightarrow> node_state_tracker" where
  "SetShutdownTime node t s = s\<lparr>shutdownTimestamps := (shutdownTimestamps s)(node \<mapsto> t)\<rparr>"

definition SetBootTime :: "string \<Rightarrow> time \<Rightarrow> node_state_tracker \<Rightarrow> node_state_tracker" where
  "SetBootTime node t s = s\<lparr>bootTimestamps := (bootTimestamps s)(node \<mapsto> t)\<rparr>"

lemmas tracker_defs [go_simps] =
  NewNodeStateTracker_def MarkShutdown_def IsInCooldown_def MarkPoweredOff_def ClearPoweredOff_def
  IsPoweredOff_def MarkGlobalShutdown_def IsGlobalCooldownActive_def MarkBooted_def
  IsBootCooldownActive_def SetShutdownTime_def SetBootTime_def

section \<open>The contract of a per-node cooldown\<close>

text \<open>
  Both cooldowns are a clock per node: marking starts it, the test asks whether it is still
  running, nodes do not disturb each other, and a node never marked is not cooling down.
  The lemmas are proved once from these laws.
\<close>

locale cooldown_store =
  fixes fresh :: "'t"
    and mark :: "time \<Rightarrow> string \<Rightarrow> 't \<Rightarrow> 't"
    and active :: "'t \<Rightarrow> string \<Rightarrow> time \<Rightarrow> duration \<Rightarrow> bool"
  assumes active_fresh: "\<not> active fresh node now d"
    and active_mark_same: "active (mark t node s) node now d \<longleftrightarrow> time_Sub now t < d"
    and active_mark_other: "node \<noteq> node' \<Longrightarrow> active (mark t node s) node' now d \<longleftrightarrow> active s node' now d"
begin

definition marks :: "(time \<times> string) list \<Rightarrow> 't" where
  "marks ms = foldr (\<lambda>(t, node). mark t node) ms fresh"

text \<open>The newest mark of a node decides, whatever else happened.\<close>

lemma active_marks:
  "active (marks ms) node now d \<longleftrightarrow>
     (case find (\<lambda>(t, m). m = node) ms of None \<Rightarrow> False | Some (t, _) \<Rightarrow> time_Sub now t < d)"
proof (induction ms)
  case Nil
  show ?case by (simp add: marks_def active_fresh)
next
  case (Cons tm ms)
  obtain t m where tm: "tm = (t, m)" by (cases tm) auto
  have "marks (tm # ms) = mark t m (marks ms)" by (simp add: marks_def tm)
  then show ?case
    using Cons by (cases "m = node") (simp_all add: tm active_mark_same active_mark_other)
qed

text \<open>Once a cooldown has run out it stays out, however late the clock is read again.\<close>

lemma cooldown_expires:
  assumes "\<not> active (mark t node s) node now d" and "now \<le> now'"
  shows "\<not> active (mark t node s) node now' d"
  using assms time_Sub_mono [of now now' t] by (simp add: active_mark_same)

lemma cooldown_runs:
  assumes "d \<le> max_int64" and "t \<le> now"
  shows "active (mark t node s) node now d \<longleftrightarrow> now < t + d"
proof (cases "min_int64 < d")
  case True
  then show ?thesis using assms time_Sub_less_iff [of d now t] by (simp add: active_mark_same algebra_simps)
next
  case False
  have "min_int64 < 0" by (simp add: min_int64_def)
  moreover have "min_int64 \<le> time_Sub now t" using time_Sub_range [of now t] by (simp add: in_int64_def)
  ultimately show ?thesis using False assms by (auto simp: active_mark_same)
qed

end

interpretation shutdown_cooldown: cooldown_store NewNodeStateTracker MarkShutdown IsInCooldown
  by unfold_locales (auto simp: go_simps)

interpretation boot_cooldown: cooldown_store NewNodeStateTracker MarkBooted IsBootCooldownActive
  by unfold_locales (auto simp: go_simps)

section \<open>The set of powered-off nodes and the global cooldown\<close>

text \<open>Abstractly the tracker's \<^verbatim>\<open>poweredOff\<close> map is a set of node names.\<close>

definition off_set :: "node_state_tracker \<Rightarrow> string set" where
  "off_set s = {node. IsPoweredOff s node}"

lemma off_set_simps [simp]:
  "off_set NewNodeStateTracker = {}"
  "off_set (MarkPoweredOff node s) = insert node (off_set s)"
  "off_set (ClearPoweredOff node s) = off_set s - {node}"
  "off_set (MarkShutdown t node s) = off_set s"
  "off_set (MarkBooted t node s) = off_set s"
  "off_set (MarkGlobalShutdown t s) = off_set s"
  by (auto simp: off_set_def go_simps)

lemma LastShutdownTime_simps [simp]:
  "LastShutdownTime (MarkPoweredOff node s) = LastShutdownTime s"
  "LastShutdownTime (ClearPoweredOff node s) = LastShutdownTime s"
  "LastShutdownTime (MarkShutdown t node s) = LastShutdownTime s"
  "LastShutdownTime (MarkBooted t node s) = LastShutdownTime s"
  "LastShutdownTime (MarkGlobalShutdown t s) = t"
  by (simp_all add: go_simps)

lemma global_cooldown_fresh:
  assumes "0 \<le> now" and "d \<le> max_int64"
  shows "\<not> IsGlobalCooldownActive NewNodeStateTracker now d"
  using assms time_Sub_zero_time [of now] by (simp add: go_simps)

lemma global_cooldown_marked:
  assumes "d \<le> max_int64" and "t \<le> now"
  shows "IsGlobalCooldownActive (MarkGlobalShutdown t s) now d \<longleftrightarrow> now < t + d"
  using shutdown_cooldown.cooldown_runs [OF assms, of "''n''" s]
  by (simp add: shutdown_cooldown.active_mark_same) (simp add: go_simps)

section \<open>The tracker against its history\<close>

text \<open>
  An abstract view of the tracker: the operations applied so far, newest first. What the tracker
  answers is determined by the newest operation that concerns the question.
\<close>

datatype tracker_op =
    Shut time string
  | Boot time string
  | Off string
  | On string
  | Global time
  | Set_shut string time
  | Set_boot string time

fun apply_op :: "tracker_op \<Rightarrow> node_state_tracker \<Rightarrow> node_state_tracker" where
  "apply_op (Shut t n) = MarkShutdown t n"
| "apply_op (Boot t n) = MarkBooted t n"
| "apply_op (Off n) = MarkPoweredOff n"
| "apply_op (On n) = ClearPoweredOff n"
| "apply_op (Global t) = MarkGlobalShutdown t"
| "apply_op (Set_shut n t) = SetShutdownTime n t"
| "apply_op (Set_boot n t) = SetBootTime n t"

definition run_ops :: "tracker_op list \<Rightarrow> node_state_tracker" where
  "run_ops ops = foldr apply_op ops NewNodeStateTracker"

fun newest :: "(tracker_op \<Rightarrow> 'a option) \<Rightarrow> tracker_op list \<Rightarrow> 'a option" where
  "newest f [] = None"
| "newest f (op # ops) = (case f op of Some x \<Rightarrow> Some x | None \<Rightarrow> newest f ops)"

fun shut_of :: "string \<Rightarrow> tracker_op \<Rightarrow> time option" where
  "shut_of n (Shut t m) = (if m = n then Some t else None)"
| "shut_of n (Set_shut m t) = (if m = n then Some t else None)"
| "shut_of n _ = None"

fun boot_of :: "string \<Rightarrow> tracker_op \<Rightarrow> time option" where
  "boot_of n (Boot t m) = (if m = n then Some t else None)"
| "boot_of n (Set_boot m t) = (if m = n then Some t else None)"
| "boot_of n _ = None"

fun off_of :: "string \<Rightarrow> tracker_op \<Rightarrow> bool option" where
  "off_of n (Off m) = (if m = n then Some True else None)"
| "off_of n (On m) = (if m = n then Some False else None)"
| "off_of n _ = None"

fun global_of :: "tracker_op \<Rightarrow> time option" where
  "global_of (Global t) = Some t"
| "global_of _ = None"

definition running :: "time option \<Rightarrow> time \<Rightarrow> duration \<Rightarrow> bool" where
  "running start now d = (case start of None \<Rightarrow> False | Some t \<Rightarrow> time_Sub now t < d)"

lemma run_ops_maps:
  "shutdownTimestamps (run_ops ops) n = newest (shut_of n) ops"
  "bootTimestamps (run_ops ops) n = newest (boot_of n) ops"
  "IsPoweredOff (run_ops ops) n = (newest (off_of n) ops = Some True)"
  "LastShutdownTime (run_ops ops) = (case newest global_of ops of None \<Rightarrow> zero_time | Some t \<Rightarrow> t)"
proof (induction ops)
  case Nil
  { case 1 show ?case by (simp add: run_ops_def go_simps) }
  { case 2 show ?case by (simp add: run_ops_def go_simps) }
  { case 3 show ?case by (simp add: run_ops_def go_simps) }
  { case 4 show ?case by (simp add: run_ops_def go_simps) }
next
  case (Cons op ops)
  { case 1 show ?case using Cons by (cases op) (simp_all add: run_ops_def go_simps) }
  { case 2 show ?case using Cons by (cases op) (simp_all add: run_ops_def go_simps) }
  { case 3 show ?case using Cons by (cases op) (simp_all add: run_ops_def go_simps) }
  { case 4 show ?case using Cons by (cases op) (simp_all add: run_ops_def go_simps) }
qed

section \<open>Properties\<close>

text \<open>C28: after any sequence of operations the tracker answers as its history says: a node is in the
  shutdown (boot) cooldown when its newest shutdown (boot) time is less than the cooldown ago, it is
  powered off when the newest mark of it says so, and the global cooldown runs from the newest
  global mark, never having run before the first.\<close>

theorem tracker_refines_history:
  "IsInCooldown (run_ops ops) n now d = running (newest (shut_of n) ops) now d \<and>
   IsBootCooldownActive (run_ops ops) n now d = running (newest (boot_of n) ops) now d \<and>
   IsPoweredOff (run_ops ops) n = (newest (off_of n) ops = Some True) \<and>
   IsGlobalCooldownActive (run_ops ops) now d =
     (time_Sub now (case newest global_of ops of None \<Rightarrow> zero_time | Some t \<Rightarrow> t) < d)"
  by (simp add: IsInCooldown_def IsBootCooldownActive_def IsGlobalCooldownActive_def run_ops_maps running_def)

text \<open>A node marked at \<open>t\<close> is in the shutdown cooldown \<open>d\<close> exactly until \<open>t + d\<close>, whatever
  happened to it or to other nodes before, as long as it is not marked again.\<close>

theorem shutdown_cooldown_exact:
  assumes "d \<le> max_int64" and "t \<le> now" and "\<forall>op \<in> set later. shut_of n op = None"
  shows "IsInCooldown (run_ops (later @ Shut t n # earlier)) n now d \<longleftrightarrow> now < t + d"
proof -
  have "newest (shut_of n) (later @ Shut t n # earlier) = Some t"
    using assms(3) by (induction later) auto
  then have "IsInCooldown (run_ops (later @ Shut t n # earlier)) n now d \<longleftrightarrow>
      IsInCooldown (MarkShutdown t n NewNodeStateTracker) n now d"
    by (simp add: IsInCooldown_def run_ops_maps) (simp add: go_simps)
  then show ?thesis using shutdown_cooldown.cooldown_runs [OF assms(1,2)] by simp
qed

theorem shutdown_cooldown_exact_witness:
  "IsInCooldown (run_ops [Boot 7 ''n1'', Shut 5 ''n2'', Shut 3 ''n1'', Shut 1 ''n1'']) ''n1'' 9 10 \<and>
   \<not> IsInCooldown (run_ops [Boot 7 ''n1'', Shut 5 ''n2'', Shut 3 ''n1'', Shut 1 ''n1'']) ''n1'' 13 10"
  using shutdown_cooldown_exact [of 10 3 9 "[Boot 7 ''n1'', Shut 5 ''n2'']" "''n1''" "[Shut 1 ''n1'']"]
    shutdown_cooldown_exact [of 10 3 13 "[Boot 7 ''n1'', Shut 5 ''n2'']" "''n1''" "[Shut 1 ''n1'']"]
  by (simp add: max_int64_def)

end
