(* ===== verification/Kube_World.thy ===== *)
theory Kube_World
  imports Node_State
begin

text \<open>
  What the autoscaler talks to. The Kubernetes API server, the agents' HTTP endpoints, the
  clock, the random source and two helpers of client-go are not code of the repository:
  they are the parameter \<open>env\<close>, a record of functions from the log of everything called so
  far to the answer, so an environment may answer in any way, and differently every time. The
  objects carry the fields the code reads. Every call appends itself and its answer to the log.
\<close>

section \<open>Errors\<close>

text \<open>
  A Go \<^verbatim>\<open>error\<close>: an API error by the reason \<^verbatim>\<open>apierrors.Is...\<close> reads, one wrapped by
  \<^verbatim>\<open>fmt.Errorf("...: %w", err)\<close>, or a plain message. The predicates look through the
  wrapping, as \<^verbatim>\<open>errors.As\<close> does.
\<close>

datatype error =
    ErrConflict
  | ErrNotFound
  | ErrTooManyRequests
  | ErrOther string
  | Wrapped string error
  | Msg string

fun IsConflict :: "error \<Rightarrow> bool" where
  "IsConflict ErrConflict = True"
| "IsConflict (Wrapped _ e) = IsConflict e"
| "IsConflict _ = False"

fun IsNotFound :: "error \<Rightarrow> bool" where
  "IsNotFound ErrNotFound = True"
| "IsNotFound (Wrapped _ e) = IsNotFound e"
| "IsNotFound _ = False"

fun IsTooManyRequests :: "error \<Rightarrow> bool" where
  "IsTooManyRequests ErrTooManyRequests = True"
| "IsTooManyRequests (Wrapped _ e) = IsTooManyRequests e"
| "IsTooManyRequests _ = False"

section \<open>API objects\<close>

text \<open>
  A \<^verbatim>\<open>resource.Quantity\<close> is known by what its accessors return. A resource list keeps its
  keys in a list because one check iterates over it.
\<close>

record quantity =
  q_MilliValue :: int64
  q_Value :: int64
  q_IsZero :: bool

type_synonym resource_list = "(string \<times> quantity) list"

definition zero_quantity :: quantity where
  "zero_quantity = \<lparr>q_MilliValue = 0, q_Value = 0, q_IsZero = True\<rparr>"

definition resource_of :: "string \<Rightarrow> resource_list \<Rightarrow> quantity" where
  "resource_of name rl = (case map_of rl name of None \<Rightarrow> zero_quantity | Some q \<Rightarrow> q)"

definition rl_Cpu :: "resource_list \<Rightarrow> quantity" where "rl_Cpu = resource_of ''cpu''"
definition rl_Memory :: "resource_list \<Rightarrow> quantity" where "rl_Memory = resource_of ''memory''"

record node =
  node_Name :: string
  node_Labels :: "string \<rightharpoonup> string"
  node_Annotations :: "string \<rightharpoonup> string"
  node_Unschedulable :: bool
  node_Conditions :: "(string \<times> string) list"
  node_VolumesInUse :: "string list"
  node_Allocatable :: resource_list

record container =
  c_Requests :: resource_list
  c_Limits :: resource_list

text \<open>\<open>pod_Controller\<close> is the kind of the owner that \<^verbatim>\<open>metav1.GetControllerOf\<close> returns.\<close>

record pod =
  pod_Name :: string
  pod_Namespace :: string
  pod_UID :: string
  pod_Annotations :: "string \<rightharpoonup> string"
  pod_Controller :: "string option"
  pod_Phase :: string
  pod_DeletionTimestamp :: "time option"
  pod_NodeName :: string
  pod_PodIP :: string
  pod_Containers :: "container list"
  pod_InitContainers :: "container list"

record node_metrics =
  nm_Name :: string
  nm_Usage :: resource_list

datatype pod_query =
    AllPods
  | PodsOnNode string           \<comment> \<open>field selector \<^verbatim>\<open>spec.nodeName=\<close>\<close>
  | PodsLabelled string string  \<comment> \<open>namespace, label selector\<close>

text \<open>A JSON merge patch of a node's annotations: \<open>None\<close> is \<^verbatim>\<open>null\<close>, which deletes the key.\<close>

type_synonym annotation_patch = "(string \<times> string option) list"

fun apply_patch :: "annotation_patch \<Rightarrow> (string \<rightharpoonup> string) \<Rightarrow> (string \<rightharpoonup> string)" where
  "apply_patch [] m = m"
| "apply_patch ((k, v) # p) m = apply_patch p (m(k := v))"

text \<open>
  An HTTP response: the status, what decoding the body into the load and MAC structs of the
  code gives, and the body as text.
\<close>

record http_resp =
  resp_Status :: int
  resp_load :: "(real \<times> int) option"
  resp_mac :: "string option"
  resp_body :: string

section \<open>The log of calls\<close>

text \<open>
  \<open>CPowerOn\<close> and \<open>CShutdown\<close> are the calls through the controller interfaces, with their
  result; the HTTP requests a controller makes on the way are logged as well. A merge patch that
  the code assembles from constants and formatted instants, which need no escaping, is logged as
  the keys and values it sets (\<open>CPatchNode\<close>); one that has foreign text spliced into it as the
  request body that goes over the wire (\<open>CPatchRaw\<close>).
\<close>

datatype call =
    CNow time
  | CSleep duration
  | CWait
  | CCtxDone
  | CRand
  | CListNodes "error + node list"
  | CGetNode string "error + node"
  | CUpdateNode node "error option"
  | CPatchNode string annotation_patch "error option"
  | CPatchRaw string string "error option"
  | CListPods pod_query "error + pod list"
  | CEvict string string string "error option"
  | CListAttachments "error + string list"
  | CListMetrics "error + node_metrics list"
  | CHttp string string "error + http_resp"
  | CPowerOn string string "error option"
  | CShutdown string "error option"

section \<open>The state and the environment\<close>

record metrics =
  Evaluations :: nat
  ScaleDowns :: nat
  ShutdownAttempts :: nat
  ShutdownSuccesses :: nat
  EvictionFailures :: nat
  PowerOnAttempts :: nat
  PowerOnSuccesses :: nat
  PoweredOffNodes :: "string \<rightharpoonup> int"

definition init_metrics :: metrics where
  "init_metrics = \<lparr>Evaluations = 0, ScaleDowns = 0, ShutdownAttempts = 0, ShutdownSuccesses = 0,
     EvictionFailures = 0, PowerOnAttempts = 0, PowerOnSuccesses = 0, PoweredOffNodes = Map.empty\<rparr>"

text \<open>The mutable state of the process: the log (newest call first), the tracker, the metrics.\<close>

record sys =
  hist :: "call list"
  tracker :: node_state_tracker
  counters :: metrics

type_synonym 'a io = "(sys, 'a) state"

definition init_sys :: sys where
  "init_sys = \<lparr>hist = [], tracker = NewNodeStateTracker, counters = init_metrics\<rparr>"

record env =
  env_Now :: "call list \<Rightarrow> time"
  env_CtxDone :: "call list \<Rightarrow> error option"
  env_Rand :: "call list \<Rightarrow> nat \<Rightarrow> nat"
  env_ListNodes :: "call list \<Rightarrow> error + node list"
  env_GetNode :: "call list \<Rightarrow> string \<Rightarrow> error + node"
  env_UpdateNode :: "call list \<Rightarrow> node \<Rightarrow> error option"
  env_PatchNode :: "call list \<Rightarrow> string \<Rightarrow> annotation_patch \<Rightarrow> error option"
  env_PatchRaw :: "call list \<Rightarrow> string \<Rightarrow> string \<Rightarrow> error option"
  env_ListPods :: "call list \<Rightarrow> pod_query \<Rightarrow> error + pod list"
  env_Evict :: "call list \<Rightarrow> string \<Rightarrow> string \<Rightarrow> string \<Rightarrow> error option"
  env_ListAttachments :: "call list \<Rightarrow> error + string list"
  env_ListMetrics :: "call list \<Rightarrow> error + node_metrics list"
  env_Http :: "call list \<Rightarrow> string \<Rightarrow> string \<Rightarrow> error + http_resp"
  env_ParseSelector :: "string \<Rightarrow> error + string"
  env_OnError :: "(error \<Rightarrow> bool) \<Rightarrow> error option io \<Rightarrow> error option io"
  env_Poll :: "(string list \<Rightarrow> ((error + bool) \<times> string list) io) \<Rightarrow> string list \<Rightarrow> error option io"

section \<open>The calls\<close>

definition perform :: "(call list \<Rightarrow> 'r) \<Rightarrow> ('r \<Rightarrow> call) \<Rightarrow> 'r io" where
  "perform answer event =
     State (\<lambda>s. let r = answer (hist s) in (r, s\<lparr>hist := event r # hist s\<rparr>))"

text \<open>
  Go's clock does not run backwards and a sleep lasts at least as long as asked: an instant read
  is no earlier than the last one read plus the sleeps since.
\<close>

fun clock_floor :: "call list \<Rightarrow> time" where
  "clock_floor [] = unix_zero"
| "clock_floor (CNow t # h) = t"
| "clock_floor (CSleep d # h) = clock_floor h + max 0 d"
| "clock_floor (_ # h) = clock_floor h"

definition Now :: "env \<Rightarrow> time io" where
  "Now E = perform (\<lambda>h. max (env_Now E h) (clock_floor h)) CNow"

definition Sleep :: "duration \<Rightarrow> unit io" where
  "Sleep d = perform (\<lambda>_. ()) (\<lambda>_. CSleep d)"

definition Rand :: "env \<Rightarrow> (nat \<Rightarrow> nat) io" where
  "Rand E = perform (env_Rand E) (\<lambda>_. CRand)"

definition ListNodes :: "env \<Rightarrow> (error + node list) io" where
  "ListNodes E = perform (env_ListNodes E) CListNodes"

definition GetNode :: "env \<Rightarrow> string \<Rightarrow> (error + node) io" where
  "GetNode E name = perform (\<lambda>h. env_GetNode E h name) (CGetNode name)"

definition UpdateNode :: "env \<Rightarrow> node \<Rightarrow> error option io" where
  "UpdateNode E n = perform (\<lambda>h. env_UpdateNode E h n) (CUpdateNode n)"

definition PatchNode :: "env \<Rightarrow> string \<Rightarrow> annotation_patch \<Rightarrow> error option io" where
  "PatchNode E name p = perform (\<lambda>h. env_PatchNode E h name p) (CPatchNode name p)"

definition PatchRaw :: "env \<Rightarrow> string \<Rightarrow> string \<Rightarrow> error option io" where
  "PatchRaw E name body = perform (\<lambda>h. env_PatchRaw E h name body) (CPatchRaw name body)"

definition ListPods :: "env \<Rightarrow> pod_query \<Rightarrow> (error + pod list) io" where
  "ListPods E q = perform (\<lambda>h. env_ListPods E h q) (CListPods q)"

definition Evict :: "env \<Rightarrow> string \<Rightarrow> string \<Rightarrow> string \<Rightarrow> error option io" where
  "Evict E ns name uid = perform (\<lambda>h. env_Evict E h ns name uid) (CEvict ns name uid)"

definition ListAttachments :: "env \<Rightarrow> (error + string list) io" where
  "ListAttachments E = perform (env_ListAttachments E) CListAttachments"

definition ListMetrics :: "env \<Rightarrow> (error + node_metrics list) io" where
  "ListMetrics E = perform (env_ListMetrics E) CListMetrics"

definition Http :: "env \<Rightarrow> string \<Rightarrow> string \<Rightarrow> (error + http_resp) io" where
  "Http E meth url = perform (\<lambda>h. env_Http E h meth url) (CHttp meth url)"

definition CtxDone :: "env \<Rightarrow> error option io" where
  "CtxDone E = perform (env_CtxDone E) (\<lambda>_. CCtxDone)"

definition get_tracker :: "node_state_tracker io" where
  "get_tracker = State (\<lambda>s. (tracker s, s))"

definition on_tracker :: "(node_state_tracker \<Rightarrow> node_state_tracker) \<Rightarrow> unit io" where
  "on_tracker f = State (\<lambda>s. ((), s\<lparr>tracker := f (tracker s)\<rparr>))"

definition on_counters :: "(metrics \<Rightarrow> metrics) \<Rightarrow> unit io" where
  "on_counters f = State (\<lambda>s. ((), s\<lparr>counters := f (counters s)\<rparr>))"

definition log_call :: "call \<Rightarrow> unit io" where
  "log_call c = State (\<lambda>s. ((), s\<lparr>hist := c # hist s\<rparr>))"

lemmas api_defs =
  Now_def Sleep_def Rand_def ListNodes_def GetNode_def UpdateNode_def PatchNode_def PatchRaw_def ListPods_def
  Evict_def ListAttachments_def ListMetrics_def Http_def CtxDone_def

lemma run_perform [simp]:
  "run_state (perform answer event) s =
     (answer (hist s), s\<lparr>hist := event (answer (hist s)) # hist s\<rparr>)"
  by (simp add: perform_def Let_def)

lemma run_get_tracker [simp]: "run_state get_tracker s = (tracker s, s)"
  by (simp add: get_tracker_def)

lemma run_on_tracker [simp]: "run_state (on_tracker f) s = ((), s\<lparr>tracker := f (tracker s)\<rparr>)"
  by (simp add: on_tracker_def)

lemma run_on_counters [simp]: "run_state (on_counters f) s = ((), s\<lparr>counters := f (counters s)\<rparr>)"
  by (simp add: on_counters_def)

lemma run_log_call [simp]: "run_state (log_call c) s = ((), s\<lparr>hist := c # hist s\<rparr>)"
  by (simp add: log_call_def)

lemmas [run_simps] =
  api_defs init_sys_def init_metrics_def Let_def unix_zero_def

end
