(* ===== verification/Effects.thy ===== *)
theory Effects
  imports Kube_World
begin

text \<open>
  How programs over the world are reasoned about: the frame relations \<open>logs P\<close> (only calls
  satisfying \<open>P\<close> are made), \<open>same_tracker\<close>, the monotone clock and their conjunction
  \<open>reading\<close>, each an interpretation of the frame calculus with the rules for every call; and the documented
  behaviour of the two client-go helpers, \<^verbatim>\<open>retry.OnError\<close> and
  \<^verbatim>\<open>wait.PollUntilContextCancel\<close>, as relations with frame and Hoare rules.
\<close>

section \<open>Frame relations\<close>

definition logs :: "(call \<Rightarrow> bool) \<Rightarrow> sys \<Rightarrow> sys \<Rightarrow> bool" where
  "logs P s t \<longleftrightarrow> (\<exists>cs. hist t = cs @ hist s \<and> list_all P cs)"

definition same_tracker :: "sys \<Rightarrow> sys \<Rightarrow> bool" where
  "same_tracker s t \<longleftrightarrow> tracker t = tracker s"

interpretation logs: frame_rel "logs P" for P
proof unfold_locales
  fix s t u :: sys
  show "logs P s s" by (simp add: logs_def)
  assume "logs P s t" "logs P t u"
  then obtain cs ds where "hist t = cs @ hist s" "list_all P cs" "hist u = ds @ hist t" "list_all P ds"
    by (auto simp: logs_def)
  then show "logs P s u" by (auto simp: logs_def intro: exI [where x = "ds @ cs"])
qed

interpretation tracker: frame_rel same_tracker
  by unfold_locales (simp_all add: same_tracker_def)

lemmas [frame_intro] =
  logs.holds_return logs.holds_bind logs.holds_when logs.holds_for_each
  tracker.holds_return tracker.holds_bind tracker.holds_when tracker.holds_for_each

lemma logs_perform:
  assumes "\<And>r. P (event r)"
  shows "state_io_rel (logs P) (perform answer event)"
proof (rule state_io_relI)
  fix r s t assume "run_state (perform answer event) s = (r, t)"
  then have "hist t = [event r] @ hist s" by auto
  then show "logs P s t" using assms by (auto simp: logs_def intro!: exI [where x = "[event r]"])
qed

lemma logs_api [frame_intro]:
  "(\<And>t. P (CNow t)) \<Longrightarrow> state_io_rel (logs P) (Now E)"
  "P (CSleep d) \<Longrightarrow> state_io_rel (logs P) (Sleep d)"
  "P CRand \<Longrightarrow> state_io_rel (logs P) (Rand E)"
  "P CCtxDone \<Longrightarrow> state_io_rel (logs P) (CtxDone E)"
  "(\<And>r. P (CListNodes r)) \<Longrightarrow> state_io_rel (logs P) (ListNodes E)"
  "(\<And>r. P (CGetNode name r)) \<Longrightarrow> state_io_rel (logs P) (GetNode E name)"
  "(\<And>r. P (CUpdateNode n r)) \<Longrightarrow> state_io_rel (logs P) (UpdateNode E n)"
  "(\<And>r. P (CPatchNode name p r)) \<Longrightarrow> state_io_rel (logs P) (PatchNode E name p)"
  "(\<And>r. P (CPatchRaw name body r)) \<Longrightarrow> state_io_rel (logs P) (PatchRaw E name body)"
  "(\<And>r. P (CListPods q r)) \<Longrightarrow> state_io_rel (logs P) (ListPods E q)"
  "(\<And>r. P (CEvict ns name uid r)) \<Longrightarrow> state_io_rel (logs P) (Evict E ns name uid)"
  "(\<And>r. P (CListAttachments r)) \<Longrightarrow> state_io_rel (logs P) (ListAttachments E)"
  "(\<And>r. P (CListMetrics r)) \<Longrightarrow> state_io_rel (logs P) (ListMetrics E)"
  "(\<And>r. P (CHttp meth url r)) \<Longrightarrow> state_io_rel (logs P) (Http E meth url)"
  unfolding api_defs by (auto intro: logs_perform)

lemma logs_state [frame_intro]:
  "state_io_rel (logs P) get_tracker"
  "state_io_rel (logs P) (on_tracker f)"
  "state_io_rel (logs P) (on_counters g)"
  "P c \<Longrightarrow> state_io_rel (logs P) (log_call c)"
  by (auto simp: state_io_rel_def logs_def intro: exI [where x = "[c]"])

lemma tracker_perform: "state_io_rel same_tracker (perform answer event)"
  by (auto simp: state_io_rel_def same_tracker_def)

lemma tracker_api [frame_intro]:
  "state_io_rel same_tracker (Now E)"
  "state_io_rel same_tracker (Sleep d)"
  "state_io_rel same_tracker (Rand E)"
  "state_io_rel same_tracker (CtxDone E)"
  "state_io_rel same_tracker (ListNodes E)"
  "state_io_rel same_tracker (GetNode E name)"
  "state_io_rel same_tracker (UpdateNode E n)"
  "state_io_rel same_tracker (PatchNode E name p)"
  "state_io_rel same_tracker (PatchRaw E name body)"
  "state_io_rel same_tracker (ListPods E q)"
  "state_io_rel same_tracker (Evict E ns name uid)"
  "state_io_rel same_tracker (ListAttachments E)"
  "state_io_rel same_tracker (ListMetrics E)"
  "state_io_rel same_tracker (Http E meth url)"
  unfolding api_defs by (auto intro: tracker_perform)

lemma tracker_state [frame_intro]:
  "state_io_rel same_tracker get_tracker"
  "state_io_rel same_tracker (on_counters g)"
  "state_io_rel same_tracker (log_call c)"
  by (auto simp: state_io_rel_def same_tracker_def)

lemma logs_mono: "state_io_rel (logs P) m \<Longrightarrow> (\<And>c. P c \<Longrightarrow> Q c) \<Longrightarrow> state_io_rel (logs Q) m"
  unfolding state_io_rel_def logs_def by (metis list.pred_mono_strong)

lemma logs_new:
  assumes "state_io_rel (logs P) m" and "run_state m s = (x, t)" and "c \<in> set (hist t)"
  shows "P c \<or> c \<in> set (hist s)"
  using state_io_rel_run [OF assms(1,2)] assms(3) by (auto simp: logs_def list_all_iff)

lemma logs_run: "state_io_rel (logs P) m \<Longrightarrow> run_state m s = (x, t) \<Longrightarrow>
  \<exists>cs. hist t = cs @ hist s \<and> list_all P cs"
  by (auto dest: state_io_rel_run simp: logs_def)

lemma logs_same_tracker: "state_io_rel same_tracker m \<Longrightarrow> run_state m s = (x, t) \<Longrightarrow> tracker t = tracker s"
  by (auto dest: state_io_rel_run simp: same_tracker_def)

text \<open>The calls that change the cluster or a machine.\<close>

fun is_write :: "call \<Rightarrow> bool" where
  "is_write (CUpdateNode _ _) = True"
| "is_write (CPatchNode _ _ _) = True"
| "is_write (CPatchRaw _ _ _) = True"
| "is_write (CEvict _ _ _ _) = True"
| "is_write (CPowerOn _ _ _) = True"
| "is_write (CShutdown _ _) = True"
| "is_write (CHttp meth _ _) = (meth \<noteq> ''GET'')"
| "is_write _ = False"

abbreviation read_only :: "'a io \<Rightarrow> bool" where
  "read_only m \<equiv> state_io_rel (logs (\<lambda>c. \<not> is_write c)) m"

section \<open>The clock\<close>

definition clock_le :: "sys \<Rightarrow> sys \<Rightarrow> bool" where
  "clock_le s t \<longleftrightarrow> clock_floor (hist s) \<le> clock_floor (hist t)"

lemma run_Now: "run_state (Now E) s = (now, t) \<Longrightarrow>
  clock_floor (hist s) \<le> now \<and> clock_floor (hist t) = now \<and> tracker t = tracker s \<and>
  hist t = CNow now # hist s"
  by (auto simp: Now_def)

interpretation clock: frame_rel clock_le
  by unfold_locales (simp_all add: clock_le_def)

lemmas [frame_intro] =
  clock.holds_return clock.holds_bind clock.holds_when clock.holds_for_each

lemma clock_perform: "(\<And>h. clock_floor h \<le> clock_floor (event (answer h) # h)) \<Longrightarrow>
  state_io_rel clock_le (perform answer event)"
  by (auto simp: state_io_rel_def clock_le_def)

lemma clock_api [frame_intro]:
  "state_io_rel clock_le (Now E)"
  "state_io_rel clock_le (Sleep d)"
  "state_io_rel clock_le (Rand E)"
  "state_io_rel clock_le (CtxDone E)"
  "state_io_rel clock_le (ListNodes E)"
  "state_io_rel clock_le (GetNode E name)"
  "state_io_rel clock_le (UpdateNode E n)"
  "state_io_rel clock_le (PatchNode E name p)"
  "state_io_rel clock_le (PatchRaw E name body)"
  "state_io_rel clock_le (ListPods E q)"
  "state_io_rel clock_le (Evict E ns name uid)"
  "state_io_rel clock_le (ListAttachments E)"
  "state_io_rel clock_le (ListMetrics E)"
  "state_io_rel clock_le (Http E meth url)"
  unfolding api_defs by (auto intro!: clock_perform)

lemma clock_state [frame_intro]:
  "state_io_rel clock_le get_tracker"
  "state_io_rel clock_le (on_tracker f)"
  "state_io_rel clock_le (on_counters g)"
  by (auto simp: state_io_rel_def clock_le_def)

lemma clock_log [frame_intro]:
  "state_io_rel clock_le (log_call (CPowerOn n m r))"
  "state_io_rel clock_le (log_call (CShutdown n r))"
  by (auto simp: state_io_rel_def clock_le_def)

section \<open>Programs that only read\<close>

text \<open>
  \<open>reading\<close> is the conjunction of the three: nothing is written, the tracker and the metrics
  are left alone, the clock moves forward. A query of the program is proved \<open>reading\<close> once,
  and \<open>reading_all\<close> gives its other frames.
\<close>

definition reading :: "sys \<Rightarrow> sys \<Rightarrow> bool" where
  "reading s t \<longleftrightarrow> logs (\<lambda>c. \<not> is_write c) s t \<and> same_tracker s t \<and> clock_le s t \<and> counters t = counters s"

interpretation reading: frame_rel reading
proof unfold_locales
  fix s t u :: sys
  show "reading s s" by (simp add: reading_def logs.R_refl tracker.R_refl clock.R_refl)
  assume "reading s t" "reading t u"
  then show "reading s u" unfolding reading_def
    by (metis logs.R_trans tracker.R_trans clock.R_trans)
qed

lemmas [frame_intro] =
  reading.holds_return reading.holds_bind reading.holds_when reading.holds_for_each

lemma reading_intro:
  assumes "read_only m" "state_io_rel same_tracker m" "state_io_rel clock_le m"
    and "\<And>s x t. run_state m s = (x, t) \<Longrightarrow> counters t = counters s"
  shows "state_io_rel reading m"
  using assms unfolding reading_def state_io_rel_def by (metis prod.collapse)

lemma reading_perform:
  assumes "\<And>r. \<not> is_write (event r)"
    and "\<And>h. clock_floor h \<le> clock_floor (event (answer h) # h)"
  shows "state_io_rel reading (perform answer event)"
  by (rule reading_intro) (use assms in \<open>auto intro: logs_perform tracker_perform clock_perform\<close>)

lemma reading_api [frame_intro]:
  "state_io_rel reading (Now E)"
  "state_io_rel reading (Sleep d)"
  "state_io_rel reading (Rand E)"
  "state_io_rel reading (CtxDone E)"
  "state_io_rel reading (ListNodes E)"
  "state_io_rel reading (GetNode E name)"
  "state_io_rel reading (ListPods E q)"
  "state_io_rel reading (ListAttachments E)"
  "state_io_rel reading (ListMetrics E)"
  "state_io_rel reading (Http E ''GET'' url)"
  unfolding api_defs by (auto intro!: reading_perform)

lemma reading_get_tracker [frame_intro]: "state_io_rel reading get_tracker"
  by (auto simp: state_io_rel_def reading_def logs.R_refl tracker.R_refl clock.R_refl)

lemma reading_all:
  assumes "state_io_rel reading m"
  shows "(\<And>c. \<not> is_write c \<Longrightarrow> P c) \<Longrightarrow> state_io_rel (logs P) m"
    and "state_io_rel same_tracker m"
    and "state_io_rel clock_le m"
proof -
  have "read_only m" using assms by (simp add: state_io_rel_def reading_def)
  then show "state_io_rel (logs P) m" if "\<And>c. \<not> is_write c \<Longrightarrow> P c" using that by (rule logs_mono)
  show "state_io_rel same_tracker m" using assms by (simp add: state_io_rel_def reading_def)
  show "state_io_rel clock_le m" using assms by (simp add: state_io_rel_def reading_def)
qed

lemma reading_run:
  assumes "state_io_rel reading m" and "run_state m s = (x, t)"
  shows "\<exists>cs. hist t = cs @ hist s \<and> list_all (\<lambda>c. \<not> is_write c) cs"
    and "tracker t = tracker s" and "counters t = counters s"
    and "clock_floor (hist s) \<le> clock_floor (hist t)"
  using state_io_rel_run [OF assms] by (simp_all add: reading_def logs_def same_tracker_def clock_le_def)

section \<open>The calls since a point\<close>

text \<open>\<open>calls_since h0 Q s\<close>: the calls logged after \<open>h0\<close>, newest first, satisfy \<open>Q\<close>.\<close>

definition calls_since :: "call list \<Rightarrow> (call list \<Rightarrow> bool) \<Rightarrow> sys \<Rightarrow> bool" where
  "calls_since h0 Q s \<longleftrightarrow> (\<exists>cs. hist s = cs @ h0 \<and> Q cs)"

lemma calls_since_start: "Q [] \<Longrightarrow> calls_since (hist s) Q s"
  by (simp add: calls_since_def)

lemma calls_since_mono: "calls_since h0 Q s \<Longrightarrow> (\<And>cs. Q cs \<Longrightarrow> Q' cs) \<Longrightarrow> calls_since h0 Q' s"
  by (auto simp: calls_since_def)

lemma calls_since_Cons: "calls_since h0 Q s \<Longrightarrow> hist t = c # hist s \<Longrightarrow> (\<And>cs. Q cs \<Longrightarrow> Q' (c # cs)) \<Longrightarrow> calls_since h0 Q' t"
  unfolding calls_since_def by (metis append_Cons)

lemma calls_since_logs:
  assumes "state_io_rel (logs P) m" and "run_state m s = (x, t)" and "calls_since h0 Q s"
    and "\<And>c cs. P c \<Longrightarrow> Q cs \<Longrightarrow> Q (c # cs)"
  shows "calls_since h0 Q t"
proof -
  obtain cs ds where "hist s = cs @ h0" "Q cs" "hist t = ds @ hist s" "list_all P ds"
    using assms(3) state_io_rel_run [OF assms(1,2)] by (auto simp: calls_since_def logs_def)
  moreover have "Q (ds @ cs)" if "list_all P ds" for ds
    using that \<open>Q cs\<close> assms(4) by (induction ds) auto
  ultimately show ?thesis by (auto simp: calls_since_def)
qed

lemma calls_since_reading:
  assumes "state_io_rel reading m" and "run_state m s = (x, t)" and "calls_since h0 Q s"
    and "\<And>c cs. \<not> is_write c \<Longrightarrow> Q cs \<Longrightarrow> Q (c # cs)"
  shows "calls_since h0 Q t"
  by (rule calls_since_logs [OF reading_all(1) [OF assms(1)] assms(2,3) assms(4)])

lemma triple_calls_since:
  assumes "\<And>h cs. Q cs \<Longrightarrow> R (answer h) (event (answer h) # cs)"
  shows "triple (calls_since h0 Q) (perform answer event) (\<lambda>r. calls_since h0 (R r))"
  by (rule tripleI) (use assms in \<open>auto intro: calls_since_Cons\<close>)

text \<open>
  A log in which every call is justified by the calls before it; reading needs no justification
  when \<open>J\<close> asks for none.
\<close>

fun justified :: "(call \<Rightarrow> call list \<Rightarrow> bool) \<Rightarrow> call list \<Rightarrow> bool" where
  "justified J [] = True"
| "justified J (c # cs) = (J c cs \<and> justified J cs)"

lemma justified_reading:
  assumes "state_io_rel reading m" and "\<And>c cs. \<not> is_write c \<Longrightarrow> J c cs"
  shows "triple (calls_since h0 (justified J)) m (\<lambda>_. calls_since h0 (justified J))"
  by (rule tripleI, erule calls_since_reading [OF assms(1), rotated]) (auto simp: assms(2))

section \<open>The client-go helpers\<close>

text \<open>
  \<^verbatim>\<open>retry.OnError(backoff, retriable, fn)\<close> runs \<open>fn\<close> until it succeeds or fails with an error
  that is not retriable, and may give up after a retriable one; between two runs it waits.
  \<^verbatim>\<open>wait.PollUntilContextCancel\<close> runs its condition until it reports done or fails, and may
  stop with the context's error at any time; the condition's captured variable \<open>acc\<close> (the
  accepted evictions) is threaded through.
\<close>

definition wait_tick :: "sys \<Rightarrow> sys" where
  "wait_tick s = s\<lparr>hist := CWait # hist s\<rparr>"

inductive retry_runs :: "(error \<Rightarrow> bool) \<Rightarrow> error option io \<Rightarrow> sys \<Rightarrow> error option \<Rightarrow> sys \<Rightarrow> bool"
  for retriable fn where
  retry_ok: "run_state fn s = (None, t) \<Longrightarrow> retry_runs retriable fn s None t"
| retry_fatal: "run_state fn s = (Some e, t) \<Longrightarrow> \<not> retriable e \<Longrightarrow> retry_runs retriable fn s (Some e) t"
| retry_give_up: "run_state fn s = (Some e, t) \<Longrightarrow> retriable e \<Longrightarrow> retry_runs retriable fn s (Some e) t"
| retry_again: "run_state fn s = (Some e, s') \<Longrightarrow> retriable e \<Longrightarrow>
    retry_runs retriable fn (wait_tick s') r t \<Longrightarrow> retry_runs retriable fn s r t"

inductive poll_runs ::
  "(string list \<Rightarrow> ((error + bool) \<times> string list) io) \<Rightarrow> string list \<Rightarrow> sys \<Rightarrow> error option \<Rightarrow> sys \<Rightarrow> bool"
  for cond where
  poll_done: "run_state (cond acc) s = ((Inr True, acc'), t) \<Longrightarrow> poll_runs cond acc s None t"
| poll_fail: "run_state (cond acc) s = ((Inl e, acc'), t) \<Longrightarrow> poll_runs cond acc s (Some e) t"
| poll_cancel: "poll_runs cond acc s (Some e) s"
| poll_again: "run_state (cond acc) s = ((Inr False, acc'), s') \<Longrightarrow>
    poll_runs cond acc' (wait_tick s') r t \<Longrightarrow> poll_runs cond acc s r t"

definition client_go :: "env \<Rightarrow> bool" where
  "client_go E \<longleftrightarrow>
     (\<forall>retriable fn s r t. run_state (env_OnError E retriable fn) s = (r, t) \<longrightarrow> retry_runs retriable fn s r t) \<and>
     (\<forall>cond acc s r t. run_state (env_Poll E cond acc) s = (r, t) \<longrightarrow> poll_runs cond acc s r t)"

lemma retry_runs_frame:
  assumes "retry_runs retriable fn s r t" and "frame_rel R" and "state_io_rel R fn" and "\<And>s. R s (wait_tick s)"
  shows "R s t"
  using assms(1)
proof induction
  case (retry_again s e s' r t)
  then show ?case using assms state_io_rel_run [OF assms(3)] by (meson frame_rel.R_trans)
qed (use assms(3) in \<open>auto dest: state_io_rel_run\<close>)

lemma poll_runs_frame:
  assumes "poll_runs cond acc s r t" and "frame_rel R" and "\<And>a. state_io_rel R (cond a)" and "\<And>s. R s (wait_tick s)"
  shows "R s t"
  using assms(1)
proof induction
  case (poll_again acc s acc' s' r t)
  then show ?case using assms state_io_rel_run [OF assms(3)] by (meson frame_rel.R_trans)
next
  case (poll_cancel acc s e)
  show ?case using assms(2) by (rule frame_rel.R_refl)
qed (use assms(3) in \<open>auto dest: state_io_rel_run\<close>)

lemma client_go_retry:
  "client_go E \<Longrightarrow> run_state (env_OnError E retriable fn) s = (r, t) \<Longrightarrow> retry_runs retriable fn s r t"
  by (simp add: client_go_def)

lemma client_go_poll:
  "client_go E \<Longrightarrow> run_state (env_Poll E cond acc) s = (r, t) \<Longrightarrow> poll_runs cond acc s r t"
  by (simp add: client_go_def)

lemma retry_frame:
  assumes "client_go E" and "frame_rel R" and "\<And>s. R s (wait_tick s)" and "state_io_rel R fn"
  shows "state_io_rel R (env_OnError E retriable fn)"
proof (rule state_io_relI)
  fix r s t assume "run_state (env_OnError E retriable fn) s = (r, t)"
  then show "R s t" using assms by (blast intro: retry_runs_frame client_go_retry)
qed

lemma poll_frame:
  assumes "client_go E" and "frame_rel R" and "\<And>s. R s (wait_tick s)" and "\<And>a. state_io_rel R (cond a)"
  shows "state_io_rel R (env_Poll E cond acc)"
proof (rule state_io_relI)
  fix r s t assume "run_state (env_Poll E cond acc) s = (r, t)"
  from client_go_poll [OF assms(1) this] show "R s t"
    by (rule poll_runs_frame [OF _ assms(2,4,3)])
qed

lemma logs_wait_tick: "P CWait \<Longrightarrow> logs P s (wait_tick s)"
  by (auto simp: logs_def wait_tick_def intro: exI [where x = "[CWait]"])

lemma wait_tick_simps [simp]:
  "hist (wait_tick s) = CWait # hist s"
  "tracker (wait_tick s) = tracker s"
  "counters (wait_tick s) = counters s"
  by (simp_all add: wait_tick_def)

lemma helper_frames [frame_intro]:
  "client_go E \<Longrightarrow> P CWait \<Longrightarrow> state_io_rel (logs P) fn \<Longrightarrow> state_io_rel (logs P) (env_OnError E retriable fn)"
  "client_go E \<Longrightarrow> state_io_rel same_tracker fn \<Longrightarrow> state_io_rel same_tracker (env_OnError E retriable fn)"
  "client_go E \<Longrightarrow> state_io_rel clock_le fn \<Longrightarrow> state_io_rel clock_le (env_OnError E retriable fn)"
  "client_go E \<Longrightarrow> P CWait \<Longrightarrow> (\<And>a. state_io_rel (logs P) (cond a)) \<Longrightarrow> state_io_rel (logs P) (env_Poll E cond acc)"
  "client_go E \<Longrightarrow> (\<And>a. state_io_rel same_tracker (cond a)) \<Longrightarrow> state_io_rel same_tracker (env_Poll E cond acc)"
  "client_go E \<Longrightarrow> (\<And>a. state_io_rel clock_le (cond a)) \<Longrightarrow> state_io_rel clock_le (env_Poll E cond acc)"
  by (auto intro!: retry_frame poll_frame logs.frame_rel_axioms tracker.frame_rel_axioms
      clock.frame_rel_axioms logs_wait_tick simp: same_tracker_def clock_le_def)

text \<open>
  The Hoare rules: a retried body that keeps \<open>I\<close> when it fails and reaches \<open>Q\<close> when it
  succeeds; a polled condition that keeps \<open>I\<close> between polls and reaches \<open>Q\<close> when it is done.
\<close>

lemma retry_triple:
  assumes "client_go E"
    and body: "triple I fn (\<lambda>r s. if r = None then Q s else I s)"
    and wait: "\<And>s. I s \<Longrightarrow> I (wait_tick s)"
  shows "triple I (env_OnError E retriable fn) (\<lambda>r s. if r = None then Q s else I s)"
proof (rule tripleI)
  fix s r t
  assume I: "I s" and run: "run_state (env_OnError E retriable fn) s = (r, t)"
  have "retry_runs retriable fn s r t" using run by (rule client_go_retry [OF assms(1)])
  then show "if r = None then Q t else I t" using I
  proof induction
    case (retry_again s e s' r t)
    then have "I s'" using tripleD [OF body retry_again(1)] by simp
    then show ?case using wait retry_again.IH by simp
  qed (use tripleD [OF body] in fastforce)+
qed

lemma poll_triple:
  assumes "client_go E"
    and body: "\<And>acc. triple (I acc) (cond acc)
       (\<lambda>(r, acc') s. case r of Inl e \<Rightarrow> J s | Inr done \<Rightarrow> if done then Q s else I acc' s)"
    and wait: "\<And>acc s. I acc s \<Longrightarrow> I acc (wait_tick s)"
    and cancel: "\<And>acc s. I acc s \<Longrightarrow> J s"
  shows "triple (I acc) (env_Poll E cond acc) (\<lambda>r s. if r = None then Q s else J s)"
proof (rule tripleI)
  fix s r t
  assume I: "I acc s" and run: "run_state (env_Poll E cond acc) s = (r, t)"
  have "poll_runs cond acc s r t" using run by (rule client_go_poll [OF assms(1)])
  then show "if r = None then Q t else J t" using I
  proof induction
    case (poll_again acc s acc' s' r t)
    then have "I acc' s'" using tripleD [OF body poll_again(1)] by simp
    then show ?case using wait poll_again.IH by simp
  next
    case (poll_cancel acc s e)
    then show ?case using cancel by simp
  next
    case (poll_done acc s acc' t)
    then show ?case using tripleD [OF body poll_done(1)] by simp
  next
    case (poll_fail acc s e acc' t)
    then show ?case using tripleD [OF body poll_fail(1)] by simp
  qed
qed

end
