(* ===== verification/Time_Format.thy ===== *)
theory Time_Format
  imports Go_Base
begin

text \<open>
  The part of Go's \<^verbatim>\<open>time\<close> package the annotations rest on: the proleptic Gregorian calendar,
  \<^verbatim>\<open>Time.Format(time.RFC3339)\<close> in UTC, and \<^verbatim>\<open>time.Parse\<close> for the two layouts the code uses
  (RFC 3339 and its form with a literal \<^verbatim>\<open>Z\<close>). The main fact is the round trip: a
  formatted instant is parsed back as the same second.
\<close>

section \<open>The calendar\<close>

definition is_leap :: "int \<Rightarrow> bool" where
  "is_leap y = (y mod 4 = 0 \<and> (y mod 100 \<noteq> 0 \<or> y mod 400 = 0))"

definition days_in :: "int \<Rightarrow> int \<Rightarrow> int" where
  "days_in y m = (if m = 2 then if is_leap y then 29 else 28
                  else if m \<in> {4, 6, 9, 11} then 30 else 31)"

text \<open>
  Days from 0000-01-01 to the first day of year \<open>y\<close>, and of month \<open>m\<close> within it; \<open>cdiv k y\<close>
  is the number of multiples of \<open>k\<close> among the years before \<open>y\<close>.
\<close>

definition cdiv :: "int \<Rightarrow> int \<Rightarrow> int" where
  "cdiv k y = (y + (k - 1)) div k"

definition days_before_year :: "int \<Rightarrow> int" where
  "days_before_year y = 365 * y + cdiv 4 y - cdiv 100 y + cdiv 400 y"

definition days_before_month :: "int \<Rightarrow> int \<Rightarrow> int" where
  "days_before_month y m = sum_list (map (days_in y) [1..m - 1])"

definition unix_epoch_day :: int where "unix_epoch_day = 719528"

function year_from :: "int \<Rightarrow> int \<Rightarrow> int" where
  "year_from y d = (if days_before_year (y + 1) \<le> d \<and> y < d then year_from (y + 1) d else y)"
  by pat_completeness auto
termination
  by (relation "measure (\<lambda>(y, d). nat (d - y))") auto

declare year_from.simps [simp del]

text \<open>No year is longer than 366 days, so counting up from \<open>d div 366\<close> reaches the year of day \<open>d\<close>.\<close>

definition year_of :: "int \<Rightarrow> int" where "year_of d = year_from (d div 366) d"

fun month_from :: "nat \<Rightarrow> int \<Rightarrow> int \<Rightarrow> int \<Rightarrow> int \<times> int" where
  "month_from 0 y m d = (m, d)"
| "month_from (Suc k) y m d =
     (if d < days_in y m then (m, d) else month_from k y (m + 1) (d - days_in y m))"

text \<open>The date of a day number: year, month and day of the month.\<close>

definition civil :: "int \<Rightarrow> int \<times> int \<times> int" where
  "civil d = (let y = year_of d; (m, r) = month_from 11 y 1 (d - days_before_year y) in (y, m, r + 1))"

definition day_number :: "int \<Rightarrow> int \<Rightarrow> int \<Rightarrow> int" where
  "day_number y m d = days_before_year y + days_before_month y m + (d - 1)"

definition go_Date :: "int \<Rightarrow> int \<Rightarrow> int \<Rightarrow> int \<Rightarrow> int \<Rightarrow> int \<Rightarrow> int \<Rightarrow> time" where
  "go_Date y mo d h mi s ns =
     ((day_number y mo d - unix_epoch_day) * 86400 + (h * 3600 + mi * 60 + s)) * Second + ns"

section \<open>Formatting\<close>

definition digit_char :: "int \<Rightarrow> char" where "digit_char k = char_of (48 + k)"

definition two_digits :: "int \<Rightarrow> string" where
  "two_digits n = [digit_char (n div 10 mod 10), digit_char (n mod 10)]"

definition year_digits :: "int \<Rightarrow> string" where
  "year_digits y = (if y < 10000
     then [digit_char (y div 1000), digit_char (y div 100 mod 10), digit_char (y div 10 mod 10), digit_char (y mod 10)]
     else show_pos y)"

text \<open>For instants from 1970 on, which is when the clock of the model starts.\<close>

definition Format_RFC3339 :: "time \<Rightarrow> string" where
  "Format_RFC3339 t =
     (let secs = t div Second;
          (y, mo, d) = civil (unix_epoch_day + secs div 86400);
          r = secs mod 86400
      in year_digits y @ ''-'' @ two_digits mo @ ''-'' @ two_digits d @ ''T'' @
         two_digits (r div 3600) @ '':'' @ two_digits (r div 60 mod 60) @ '':'' @ two_digits (r mod 60) @ ''Z'')"

section \<open>Parsing\<close>

definition is_digit :: "char \<Rightarrow> bool" where
  "is_digit c = (48 \<le> (of_char c :: int) \<and> (of_char c :: int) \<le> 57)"

definition digit_val :: "char \<Rightarrow> int" where "digit_val c = of_char c - 48"

definition digits_val :: "string \<Rightarrow> int" where
  "digits_val ds = foldl (\<lambda>n c. 10 * n + digit_val c) 0 ds"

text \<open>\<^verbatim>\<open>getnum\<close>: one or two digits, exactly two when \<open>fixed\<close>.\<close>

fun getnum :: "bool \<Rightarrow> string \<Rightarrow> (int \<times> string) option" where
  "getnum fixed [] = None"
| "getnum fixed [c] = (if is_digit c \<and> \<not> fixed then Some (digit_val c, []) else None)"
| "getnum fixed (c # c' # s) =
     (if \<not> is_digit c then None
      else if is_digit c' then Some (10 * digit_val c + digit_val c', s)
      else if fixed then None else Some (digit_val c, c' # s))"

definition get_year :: "string \<Rightarrow> (int \<times> string) option" where
  "get_year s = (if 4 \<le> length s \<and> list_all is_digit (take 4 s)
                 then Some (digits_val (take 4 s), drop 4 s) else None)"

fun expect :: "char \<Rightarrow> string \<Rightarrow> string option" where
  "expect c [] = None"
| "expect c (c' # s) = (if c = c' then Some s else None)"

text \<open>After the seconds a fraction may follow even though the layout has none.\<close>

fun get_fraction :: "string \<Rightarrow> int \<times> string" where
  "get_fraction (p # c # s) =
     (if (p = CHR ''.'' \<or> p = CHR '','') \<and> is_digit c
      then let ds = takeWhile is_digit (c # s); ns = take 9 ds
           in (digits_val ns * 10 ^ (9 - length ns), dropWhile is_digit (c # s))
      else (0, p # c # s))"
| "get_fraction s = (0, s)"

definition in_range :: "int \<Rightarrow> int \<Rightarrow> int \<Rightarrow> unit option" where
  "in_range lo hi n = (if lo \<le> n \<and> n \<le> hi then Some () else None)"

text \<open>The common part of both layouts: date, \<^verbatim>\<open>T\<close>, time of day, optional fraction.\<close>

definition parse_datetime :: "string \<Rightarrow> (time \<times> string) option" where
  "parse_datetime s = do {
     (y, s) \<leftarrow> get_year s;
     s \<leftarrow> expect (CHR ''-'') s;
     (mo, s) \<leftarrow> getnum True s;
     _ \<leftarrow> in_range 1 12 mo;
     s \<leftarrow> expect (CHR ''-'') s;
     (d, s) \<leftarrow> getnum True s;
     _ \<leftarrow> in_range 1 (days_in y mo) d;
     s \<leftarrow> expect (CHR ''T'') s;
     (h, s) \<leftarrow> getnum False s;
     _ \<leftarrow> in_range 0 23 h;
     s \<leftarrow> expect (CHR '':'') s;
     (mi, s) \<leftarrow> getnum True s;
     _ \<leftarrow> in_range 0 59 mi;
     s \<leftarrow> expect (CHR '':'') s;
     (sec, s) \<leftarrow> getnum True s;
     _ \<leftarrow> in_range 0 59 sec;
     (let (ns, s) = get_fraction s in Some (go_Date y mo d h mi sec ns, s))
   }"

text \<open>The zone of RFC 3339: \<^verbatim>\<open>Z\<close> or a signed offset, in seconds east of UTC.\<close>

definition parse_zone :: "string \<Rightarrow> (int \<times> string) option" where
  "parse_zone s =
    (case s of
       [] \<Rightarrow> None
     | c # s' \<Rightarrow>
         if c = CHR ''Z'' then Some (0, s')
         else if length s < 6 \<or> s ! 3 \<noteq> CHR '':'' then None
         else do {
           (hr, _) \<leftarrow> getnum True (take 2 s');
           (mm, _) \<leftarrow> getnum True (take 2 (drop 4 s));
           _ \<leftarrow> in_range 0 24 hr;
           _ \<leftarrow> in_range 0 60 mm;
           (let off = (hr * 60 + mm) * 60 in
            if c = CHR ''+'' then Some (off, drop 6 s)
            else if c = CHR ''-'' then Some (- off, drop 6 s) else None)
         })"

definition Parse_RFC3339 :: "string \<Rightarrow> time option" where
  "Parse_RFC3339 s = do {
     (t, s) \<leftarrow> parse_datetime s;
     (off, s) \<leftarrow> parse_zone s;
     (if s = [] then Some (t - off * Second) else None)
   }"

text \<open>The layout \<^verbatim>\<open>"2006-01-02T15:04:05Z"\<close>, whose \<^verbatim>\<open>Z\<close> is a literal.\<close>

definition Parse_literal_Z :: "string \<Rightarrow> time option" where
  "Parse_literal_Z s = do {
     (t, s) \<leftarrow> parse_datetime s;
     (if s = ''Z'' then Some t else None)
   }"

text \<open>Whatever the second layout accepts, the first accepts with the same instant.\<close>

lemma literal_Z_subsumed: "Parse_literal_Z s = Some t \<Longrightarrow> Parse_RFC3339 s = Some t"
  by (auto simp: Parse_literal_Z_def Parse_RFC3339_def parse_zone_def split: bind_splits if_splits)

section \<open>The calendar is a bijection\<close>

lemma div_mod_facts:
  fixes a k :: int
  assumes "0 < k"
  shows "k * (a div k) + a mod k = a" and "0 \<le> a mod k" and "a mod k < k"
  using assms by simp_all

lemma cdiv_Suc:
  assumes "0 < k"
  shows "cdiv k (y + 1) = cdiv k y + (if y mod k = 0 then 1 else 0)"
proof (cases "y mod k = 0")
  case True
  then have "y + (k - 1) = k * (y div k) + (k - 1)" using div_mod_facts(1) [OF assms, of y] by simp
  then have "(y + (k - 1)) div k = y div k" by (rule int_div_pos_eq) (use assms in auto)
  then show ?thesis using True assms by (simp add: cdiv_def)
next
  case False
  then have "y + (k - 1) = k * (y div k + 1) + (y mod k - 1)"
    using div_mod_facts(1) [OF assms, of y] by (simp add: algebra_simps)
  moreover have "0 \<le> y mod k - 1" and "y mod k - 1 < k"
    using False div_mod_facts(2,3) [OF assms, of y] by auto
  ultimately have "(y + (k - 1)) div k = y div k + 1" by (rule int_div_pos_eq)
  then show ?thesis using False assms by (simp add: cdiv_def)
qed

lemma cdiv_bounds:
  assumes "0 < k"
  shows "y \<le> k * cdiv k y" and "k * cdiv k y \<le> y + (k - 1)"
  using div_mod_facts [OF assms, of "y + (k - 1)"] unfolding cdiv_def by linarith+

lemma mod_multiple: "(y::int) mod k = 0 \<Longrightarrow> j dvd k \<Longrightarrow> y mod j = 0"
  by (meson dvd_imp_mod_0 dvd_trans mod_0_imp_dvd)

lemma year_step:
  fixes y c4 c100 c400 :: int
  assumes "c4' = c4 + (if P4 then 1 else 0)" and "c100' = c100 + (if P100 then 1 else 0)"
    and "c400' = c400 + (if P400 then 1 else 0)" and "P400 \<Longrightarrow> P100" and "P100 \<Longrightarrow> P4"
  shows "365 * (y + 1) + c4' - c100' + c400' =
    365 * y + c4 - c100 + c400 + (if P4 \<and> (\<not> P100 \<or> P400) then 366 else 365)"
  using assms(4,5) unfolding assms(1-3) by (cases P4; cases P100; cases P400; simp)

lemma days_before_year_Suc:
  "days_before_year (y + 1) = days_before_year y + (if is_leap y then 366 else 365)"
  unfolding days_before_year_def is_leap_def
  by (rule year_step [OF cdiv_Suc cdiv_Suc cdiv_Suc]) (auto elim: mod_multiple)

lemma leap_days_bounds:
  fixes y a b c :: int
  assumes "0 \<le> y" and "y \<le> 4 * a" "4 * a \<le> y + (4 - 1)"
    and "y \<le> 100 * b" "100 * b \<le> y + (100 - 1)" and "y \<le> 400 * c" "400 * c \<le> y + (400 - 1)"
  shows "365 * y \<le> 365 * y + a - b + c" and "365 * y + a - b + c \<le> 366 * y"
proof -
  have "b \<le> a" "c \<le> b" "a \<le> y" "0 \<le> c" using assms by linarith+
  then show "365 * y \<le> 365 * y + a - b + c" and "365 * y + a - b + c \<le> 366 * y" by linarith+
qed

lemmas cdiv_numeral_bounds = cdiv_bounds(1) [OF zero_less_numeral] cdiv_bounds(2) [OF zero_less_numeral]

lemma days_before_year_bounds:
  assumes "0 \<le> y"
  shows "365 * y \<le> days_before_year y" and "days_before_year y \<le> 366 * y"
  unfolding days_before_year_def
  by (rule leap_days_bounds(1) [OF assms] leap_days_bounds(2) [OF assms]; rule cdiv_numeral_bounds)+

lemma days_before_year_mono:
  assumes "y \<le> y'"
  shows "days_before_year y \<le> days_before_year y'"
  using assms by (induction y' rule: int_ge_induct) (auto simp: days_before_year_Suc)

lemma year_from_bracket:
  assumes "0 \<le> y" and "days_before_year y \<le> d"
  shows "0 \<le> year_from y d \<and> days_before_year (year_from y d) \<le> d \<and> d < days_before_year (year_from y d + 1)"
  using assms
proof (induction y d rule: year_from.induct)
  case (1 y d)
  show ?case
  proof (cases "days_before_year (y + 1) \<le> d")
    case True
    then have "y < d" using days_before_year_bounds(1) [of "y + 1"] "1.prems" by simp
    then show ?thesis using True 1 by (simp add: year_from.simps [of y d])
  next
    case False
    then show ?thesis using "1.prems" by (simp add: year_from.simps [of y d])
  qed
qed

lemma year_of_bracket:
  assumes "0 \<le> d"
  shows "0 \<le> year_of d \<and> days_before_year (year_of d) \<le> d \<and> d < days_before_year (year_of d + 1)"
proof -
  have "0 \<le> d div 366" and "366 * (d div 366) \<le> d"
    using assms div_mod_facts [of 366 d] by (simp, linarith)
  then show ?thesis using days_before_year_bounds(2) [of "d div 366"]
    unfolding year_of_def by (intro year_from_bracket) simp_all
qed

lemma days_before_month_Suc:
  "1 \<le> m \<Longrightarrow> days_before_month y (m + 1) = days_before_month y m + days_in y m"
  by (simp add: days_before_month_def upto_rec2)

lemma month_from_bracket:
  assumes "1 \<le> m" and "0 \<le> d" and "month_from k y m d = (m', r)"
  shows "m \<le> m' \<and> m' \<le> m + int k \<and> 0 \<le> r \<and>
    days_before_month y m' + r = days_before_month y m + d \<and> (m' < m + int k \<longrightarrow> r < days_in y m')"
  using assms
proof (induction k arbitrary: m d)
  case 0
  then show ?case by simp
next
  case (Suc k)
  show ?case
  proof (cases "d < days_in y m")
    case True
    then show ?thesis using Suc.prems by simp
  next
    case False
    then show ?thesis using Suc.IH [of "m + 1" "d - days_in y m"] Suc.prems
      by (auto simp: days_before_month_Suc)
  qed
qed

lemma year_length: "days_before_month y 12 + days_in y 12 = (if is_leap y then 366 else 365)"
  by (simp add: days_before_month_def days_in_def upto_rec1)

theorem civil_bijection:
  assumes "0 \<le> n" and "civil n = (y, m, d)"
  shows "day_number y m d = n \<and> 0 \<le> y \<and> 1 \<le> m \<and> m \<le> 12 \<and> 1 \<le> d \<and> d \<le> days_in y m"
proof -
  define k where "k = n - days_before_year (year_of n)"
  obtain r where mr: "month_from 11 y 1 k = (m, r)" and y: "y = year_of n" and d: "d = r + 1"
    using assms(2) by (auto simp: civil_def Let_def k_def split: prod.splits)
  have k: "0 \<le> k" "k < (if is_leap y then 366 else 365)" "0 \<le> y"
    using year_of_bracket [OF assms(1)] by (auto simp: k_def y days_before_year_Suc split: if_splits)
  have *: "1 \<le> m \<and> m \<le> 12 \<and> 0 \<le> r \<and> days_before_month y m + r = days_before_month y 1 + k \<and>
      (m < 12 \<longrightarrow> r < days_in y m)"
    using month_from_bracket [OF _ k(1) mr] by simp
  have "days_before_month y 1 = 0" by (simp add: days_before_month_def)
  moreover have "r < days_in y m"
    using * k year_length [of y] calculation by (cases "m = 12") auto
  ultimately show ?thesis using * k by (auto simp: day_number_def k_def y d)
qed

section \<open>The round trip\<close>

lemma digit_char_props:
  assumes "0 \<le> k" and "k \<le> 9"
  shows "is_digit (digit_char k)" and "digit_val (digit_char k) = k"
  using assms by (simp_all add: is_digit_def digit_val_def digit_char_def of_char_of)

lemma getnum_two_digits:
  assumes "0 \<le> n" and "n < 100"
  shows "getnum fixed (two_digits n @ s) = Some (n, s)"
  using assms by (simp add: two_digits_def digit_char_props)

lemma decimal_digits:
  fixes y a b c p q r :: int
  assumes "10 * a + p = y" and "10 * b + q = a" and "10 * c + r = b"
  shows "1000 * c + 100 * r + 10 * q + p = y"
  using assms by linarith

lemma clock_digits:
  fixes r a b p q :: int
  assumes "60 * a + p = r" and "60 * b + q = a"
  shows "b * 3600 + q * 60 + p = r"
  using assms by linarith

lemma get_year_digits:
  assumes "0 \<le> y" and "y < 10000"
  shows "get_year (year_digits y @ s) = Some (y, s)"
proof -
  define a b c where "a = y div 10" and "b = y div 100" and "c = y div 1000"
  have ab: "b = a div 10" and bc: "c = b div 10"
    by (simp_all add: a_def b_def c_def zdiv_zmult2_eq [symmetric])
  have "10 * a + y mod 10 = y" and "10 * b + a mod 10 = a" and "10 * c + b mod 10 = b"
    unfolding ab bc by (simp_all add: a_def)
  then have sum: "1000 * c + 100 * (b mod 10) + 10 * (a mod 10) + y mod 10 = y"
    by (rule decimal_digits)
  have c: "0 \<le> c" "c \<le> 9" using assms zdiv_mono1 [of y 9999 1000] by (simp_all add: c_def)
  have d: "is_digit (digit_char (n mod 10))" "digit_val (digit_char (n mod 10)) = n mod 10" for n
    using div_mod_facts(2,3) [of 10 n] by (auto intro!: digit_char_props)
  have "10 * (10 * (10 * c + b mod 10) + a mod 10) + y mod 10 = y" using sum by (simp add: distrib_left)
  then show ?thesis using assms(2) c d
    by (simp add: get_year_def year_digits_def digits_val_def digit_char_props flip: a_def b_def c_def)
qed

theorem Format_Parse:
  assumes "0 \<le> t" and "t < 253402300800 * Second"
  shows "Parse_RFC3339 (Format_RFC3339 t) = Some (t div Second * Second)"
proof -
  define secs D r where "secs = t div Second" and "D = secs div 86400" and "r = secs mod 86400"
  define h mi s where "h = r div 3600" and "mi = r div 60 mod 60" and "s = r mod 60"
  have secs: "0 \<le> secs" "secs < 253402300800" using assms by (auto simp: secs_def Second_def)
  then have D: "0 \<le> D" "D < 2932897" by (auto simp: D_def)
  obtain y mo d where c: "civil (unix_epoch_day + D) = (y, mo, d)"
    by (cases "civil (unix_epoch_day + D)") auto
  have b: "day_number y mo d = unix_epoch_day + D \<and> 0 \<le> y \<and> 1 \<le> mo \<and> mo \<le> 12 \<and> 1 \<le> d \<and> d \<le> days_in y mo"
    using civil_bijection [OF _ c] D by (simp add: unix_epoch_day_def)
  have "days_before_year y \<le> unix_epoch_day + D"
    using year_of_bracket [of "unix_epoch_day + D"] D c
    by (simp add: civil_def Let_def unix_epoch_day_def split: prod.splits)
  moreover have "days_before_year 10000 = 3652425" by (simp add: days_before_year_def cdiv_def)
  ultimately have y: "y < 10000"
    using days_before_year_mono [of 10000 y] D unfolding unix_epoch_day_def by linarith
  have d: "d < 100" using b by (auto simp: days_in_def split: if_splits)
  have r: "0 \<le> r" "r < 86400" by (simp_all add: r_def)
  have hms: "0 \<le> h" "h \<le> 23" "0 \<le> mi" "mi \<le> 59" "0 \<le> s" "s \<le> 59"
    using r zdiv_mono1 [of r 86399 3600] div_mod_facts [of 60 r] div_mod_facts [of 60 "r div 60"]
    by (simp_all add: h_def mi_def s_def pos_imp_zdiv_nonneg_iff)
  have "r div 3600 = r div 60 div 60" by (simp add: zdiv_zmult2_eq [symmetric])
  then have sum: "h * 3600 + mi * 60 + s = r"
    using clock_digits [OF mult_div_mod_eq [of 60 r] mult_div_mod_eq [of 60 "r div 60"]]
    by (simp add: h_def mi_def s_def)
  have "Parse_RFC3339 (Format_RFC3339 t) = Some (go_Date y mo d h mi s 0)"
    using b y d hms c
    by (simp add: Parse_RFC3339_def Format_RFC3339_def Let_def parse_datetime_def parse_zone_def
        get_year_digits getnum_two_digits in_range_def
        flip: secs_def r_def D_def h_def mi_def s_def)
  also have "go_Date y mo d h mi s 0 = secs * Second"
    using b sum div_mod_facts(1) [of 86400 secs] unfolding go_Date_def D_def r_def by simp
  finally show ?thesis by (simp add: secs_def)
qed

end
