(* ===== verification/Config_Model.thy ===== *)
theory Config_Model
  imports Go_Base
begin

text \<open>
  The configuration of \<^verbatim>\<open>pkg/config/config.go\<close> after YAML decoding: the structs as records,
  with durations in nanoseconds, thresholds as the reals the \<^verbatim>\<open>float64\<close> fields hold, and the
  iterated label maps as lists of key/value pairs; and the defaulting and validation step.
\<close>

section \<open>The structs\<close>

record node_label_config =
  nl_Managed :: string
  nl_Disabled :: string

record node_annotation_config =
  na_MAC :: string

record rotation_config =
  rot_Enabled :: bool
  rot_MaxPoweredOffDuration :: duration
  rot_ExemptLabel :: string

record load_average_config =
  la_Enabled :: bool
  la_NodeThreshold :: real
  la_ScaleDownThreshold :: real
  la_ScaleUpThreshold :: real
  la_PodLabel :: string
  la_Namespace :: string
  la_Port :: int
  la_TimeoutSeconds :: int
  la_ClusterEval :: string
  la_ExcludeFromAggregateLabels :: "(string \<times> string) list"

record shutdown_manager_config =
  sm_Port :: int
  sm_Namespace :: string
  sm_PodLabel :: string

record wol_agent_config =
  wa_Enabled :: bool
  wa_Port :: int
  wa_Namespace :: string
  wa_PodLabel :: string

record config =
  LogLevel :: string
  MinNodes :: int
  Cooldown :: duration
  BootCooldown :: duration
  DrainTimeout :: duration
  PollInterval :: duration
  IgnoreLabels :: "(string \<times> string) list"
  NodeLabels :: node_label_config
  NodeAnnotations :: node_annotation_config
  ResourceBufferCPUPerc :: int64
  ResourceBufferMemoryPerc :: int64
  DryRun :: bool
  BootstrapCooldownSeconds :: int
  LoadAverageStrategy :: load_average_config
  ShutdownManager :: shutdown_manager_config
  ShutdownMode :: string
  PowerOnMode :: string
  WOLBroadcastAddr :: string
  WOLBootTimeoutSec :: int
  WolAgent :: wol_agent_config
  MACDiscoveryInterval :: duration
  ForcePowerOnAllNodes :: bool
  Rotation :: rotation_config

section \<open>Defaults and validation\<close>

datatype config_error = MacIntervalTooShort duration | DrainTimeoutNotPositive

text \<open>
  \<^verbatim>\<open>ApplyDefaultsAndValidate\<close> updates the struct in place, also when it then returns an error;
  the model returns the error, if any, with the struct as it is left.
\<close>

definition ApplyDefaultsAndValidate :: "config \<Rightarrow> config_error option \<times> config" where
  "ApplyDefaultsAndValidate cfg0 =
    (let cfg = (if MACDiscoveryInterval cfg0 = 0
                then cfg0\<lparr>MACDiscoveryInterval := 30 * Minute\<rparr> else cfg0)
     in if MACDiscoveryInterval cfg < 10 * Second
        then (Some (MacIntervalTooShort (MACDiscoveryInterval cfg)), cfg)
        else
          let cfg = (if DrainTimeout cfg = 0 then cfg\<lparr>DrainTimeout := 15 * Minute\<rparr> else cfg)
          in if DrainTimeout cfg < 0 then (Some DrainTimeoutNotPositive, cfg)
             else (None, cfg))"

text \<open>
  \<^verbatim>\<open>Load\<close> reads the file, decodes it and validates. Reading and YAML decoding are the library's:
  \<open>decoded\<close> is what they gave.
\<close>

definition Load :: "string + config \<Rightarrow> (string + config_error) + config" where
  "Load decoded =
    (case decoded of
       Inl err \<Rightarrow> Inl (Inl err)
     | Inr cfg \<Rightarrow>
         (case ApplyDefaultsAndValidate cfg of
            (Some err, _) \<Rightarrow> Inl (Inr err)
          | (None, cfg') \<Rightarrow> Inr cfg'))"

text \<open>A loaded configuration has the two durations the rest of the program relies on.\<close>

definition valid_config :: "config \<Rightarrow> bool" where
  "valid_config cfg \<longleftrightarrow> 10 * Second \<le> MACDiscoveryInterval cfg \<and> 0 < DrainTimeout cfg"

lemma duration_consts: "0 < Second" "0 < Minute" "10 * Second \<le> 30 * Minute"
  by (simp_all add: Second_def Minute_def)

lemma validate_accepts: "ApplyDefaultsAndValidate cfg = (None, cfg') \<Longrightarrow> valid_config cfg'"
  by (auto simp: ApplyDefaultsAndValidate_def valid_config_def Let_def duration_consts
      split: if_splits)

lemma validate_fixpoint: "valid_config cfg \<Longrightarrow> ApplyDefaultsAndValidate cfg = (None, cfg)"
  using duration_consts by (auto simp: ApplyDefaultsAndValidate_def valid_config_def Let_def)

text \<open>Only the two defaulted fields can differ after validation.\<close>

lemma validate_frame:
  "snd (ApplyDefaultsAndValidate cfg) =
     cfg\<lparr>MACDiscoveryInterval := MACDiscoveryInterval (snd (ApplyDefaultsAndValidate cfg)),
         DrainTimeout := DrainTimeout (snd (ApplyDefaultsAndValidate cfg))\<rparr>"
  by (auto simp: ApplyDefaultsAndValidate_def Let_def)

section \<open>Properties\<close>

text \<open>A configuration the properties are applied to.\<close>

definition sample_config :: config where
  "sample_config =
     \<lparr>LogLevel = ''info'', MinNodes = 1, Cooldown = 5 * Minute, BootCooldown = 10 * Minute,
      DrainTimeout = 15 * Minute, PollInterval = 30 * Second, IgnoreLabels = [],
      NodeLabels = \<lparr>nl_Managed = ''managed'', nl_Disabled = ''disabled''\<rparr>,
      NodeAnnotations = \<lparr>na_MAC = []\<rparr>, ResourceBufferCPUPerc = 10, ResourceBufferMemoryPerc = 10,
      DryRun = False, BootstrapCooldownSeconds = 0,
      LoadAverageStrategy = \<lparr>la_Enabled = False, la_NodeThreshold = 1 / 2, la_ScaleDownThreshold = 1 / 2,
        la_ScaleUpThreshold = 3 / 4, la_PodLabel = ''app=metrics'', la_Namespace = ''default'', la_Port = 9100,
        la_TimeoutSeconds = 5, la_ClusterEval = ''p75'', la_ExcludeFromAggregateLabels = []\<rparr>,
      ShutdownManager = \<lparr>sm_Port = 8080, sm_Namespace = ''default'', sm_PodLabel = ''app=poweroff''\<rparr>,
      ShutdownMode = ''http'', PowerOnMode = ''wol'', WOLBroadcastAddr = ''255.255.255.255'',
      WOLBootTimeoutSec = 60,
      WolAgent = \<lparr>wa_Enabled = True, wa_Port = 9101, wa_Namespace = ''default'', wa_PodLabel = ''wol''\<rparr>,
      MACDiscoveryInterval = 30 * Minute, ForcePowerOnAllNodes = False,
      Rotation = \<lparr>rot_Enabled = False, rot_MaxPoweredOffDuration = 0, rot_ExemptLabel = []\<rparr>\<rparr>"

text \<open>C31: a configuration that loads has a MAC discovery interval of at least ten seconds and a positive
  drain timeout; it is the decoded one with at most those two fields replaced by their defaults
  where they were zero, and loading it again changes nothing.\<close>

theorem load_valid:
  assumes "Load decoded = Inr cfg'"
  shows "valid_config cfg' \<and> Load (Inr cfg') = Inr cfg' \<and>
    (\<exists>cfg. decoded = Inr cfg \<and>
       cfg' = cfg\<lparr>MACDiscoveryInterval :=
                  (if MACDiscoveryInterval cfg = 0 then 30 * Minute else MACDiscoveryInterval cfg),
                 DrainTimeout := (if DrainTimeout cfg = 0 then 15 * Minute else DrainTimeout cfg)\<rparr>)"
proof -
  obtain cfg where cfg: "decoded = Inr cfg" "ApplyDefaultsAndValidate cfg = (None, cfg')"
    using assms by (auto simp: Load_def split: sum.splits option.splits prod.splits)
  note valid = validate_accepts [OF cfg(2)]
  have "cfg' = cfg\<lparr>MACDiscoveryInterval :=
                  (if MACDiscoveryInterval cfg = 0 then 30 * Minute else MACDiscoveryInterval cfg),
                 DrainTimeout := (if DrainTimeout cfg = 0 then 15 * Minute else DrainTimeout cfg)\<rparr>"
    using cfg(2) by (auto simp: ApplyDefaultsAndValidate_def Let_def split: if_splits)
  then show ?thesis using valid validate_fixpoint [OF valid] cfg(1) by (simp add: Load_def)
qed

theorem load_valid_witness:
  "\<exists>cfg'. Load (Inr (sample_config\<lparr>DrainTimeout := 0\<rparr>)) = Inr cfg' \<and> valid_config cfg' \<and> DrainTimeout cfg' = 15 * Minute"
proof -
  let ?cfg = "sample_config\<lparr>DrainTimeout := 0\<rparr>"
  obtain cfg' where ok: "Load (Inr ?cfg) = Inr cfg'"
    by (simp add: Load_def ApplyDefaultsAndValidate_def sample_config_def Let_def Second_def Minute_def)
  then show ?thesis using load_valid [OF ok] by auto
qed

end
