(* ===== verification/Node_Ops.thy ===== *)
theory Node_Ops
  imports Effects Time_Format Config_Model
begin

text \<open>
  The node-level queries of \<^verbatim>\<open>pkg/nodeops\<close>: annotations, MAC lookup, the node wrapper, pod
  lookup, and the listing and filtering functions every decision starts from.
\<close>

section \<open>Annotations\<close>

definition AnnotationPoweredOff :: string where "AnnotationPoweredOff = ''cba.dev/was-powered-off''"
definition AnnotationBootedAt :: string where "AnnotationBootedAt = ''cba.dev/booted-at''"
definition AnnotationMACAuto :: string where "AnnotationMACAuto = ''cba.dev/mac-address''"
definition AnnotationMACManual :: string where "AnnotationMACManual = ''cba.dev/mac-address-override''"

lemmas annotation_defs =
  AnnotationPoweredOff_def AnnotationBootedAt_def AnnotationMACAuto_def AnnotationMACManual_def

lemma annotation_distinct [simp]:
  "AnnotationPoweredOff \<noteq> AnnotationBootedAt" "AnnotationBootedAt \<noteq> AnnotationPoweredOff"
  "AnnotationPoweredOff \<noteq> AnnotationMACAuto" "AnnotationMACAuto \<noteq> AnnotationPoweredOff"
  "AnnotationMACAuto \<noteq> AnnotationMACManual" "AnnotationMACManual \<noteq> AnnotationMACAuto"
  "AnnotationBootedAt \<noteq> AnnotationMACAuto" "AnnotationMACAuto \<noteq> AnnotationBootedAt"
  by (simp_all add: annotation_defs)

text \<open>Reading a missing key of a Go map gives the empty string.\<close>

definition map_get :: "(string \<rightharpoonup> string) \<Rightarrow> string \<Rightarrow> string" where
  "map_get m k = (case m k of None \<Rightarrow> '''' | Some v \<Rightarrow> v)"

text \<open>The pair of an instant and \<^verbatim>\<open>true\<close> is \<open>Some\<close>, the zero instant with \<^verbatim>\<open>false\<close> is \<open>None\<close>.\<close>

definition PoweredOffSince :: "node \<Rightarrow> time option" where
  "PoweredOffSince n =
    (case node_Annotations n AnnotationPoweredOff of
       None \<Rightarrow> None
     | Some raw \<Rightarrow>
         if raw = '''' then None
         else case Parse_RFC3339 raw of
                Some t \<Rightarrow> Some t
              | None \<Rightarrow>
                  (case Parse_literal_Z raw of
                     Some t \<Rightarrow> Some t
                   | None \<Rightarrow> Some unix_zero))"

definition GetMACAddressFromNode :: "node \<Rightarrow> node_annotation_config \<Rightarrow> string" where
  "GetMACAddressFromNode n keys =
    (let key = (if na_MAC keys = '''' then AnnotationMACAuto else na_MAC keys)
     in map_get (node_Annotations n) key)"

section \<open>The node wrapper\<close>

text \<open>
  \<^verbatim>\<open>NodeWrapper\<close> holds pointers to a node and to the tracker (\<open>None\<close> is \<^verbatim>\<open>nil\<close>). The code builds
  a wrapper and queries it before anything changes the tracker, so the model keeps the values.
\<close>

record node_wrapper =
  w_Node :: node
  w_State :: "node_state_tracker option"
  w_Now :: time
  w_MACKeys :: node_annotation_config
  w_IgnoreKeys :: "(string \<times> string) list"

definition NewNodeWrapper ::
  "node \<Rightarrow> node_state_tracker option \<Rightarrow> time \<Rightarrow> node_annotation_config \<Rightarrow> (string \<times> string) list \<Rightarrow> node_wrapper" where
  "NewNodeWrapper n st now keys ignore =
     \<lparr>w_Node = n, w_State = st, w_Now = now, w_MACKeys = keys, w_IgnoreKeys = ignore\<rparr>"

abbreviation w_Name :: "node_wrapper \<Rightarrow> string" where
  "w_Name w \<equiv> node_Name (w_Node w)"

text \<open>
  The body of the patch, as \<^verbatim>\<open>fmt.Appendf\<close> builds it: the address an agent sent goes between the
  quotes as it is.
\<close>

definition quoted :: "string \<Rightarrow> string" where
  "quoted s = CHR 0x22 # s @ [CHR 0x22]"

definition mac_patch_body :: "string \<Rightarrow> string" where
  "mac_patch_body mac =
    ''{'' @ quoted ''metadata'' @ '':{'' @ quoted ''annotations'' @ '':{'' @
      quoted AnnotationMACAuto @ '':'' @ quoted mac @ ''}}}''"

definition SetDiscoveredMAC :: "env \<Rightarrow> node_wrapper \<Rightarrow> string \<Rightarrow> bool \<Rightarrow> error option io" where
  "SetDiscoveredMAC E w mac dryRun =
    (if dryRun then ret None
     else PatchRaw E (w_Name w) (mac_patch_body mac))"

definition IsInShutdownCooldown :: "node_wrapper \<Rightarrow> duration \<Rightarrow> bool" where
  "IsInShutdownCooldown w d =
    (case w_State w of None \<Rightarrow> False | Some st \<Rightarrow> IsInCooldown st (w_Name w) (w_Now w) d)"

definition IsInBootCooldown :: "node_wrapper \<Rightarrow> duration \<Rightarrow> bool" where
  "IsInBootCooldown w d =
    (if (case Parse_RFC3339 (map_get (node_Annotations (w_Node w)) AnnotationBootedAt) of
           Some booted \<Rightarrow> time_Sub (w_Now w) booted < d
         | None \<Rightarrow> False)
     then True
     else (case w_State w of None \<Rightarrow> False | Some st \<Rightarrow> IsBootCooldownActive st (w_Name w) (w_Now w) d))"

definition HasDiscoveredMACAddr :: "node_wrapper \<Rightarrow> bool" where
  "HasDiscoveredMACAddr w = (map_get (node_Annotations (w_Node w)) AnnotationMACAuto \<noteq> '''')"

definition HasManualMACOverride :: "node_wrapper \<Rightarrow> bool" where
  "HasManualMACOverride w = (map_get (node_Annotations (w_Node w)) AnnotationMACManual \<noteq> '''')"

definition IsCordoned :: "node_wrapper \<Rightarrow> bool" where
  "IsCordoned w = node_Unschedulable (w_Node w)"

text \<open>\<^verbatim>\<open>IsNodeReady\<close> of \<^verbatim>\<open>nodes.go\<close> and the method \<^verbatim>\<open>IsReady\<close> run the same loop.\<close>

definition IsNodeReady :: "node \<Rightarrow> bool" where
  "IsNodeReady n = list_ex (\<lambda>(ty, status). ty = ''Ready'' \<and> status = ''True'') (node_Conditions n)"

definition IsReady :: "node_wrapper \<Rightarrow> bool" where
  "IsReady w = list_ex (\<lambda>(ty, status). ty = ''Ready'' \<and> status = ''True'') (node_Conditions (w_Node w))"

definition IsMarkedPoweredOff :: "node_wrapper \<Rightarrow> bool" where
  "IsMarkedPoweredOff w =
    (if node_Annotations (w_Node w) AnnotationPoweredOff \<noteq> None then True
     else (case w_State w of None \<Rightarrow> False | Some st \<Rightarrow> IsPoweredOff st (w_Name w)))"

definition IsIgnored :: "node_wrapper \<Rightarrow> bool" where
  "IsIgnored w =
    list_ex (\<lambda>(key, val). node_Labels (w_Node w) key = Some val) (w_IgnoreKeys w)"

definition GetEffectiveMACAddress :: "node_wrapper \<Rightarrow> string" where
  "GetEffectiveMACAddress w =
    (let manual = map_get (node_Annotations (w_Node w)) AnnotationMACManual
     in if manual \<noteq> '''' then manual
        else GetMACAddressFromNode (w_Node w) (w_MACKeys w))"

lemma NewNodeWrapper_simps [simp]:
  "w_Node (NewNodeWrapper n st now keys ignore) = n"
  "w_State (NewNodeWrapper n st now keys ignore) = st"
  "w_Now (NewNodeWrapper n st now keys ignore) = now"
  "w_MACKeys (NewNodeWrapper n st now keys ignore) = keys"
  "w_IgnoreKeys (NewNodeWrapper n st now keys ignore) = ignore"
  by (simp_all add: NewNodeWrapper_def)

section \<open>Finding a pod on a node\<close>

definition FindPodIPOnNode :: "env \<Rightarrow> string \<Rightarrow> string \<Rightarrow> string \<Rightarrow> (error + string) io" where
  "FindPodIPOnNode E namespace label nodeName =
    (case env_ParseSelector E label of
       Inl err \<Rightarrow> ret (Inl err)
     | Inr selector \<Rightarrow> do {
         r \<leftarrow> ListPods E (PodsLabelled namespace selector);
         case r of
           Inl err \<Rightarrow> ret (Inl (Wrapped ''listing pods'' err))
         | Inr pods \<Rightarrow>
             (case find (\<lambda>p. pod_NodeName p = nodeName \<and> pod_PodIP p \<noteq> '''') pods of
                Some p \<Rightarrow> ret (Inr (pod_PodIP p))
              | None \<Rightarrow> ret (Inl (Msg ''no pod with label found on node'')))
       })"

section \<open>Listing nodes\<close>

record managed_node_filter =
  mf_ManagedLabel :: string
  mf_DisabledLabel :: string
  mf_IgnoreLabels :: "(string \<times> string) list"

definition WrapNodes ::
  "node list \<Rightarrow> node_state_tracker option \<Rightarrow> time \<Rightarrow> node_annotation_config \<Rightarrow> (string \<times> string) list \<Rightarrow> node_wrapper list" where
  "WrapNodes nodes st now cfg ignore = map (\<lambda>n. NewNodeWrapper n st now cfg ignore) nodes"

text \<open>The body of the loop of \<^verbatim>\<open>ListManagedNodes\<close>: whether it keeps a node.\<close>

definition managed_node :: "managed_node_filter \<Rightarrow> node \<Rightarrow> bool" where
  "managed_node f n =
    (if map_get (node_Labels n) (mf_ManagedLabel f) \<noteq> ''true'' then False
     else if map_get (node_Labels n) (mf_DisabledLabel f) = ''true'' then False
     else if list_ex (\<lambda>(k, _). node_Labels n k \<noteq> None) (mf_IgnoreLabels f) then False
     else True)"

definition ListManagedNodes :: "env \<Rightarrow> managed_node_filter \<Rightarrow> (error + node list) io" where
  "ListManagedNodes E f = do {
     r \<leftarrow> ListNodes E;
     case r of
       Inl err \<Rightarrow> ret (Inl err)
     | Inr allNodes \<Rightarrow> ret (Inr (filter (managed_node f) allNodes))
   }"

fun shutdown_items :: "node_state_tracker \<Rightarrow> node list \<Rightarrow> (string \<times> time) list" where
  "shutdown_items tr [] = []"
| "shutdown_items tr (n # ns) =
     (case PoweredOffSince n of
        Some t \<Rightarrow> (node_Name n, t) # shutdown_items tr ns
      | None \<Rightarrow>
          if IsPoweredOff tr (node_Name n) then (node_Name n, unix_zero) # shutdown_items tr ns
          else shutdown_items tr ns)"

definition ListShutdownNodeNames :: "env \<Rightarrow> managed_node_filter \<Rightarrow> (error + string list) io" where
  "ListShutdownNodeNames E f = do {
     r \<leftarrow> ListManagedNodes E f;
     case r of
       Inl err \<Rightarrow> ret (Inl err)
     | Inr nodes \<Rightarrow> do {
         tr \<leftarrow> get_tracker;
         rnd \<leftarrow> Rand E;
         ret (Inr (map fst (sort_Slice rnd snd (shutdown_items tr nodes))))
       }
   }"

text \<open>The loop body of \<^verbatim>\<open>ListActiveNodes\<close>.\<close>

definition active_node :: "node_wrapper \<Rightarrow> bool" where
  "active_node w =
    (if IsCordoned w then False
     else if IsIgnored w then False
     else if IsMarkedPoweredOff w then False
     else IsReady w)"

definition ListActiveNodes ::
  "env \<Rightarrow> managed_node_filter \<Rightarrow> (string \<times> string) list \<Rightarrow> (error + node list) io" where
  "ListActiveNodes E f extraIgnore = do {
     r \<leftarrow> ListManagedNodes E f;
     case r of
       Inl err \<Rightarrow> ret (Inl err)
     | Inr nodes \<Rightarrow> do {
         now \<leftarrow> Now E;
         tr \<leftarrow> get_tracker;
         ret (Inr (map w_Node (filter active_node (WrapNodes nodes (Some tr) now \<lparr>na_MAC = ''''\<rparr> extraIgnore))))
       }
   }"

record eligibility_config =
  el_Cooldown :: duration
  el_BootCooldown :: duration
  el_IgnoreLabels :: "(string \<times> string) list"

text \<open>The loop body of \<^verbatim>\<open>FilterShutdownEligibleNodes\<close>.\<close>

definition shutdown_eligible :: "eligibility_config \<Rightarrow> node_wrapper \<Rightarrow> bool" where
  "shutdown_eligible cfg w =
    (if IsIgnored w then False
     else if IsMarkedPoweredOff w then False
     else if IsCordoned w then False
     else if IsInShutdownCooldown w (el_Cooldown cfg) then False
     else if IsInBootCooldown w (el_BootCooldown cfg) then False
     else True)"

definition FilterShutdownEligibleNodes ::
  "env \<Rightarrow> node list \<Rightarrow> time \<Rightarrow> eligibility_config \<Rightarrow> node_wrapper list io" where
  "FilterShutdownEligibleNodes E nodes now cfg = do {
     tr \<leftarrow> get_tracker;
     rnd \<leftarrow> Rand E;
     ret (rand_Shuffle rnd
           (filter (shutdown_eligible cfg)
             (WrapNodes nodes (Some tr) now \<lparr>na_MAC = ''''\<rparr> (el_IgnoreLabels cfg))))
   }"

definition ShouldIgnoreNodeDueToLabels :: "node \<Rightarrow> (string \<times> string) list \<Rightarrow> bool" where
  "ShouldIgnoreNodeDueToLabels n labels =
    list_ex (\<lambda>(k, v). case node_Labels n k of
        Some val \<Rightarrow> v = '''' \<or> v = val
      | None \<Rightarrow> False) labels"

section \<open>The queries only read\<close>

lemma query_reading:
  "state_io_rel reading (FindPodIPOnNode E namespace label nodeName)"
  "state_io_rel reading (ListManagedNodes E f)"
  unfolding FindPodIPOnNode_def ListManagedNodes_def by (intro frame_intro)+

lemmas [frame_intro] = query_reading query_reading [THEN reading_all(1)]
  query_reading [THEN reading_all(2)] query_reading [THEN reading_all(3)]

lemma listing_reading:
  "state_io_rel reading (ListShutdownNodeNames E f)"
  "state_io_rel reading (ListActiveNodes E f extraIgnore)"
  "state_io_rel reading (FilterShutdownEligibleNodes E nodes now cfg)"
  unfolding ListShutdownNodeNames_def ListActiveNodes_def FilterShutdownEligibleNodes_def
  by (intro frame_intro)+

lemmas [frame_intro] = listing_reading listing_reading [THEN reading_all(1)]
  listing_reading [THEN reading_all(2)] listing_reading [THEN reading_all(3)]

lemma Parse_empty [simp]: "Parse_RFC3339 [] = None"
  by code_simp

lemmas [run_simps] =
  IsInShutdownCooldown_def IsInBootCooldown_def map_get_def GetMACAddressFromNode_def ListManagedNodes_def managed_node_def FindPodIPOnNode_def
  ListShutdownNodeNames_def ListActiveNodes_def active_node_def FilterShutdownEligibleNodes_def shutdown_eligible_def
  WrapNodes_def IsIgnored_def IsMarkedPoweredOff_def IsCordoned_def IsReady_def
  IsNodeReady_def SetDiscoveredMAC_def mac_patch_body_def quoted_def HasDiscoveredMACAddr_def HasManualMACOverride_def annotation_defs

end
