(* ===== verification/Json.thy ===== *)
theory Json
  imports Go_Base "HOL-Library.AList"
begin

text \<open>
  JSON texts, for the one request body whose text the program does not fix: the MAC address that
  \<^verbatim>\<open>SetDiscoveredMAC\<close> splices into a patch comes from an agent. Here is the reading of such a text
  as RFC 8259 and Go's \<^verbatim>\<open>encoding/json\<close> prescribe it; \<open>Store_Cluster\<close> adds what the API server
  documents for it as a merge patch (RFC 7386). The strings are byte strings, as in Go.
\<close>

section \<open>Values\<close>

text \<open>A number is kept as its text; no field that the program reads is one.\<close>

datatype json =
    JNull
  | JBool bool
  | JNum string
  | JStr string
  | JArr "json list"
  | JObj "(string \<times> json) list"

text \<open>Of the members of one name the last counts.\<close>

definition members :: "(string \<times> json) list \<Rightarrow> (string \<times> json) list" where
  "members kvs = AList.clearjunk (rev kvs)"

definition member :: "string \<Rightarrow> (string \<times> json) list \<Rightarrow> json option" where
  "member k kvs = map_of (rev kvs) k"

section \<open>Reading strings\<close>

abbreviation quote :: char where "quote \<equiv> CHR 0x22"
abbreviation backslash :: char where "backslash \<equiv> CHR 0x5C"

definition byte :: "char \<Rightarrow> nat" where "byte c = of_char c"

definition hex_value :: "char \<Rightarrow> nat option" where
  "hex_value c =
    (if byte c \<ge> byte (CHR ''0'') \<and> byte c \<le> byte (CHR ''9'') then Some (byte c - byte (CHR ''0''))
     else if byte c \<ge> byte (CHR ''a'') \<and> byte c \<le> byte (CHR ''f'') then Some (byte c - byte (CHR ''a'') + 10)
     else if byte c \<ge> byte (CHR ''A'') \<and> byte c \<le> byte (CHR ''F'') then Some (byte c - byte (CHR ''A'') + 10)
     else None)"

fun hex_digits :: "nat \<Rightarrow> nat \<Rightarrow> string \<Rightarrow> (nat \<times> string) option" where
  "hex_digits 0 v cs = Some (v, cs)"
| "hex_digits (Suc n) v [] = None"
| "hex_digits (Suc n) v (c # cs) =
     (case hex_value c of None \<Rightarrow> None | Some d \<Rightarrow> hex_digits n (16 * v + d) cs)"

definition utf8 :: "nat \<Rightarrow> string" where
  "utf8 v = map char_of
    (if v < 0x80 then [v]
     else if v < 0x800 then [0xC0 + v div 64, 0x80 + v mod 64]
     else if v < 0x10000 then [0xE0 + v div 4096, 0x80 + v div 64 mod 64, 0x80 + v mod 64]
     else [0xF0 + v div 262144, 0x80 + v div 4096 mod 64, 0x80 + v div 64 mod 64, 0x80 + v mod 64])"

text \<open>
  A \<^verbatim>\<open>\u\<close> escape, from its digits on: a surrogate pair is one character, a surrogate that is not
  part of a pair the replacement character.
\<close>

definition unicode_escape :: "string \<Rightarrow> (string \<times> string) option" where
  "unicode_escape cs =
    (case hex_digits 4 0 cs of
       None \<Rightarrow> None
     | Some (v, rest) \<Rightarrow>
         if v < 0xD800 \<or> v > 0xDFFF then Some (utf8 v, rest)
         else if v < 0xDC00 \<and> take 2 rest = [backslash, CHR ''u''] then
           (case hex_digits 4 0 (drop 2 rest) of
              Some (w, rest') \<Rightarrow>
                if 0xDC00 \<le> w \<and> w \<le> 0xDFFF
                then Some (utf8 (0x10000 + (v - 0xD800) * 1024 + (w - 0xDC00)), rest')
                else Some (utf8 0xFFFD, rest)
            | None \<Rightarrow> Some (utf8 0xFFFD, rest))
         else Some (utf8 0xFFFD, rest))"

definition escape :: "char \<Rightarrow> string \<Rightarrow> (string \<times> string) option" where
  "escape c cs =
    (if c = quote \<or> c = backslash \<or> c = CHR ''/'' then Some ([c], cs)
     else if c = CHR ''b'' then Some ([CHR 0x08], cs)
     else if c = CHR ''f'' then Some ([CHR 0x0C], cs)
     else if c = CHR ''n'' then Some ([CHR 0x0A], cs)
     else if c = CHR ''r'' then Some ([CHR 0x0D], cs)
     else if c = CHR ''t'' then Some ([CHR 0x09], cs)
     else if c = CHR ''u'' then unicode_escape cs
     else None)"

text \<open>What stands for itself in a string.\<close>

definition json_plain :: "char \<Rightarrow> bool" where
  "json_plain c \<longleftrightarrow> c \<noteq> quote \<and> c \<noteq> backslash \<and> 32 \<le> byte c"

text \<open>A string from after its opening quote, with the text after the closing one.\<close>

fun json_string :: "nat \<Rightarrow> string \<Rightarrow> (string \<times> string) option" where
  "json_string (Suc n) (c # cs) =
    (if c = quote then Some ([], cs)
     else if c = backslash then
       (case cs of
          [] \<Rightarrow> None
        | e # cs' \<Rightarrow>
            (case escape e cs' of
               None \<Rightarrow> None
             | Some (x, rest) \<Rightarrow> map_option (apfst ((@) x)) (json_string n rest)))
     else if json_plain c then map_option (apfst ((#) c)) (json_string n cs)
     else None)"
| "json_string _ _ = None"

section \<open>Reading values\<close>

definition skip_space :: "string \<Rightarrow> string" where
  "skip_space = dropWhile (\<lambda>c. c \<in> {CHR '' '', CHR 0x09, CHR 0x0A, CHR 0x0D})"

definition token :: "char \<Rightarrow> string \<Rightarrow> string option" where
  "token c s = (case skip_space s of [] \<Rightarrow> None | x # rest \<Rightarrow> if x = c then Some rest else None)"

definition is_digit :: "char \<Rightarrow> bool" where
  "is_digit c \<longleftrightarrow> byte (CHR ''0'') \<le> byte c \<and> byte c \<le> byte (CHR ''9'')"

definition digits :: "string \<Rightarrow> bool" where
  "digits s \<longleftrightarrow> s \<noteq> [] \<and> list_all is_digit s"

definition signed :: "char list \<Rightarrow> string \<Rightarrow> string" where
  "signed signs s = (if s \<noteq> [] \<and> hd s \<in> set signs then tl s else s)"

text \<open>\<^verbatim>\<open>-? (0 | [1-9][0-9]*) (\.[0-9]+)? ([eE][+-]?[0-9]+)?\<close>\<close>

definition json_number :: "string \<Rightarrow> bool" where
  "json_number s =
    (let s' = signed ''-'' s;
         whole = takeWhile is_digit s'; r = dropWhile is_digit s';
         (frac, r') = (if r \<noteq> [] \<and> hd r = CHR ''.'' then (takeWhile is_digit (tl r), dropWhile is_digit (tl r)) else (''0'', r))
     in digits whole \<and> (hd whole = CHR ''0'' \<longrightarrow> whole = ''0'') \<and> digits frac \<and>
        (r' = [] \<or> hd r' \<in> {CHR ''e'', CHR ''E''} \<and> digits (signed ''+-'' (tl r'))))"

definition number_char :: "char \<Rightarrow> bool" where
  "number_char c \<longleftrightarrow> is_digit c \<or> c \<in> set ''+-.eE''"

definition json_scalar :: "string \<Rightarrow> (json \<times> string) option" where
  "json_scalar s =
    (if take 4 s = ''null'' then Some (JNull, drop 4 s)
     else if take 4 s = ''true'' then Some (JBool True, drop 4 s)
     else if take 5 s = ''false'' then Some (JBool False, drop 5 s)
     else let num = takeWhile number_char s
          in if json_number num then Some (JNum num, dropWhile number_char s) else None)"

text \<open>
  \<open>json_fields\<close> and \<open>json_items\<close> read what follows the opening brace or bracket of an object or
  an array that is not empty. The fuel bounds the depth of the calls; at least every second one has
  read a character, so twice the length of the text is enough (\<open>json_value_fuel\<close> below).
\<close>

fun json_value :: "nat \<Rightarrow> string \<Rightarrow> (json \<times> string) option"
  and json_fields :: "nat \<Rightarrow> string \<Rightarrow> ((string \<times> json) list \<times> string) option"
  and json_items :: "nat \<Rightarrow> string \<Rightarrow> (json list \<times> string) option" where
  "json_value 0 s = None"
| "json_value (Suc n) s =
    (case skip_space s of
       [] \<Rightarrow> None
     | c # cs \<Rightarrow>
         if c = quote then map_option (apfst JStr) (json_string (length cs) cs)
         else if c = CHR ''{'' then
           (case token (CHR ''}'') cs of
              Some rest \<Rightarrow> Some (JObj [], rest)
            | None \<Rightarrow> map_option (apfst JObj) (json_fields n cs))
         else if c = CHR ''['' then
           (case token (CHR '']'') cs of
              Some rest \<Rightarrow> Some (JArr [], rest)
            | None \<Rightarrow> map_option (apfst JArr) (json_items n cs))
         else json_scalar (c # cs))"
| "json_fields 0 s = None"
| "json_fields (Suc n) s =
    (case token quote s of
       None \<Rightarrow> None
     | Some cs \<Rightarrow>
         (case json_string (length cs) cs of
            None \<Rightarrow> None
          | Some (k, after_key) \<Rightarrow>
              (case token (CHR '':'') after_key of
                 None \<Rightarrow> None
               | Some t \<Rightarrow>
                   (case json_value n t of
                      None \<Rightarrow> None
                    | Some (v, after_value) \<Rightarrow>
                        (case token (CHR '','') after_value of
                           Some u \<Rightarrow> map_option (apfst ((#) (k, v))) (json_fields n u)
                         | None \<Rightarrow> map_option (Pair [(k, v)]) (token (CHR ''}'') after_value))))))"
| "json_items 0 s = None"
| "json_items (Suc n) s =
    (case json_value n s of
       None \<Rightarrow> None
     | Some (v, after_value) \<Rightarrow>
         (case token (CHR '','') after_value of
            Some u \<Rightarrow> map_option (apfst ((#) v)) (json_items n u)
          | None \<Rightarrow> map_option (Pair [v]) (token (CHR '']'') after_value)))"

definition decode_json :: "string \<Rightarrow> json option" where
  "decode_json s =
    (case json_value (Suc (Suc (2 * length s))) s of
       Some (v, rest) \<Rightarrow> if skip_space rest = [] then Some v else None
     | None \<Rightarrow> None)"

section \<open>The fuel is enough\<close>

text \<open>Every reader leaves less text than it was given, and more fuel changes nothing.\<close>

lemma skip_space_length: "length (skip_space s) \<le> length s"
  by (simp add: skip_space_def length_dropWhile_le)

lemma token_length: "token c s = Some rest \<Longrightarrow> length rest < length s"
  using skip_space_length [of s] by (auto simp: token_def split: list.splits if_splits)

lemma hex_digits_length: "hex_digits n v cs = Some (w, rest) \<Longrightarrow> length rest \<le> length cs"
  by (induction n v cs rule: hex_digits.induct) (auto split: option.splits)

lemma escape_length: "escape c cs = Some (x, rest) \<Longrightarrow> length rest \<le> length cs"
  by (fastforce simp: escape_def unicode_escape_def split: option.splits if_splits dest: hex_digits_length)

lemma json_string_length: "json_string n s = Some (x, rest) \<Longrightarrow> length rest < length s"
proof (induction n s arbitrary: x rule: json_string.induct)
  case (1 n c cs)
  show ?case
  proof (cases "c = backslash")
    case True
    then obtain e cs' y more where cs: "cs = e # cs'" and e: "escape e cs' = Some (y, more)"
      and "\<exists>z. json_string n more = Some (z, rest)"
      using "1.prems" by (auto split: if_splits list.splits option.splits prod.splits)
    then have "length rest < length more" using "1.IH"(1) True by auto
    then show ?thesis using escape_length [OF e] cs by simp
  next
    case False
    then show ?thesis using "1.prems" "1.IH"(2) by (fastforce split: if_splits)
  qed
qed simp_all

lemma json_scalar_length:
  assumes "json_scalar s = Some (v, rest)" shows "length rest < length s"
proof -
  have lit: "length (drop k s) < length s" if "take k s = w" "w \<noteq> []" "k \<noteq> 0" for k w
    using that by (cases s) auto
  have num: "length (dropWhile number_char s) < length s" if "json_number (takeWhile number_char s)"
  proof -
    have "takeWhile number_char s \<noteq> []"
      using that by (auto simp: json_number_def signed_def digits_def)
    then have "0 < length (takeWhile number_char s)" by simp
    moreover have "length (takeWhile number_char s) + length (dropWhile number_char s) = length s"
      by (metis length_append takeWhile_dropWhile_id)
    ultimately show ?thesis by linarith
  qed
  show ?thesis
    using assms lit [of 4 "''null''"] lit [of 4 "''true''"] lit [of 5 "''false''"] num
    by (auto simp: json_scalar_def Let_def split: if_splits)
qed

lemma json_length:
  "json_value n s = Some (v, rest) \<Longrightarrow> length rest < length s"
  "json_fields n s = Some (kvs, rest) \<Longrightarrow> length rest < length s"
  "json_items n s = Some (vs, rest) \<Longrightarrow> length rest < length s"
proof (induction n s and n s and n s arbitrary: v rest and kvs rest and vs rest rule: json_value_json_fields_json_items.induct)
  case (2 n s)
  obtain c cs where s: "skip_space s = c # cs" using 2(3) by (auto split: list.splits)
  then have len: "length (c # cs) \<le> length s" using skip_space_length [of s] by simp
  have "length rest \<le> length cs \<or> length rest < length (c # cs)"
    using 2(3) 2(1,2) [OF s] s
    by (auto simp: less_imp_le split: if_splits option.splits dest: token_length json_string_length json_scalar_length)
  then show ?case using len by auto
next
  case (4 n s)
  then show ?case by (fastforce split: option.splits prod.splits dest: token_length json_string_length)
next
  case (6 n s)
  then show ?case by (fastforce split: option.splits prod.splits dest: token_length)
qed simp_all

lemma json_fuel:
  "2 * length s + 2 \<le> n \<Longrightarrow> 2 * length s + 2 \<le> m \<Longrightarrow> json_value n s = json_value m s"
  "2 * length s + 3 \<le> n \<Longrightarrow> 2 * length s + 3 \<le> m \<Longrightarrow> json_fields n s = json_fields m s"
  "2 * length s + 3 \<le> n \<Longrightarrow> 2 * length s + 3 \<le> m \<Longrightarrow> json_items n s = json_items m s"
proof (induction n s and n s and n s arbitrary: m and m and m rule: json_value_json_fields_json_items.induct)
  case (2 n s)
  obtain m' where m: "m = Suc m'" using 2(4) by (cases m) auto
  show ?case
  proof (cases "skip_space s")
    case (Cons c cs)
    then have "length (c # cs) \<le> length s" using skip_space_length [of s] by simp
    then have "2 * length cs + 3 \<le> n" "2 * length cs + 3 \<le> m'" using 2(3,4) m by auto
    then have "c \<noteq> quote \<Longrightarrow> c = CHR ''{'' \<Longrightarrow> token (CHR ''}'') cs = None \<Longrightarrow> json_fields n cs = json_fields m' cs"
      and "c \<noteq> quote \<Longrightarrow> c \<noteq> CHR ''{'' \<Longrightarrow> c = CHR ''['' \<Longrightarrow> token (CHR '']'') cs = None \<Longrightarrow>
        json_items n cs = json_items m' cs"
      using 2(1,2) [OF Cons] by blast+
    then show ?thesis by (simp add: m Cons split: option.split)
  qed (simp add: m)
next
  case (4 n s)
  obtain m' where m: "m = Suc m'" using 4(4) by (cases m) auto
  show ?case
  proof (cases "token quote s")
    case (Some cs)
    note cs = Some
    show ?thesis
    proof (cases "json_string (length cs) cs")
      case (Some p)
      obtain k r where p: "p = (k, r)" by fastforce
      note string = Some [unfolded p]
      show ?thesis
      proof (cases "token (CHR '':'') r")
        case (Some t)
        have len: "length t < length s" 
          using token_length [OF cs] json_string_length [OF string] token_length [OF Some] by simp
        then have "json_value n t = json_value m' t" 
          by (intro 4(1) [OF cs string refl Some]) (use 4(3,4) m in simp_all)
        moreover have "json_fields n u = json_fields m' u"
          if "json_value n t = Some (v, w)" "token (CHR '','') w = Some u" for v w u
          using 4(2) [OF cs string refl Some that(1) refl that(2), of m'] 4(3,4) m len json_length(1) [OF that(1)] token_length [OF that(2)]
          by linarith
        ultimately show ?thesis by (simp add: m cs string Some split: option.split prod.split)
      qed (simp add: m cs string)
    qed (simp add: m cs)
  qed (simp add: m)
next
  case (6 n s)
  obtain m' where m: "m = Suc m'" using 6(4) by (cases m) auto
  have "json_value n s = json_value m' s" by (rule 6(1)) (use 6(3,4) m in simp_all)
  moreover have "json_items n u = json_items m' u"
    if "json_value n s = Some (v, w)" "token (CHR '','') w = Some u" for v w u
    using 6(2) [OF that(1) refl that(2), of m'] 6(3,4) m json_length(1) [OF that(1)] token_length [OF that(2)] by linarith
  ultimately show ?case by (simp add: m split: option.split prod.split)
qed simp_all

lemma json_value_fuel: "2 * length s + 2 \<le> n \<Longrightarrow> json_value n s = json_value (Suc (Suc (2 * length s))) s"
  by (rule json_fuel(1)) simp_all

section \<open>Texts that need no escaping\<close>

lemma json_string_plain:
  "list_all json_plain s \<Longrightarrow> length s < n \<Longrightarrow> json_string n (s @ quote # rest) = Some (s, rest)"
proof (induction s arbitrary: n)
  case Nil
  then show ?case by (cases n) auto
next
  case (Cons c s)
  then obtain m where "n = Suc m" by (cases n) auto
  with Cons show ?case by (auto simp: json_plain_def)
qed

lemma json_value_plain:
  "list_all json_plain s \<Longrightarrow> json_value (Suc n) (quote # s @ quote # rest) = Some (JStr s, rest)"
  by (simp add: json_string_plain skip_space_def)

lemma json_value_object:
  "json_fields n (quote # s) = Some (kvs, rest) \<Longrightarrow>
     json_value (Suc n) (CHR ''{'' # quote # s) = Some (JObj kvs, rest)"
  by (simp add: skip_space_def token_def)

lemma json_fields_one:
  assumes "list_all json_plain k" and "json_value n s = Some (v, CHR ''}'' # rest)"
  shows "json_fields (Suc n) (quote # k @ quote # CHR '':'' # s) = Some ([(k, v)], rest)"
  using assms by (simp add: json_string_plain skip_space_def token_def)

lemma json_object_one:
  assumes "list_all json_plain k" and "json_value n s = Some (v, CHR ''}'' # rest)"
  shows "json_value (Suc (Suc n)) (CHR ''{'' # quote # k @ quote # CHR '':'' # s) = Some (JObj [(k, v)], rest)"
  by (rule json_value_object [OF json_fields_one [OF assms]])

lemma decode_jsonI:
  assumes "json_value n s = Some (v, [])" and "n = Suc (Suc (2 * length s))"
  shows "decode_json s = Some v"
  using assms by (simp add: decode_json_def skip_space_def)

end
