(* ===== verification/Store_Cluster.thy ===== *)
theory Store_Cluster
  imports Node_Ops Json
begin

text \<open>
  The stored node objects: what accepted updates and patches make of them, and the views under which
  the properties look at them. And one environment in full: an API server that stores what is written
  to it, a clock that advances a second per reading, and bounded versions of the two client-go
  helpers. It shows that the hypotheses of the development can hold, and the properties are applied
  to it at concrete clusters.
\<close>

section \<open>Bounded retry and poll\<close>

fun bounded_retry :: "nat \<Rightarrow> (error \<Rightarrow> bool) \<Rightarrow> error option io \<Rightarrow> error option io" where
  "bounded_retry 0 retriable fn = fn"
| "bounded_retry (Suc n) retriable fn = do {
     r \<leftarrow> fn;
     case r of
       None \<Rightarrow> ret None
     | Some e \<Rightarrow>
         if retriable e then do { _ \<leftarrow> log_call CWait; bounded_retry n retriable fn }
         else ret (Some e)
   }"

fun bounded_poll :: "nat \<Rightarrow> (string list \<Rightarrow> ((error + bool) \<times> string list) io) \<Rightarrow> string list \<Rightarrow> error option io" where
  "bounded_poll 0 cond acc = ret (Some (Msg ''context deadline exceeded''))"
| "bounded_poll (Suc n) cond acc = do {
     (r, acc') \<leftarrow> cond acc;
     case r of
       Inl e \<Rightarrow> ret (Some e)
     | Inr done \<Rightarrow>
         if done then ret None
         else do { _ \<leftarrow> log_call CWait; bounded_poll n cond acc' }
   }"

lemma bounded_retry_runs: "run_state (bounded_retry n retriable fn) s = (r, t) \<Longrightarrow> retry_runs retriable fn s r t"
proof (induction n arbitrary: s)
  case 0
  then show ?case by (cases r) (auto intro: retry_runs.intros)
next
  case (Suc n)
  obtain x s' where fn: "run_state fn s = (x, s')" by fastforce
  show ?case
  proof (cases "\<exists>e. x = Some e \<and> retriable e")
    case True
    then have "run_state (bounded_retry n retriable fn) (wait_tick s') = (r, t)"
      using Suc.prems fn by (auto simp: wait_tick_def)
    then show ?thesis using True fn Suc.IH by (auto intro: retry_again)
  next
    case False
    then show ?thesis using Suc.prems fn
      by (cases x) (auto intro: retry_runs.intros)
  qed
qed

lemma bounded_poll_runs: "run_state (bounded_poll n cond acc) s = (r, t) \<Longrightarrow> poll_runs cond acc s r t"
proof (induction n arbitrary: acc s)
  case 0
  then show ?case by (auto intro: poll_cancel)
next
  case (Suc n)
  obtain x acc' s' where c: "run_state (cond acc) s = ((x, acc'), s')" by (metis prod.collapse)
  show ?case
  proof (cases "x = Inr False")
    case True
    then have "run_state (bounded_poll n cond acc') (wait_tick s') = (r, t)"
      using Suc.prems c by (auto simp: wait_tick_def)
    then show ?thesis using True c Suc.IH by (auto intro: poll_again)
  next
    case False
    then show ?thesis using Suc.prems c
      by (cases x) (auto intro: poll_runs.intros split: if_splits)
  qed
qed

section \<open>The store\<close>

record cluster =
  cl_nodes :: "node list"
  cl_pods :: "pod list"
  cl_metrics :: "node_metrics list"
  cl_attachments :: "string list"
  cl_http :: "string \<Rightarrow> string \<Rightarrow> error + http_resp"

text \<open>
  A JSON merge patch (RFC 7386) of a node, as far as the fields go that the model keeps: a member
  that is absent leaves its target alone, \<^verbatim>\<open>null\<close> removes it, an object is merged member by member.
  The server refuses a body that is no JSON, one that would rename the node and a value of the
  wrong type (\<open>None\<close>).
\<close>

fun merge_strings :: "(string \<times> json) list \<Rightarrow> (string \<rightharpoonup> string) \<Rightarrow> (string \<rightharpoonup> string) option" where
  "merge_strings [] m = Some m"
| "merge_strings ((k, JNull) # kvs) m = merge_strings kvs (m(k := None))"
| "merge_strings ((k, JStr v) # kvs) m = merge_strings kvs (m(k \<mapsto> v))"
| "merge_strings _ m = None"

definition merge_map :: "json option \<Rightarrow> (string \<rightharpoonup> string) \<Rightarrow> (string \<rightharpoonup> string) option" where
  "merge_map j m =
    (case j of
       None \<Rightarrow> Some m
     | Some JNull \<Rightarrow> Some Map.empty
     | Some (JObj kvs) \<Rightarrow> merge_strings (members kvs) m
     | Some _ \<Rightarrow> None)"

definition merge_spec :: "json option \<Rightarrow> bool \<Rightarrow> bool option" where
  "merge_spec j unschedulable =
    (case j of
       None \<Rightarrow> Some unschedulable
     | Some JNull \<Rightarrow> Some False
     | Some (JObj kvs) \<Rightarrow>
         (case member ''unschedulable'' kvs of
            None \<Rightarrow> Some unschedulable
          | Some JNull \<Rightarrow> Some False
          | Some (JBool b) \<Rightarrow> Some b
          | Some _ \<Rightarrow> None)
     | Some _ \<Rightarrow> None)"

definition merge_metadata :: "json option \<Rightarrow> node \<Rightarrow> node option" where
  "merge_metadata j n =
    (case j of
       None \<Rightarrow> Some n
     | Some (JObj kvs) \<Rightarrow>
         (if member ''name'' kvs \<notin> {None, Some (JStr (node_Name n))} then None
          else case merge_map (member ''labels'' kvs) (node_Labels n) of
            None \<Rightarrow> None
          | Some ls \<Rightarrow>
              (case merge_map (member ''annotations'' kvs) (node_Annotations n) of
                 None \<Rightarrow> None
               | Some as \<Rightarrow> Some (n\<lparr>node_Labels := ls, node_Annotations := as\<rparr>)))
     | Some _ \<Rightarrow> None)"

definition merge_node :: "json \<Rightarrow> node \<Rightarrow> node option" where
  "merge_node j n =
    (case j of
       JObj kvs \<Rightarrow>
         (case merge_metadata (member ''metadata'' kvs) n of
            None \<Rightarrow> None
          | Some n' \<Rightarrow>
              map_option (\<lambda>b. n'\<lparr>node_Unschedulable := b\<rparr>) (merge_spec (member ''spec'' kvs) (node_Unschedulable n)))
     | _ \<Rightarrow> None)"

definition merge_patch :: "string \<Rightarrow> node \<Rightarrow> node option" where
  "merge_patch body n = (case decode_json body of None \<Rightarrow> None | Some j \<Rightarrow> merge_node j n)"

lemma merge_patch_Name: "merge_patch body n = Some m \<Longrightarrow> node_Name m = node_Name n"
  by (auto simp: merge_patch_def merge_node_def merge_metadata_def split: option.splits json.splits if_splits)

text \<open>An accepted patch, on the node it was accepted for.\<close>

definition patched :: "string \<Rightarrow> node \<Rightarrow> node" where
  "patched body n = (case merge_patch body n of None \<Rightarrow> n | Some m \<Rightarrow> m)"

lemma patched_Name [simp]: "node_Name (patched body n) = node_Name n"
  by (auto simp: patched_def merge_patch_Name split: option.split)

text \<open>What the stored objects are after the calls of a log (newest first).\<close>

definition update_named :: "string \<Rightarrow> (node \<Rightarrow> node) \<Rightarrow> node list \<Rightarrow> node list" where
  "update_named name f ns = map (\<lambda>n. if node_Name n = name then f n else n) ns"

fun stored_nodes :: "node list \<Rightarrow> call list \<Rightarrow> node list" where
  "stored_nodes ns [] = ns"
| "stored_nodes ns (CUpdateNode m None # h) = update_named (node_Name m) (\<lambda>_. m) (stored_nodes ns h)"
| "stored_nodes ns (CPatchNode name p None # h) =
     update_named name (\<lambda>n. n\<lparr>node_Annotations := apply_patch p (node_Annotations n)\<rparr>) (stored_nodes ns h)"
| "stored_nodes ns (CPatchRaw name body None # h) = update_named name (patched body) (stored_nodes ns h)"
| "stored_nodes ns (_ # h) = stored_nodes ns h"

fun stored_pods :: "pod list \<Rightarrow> call list \<Rightarrow> pod list" where
  "stored_pods ps [] = ps"
| "stored_pods ps (CEvict ns n uid None # h) =
     filter (\<lambda>p. \<not> (pod_Namespace p = ns \<and> pod_Name p = n \<and> pod_UID p = uid)) (stored_pods ps h)"
| "stored_pods ps (_ # h) = stored_pods ps h"

fun select_pods :: "pod_query \<Rightarrow> pod list \<Rightarrow> pod list" where
  "select_pods AllPods ps = ps"
| "select_pods (PodsOnNode name) ps = filter (\<lambda>p. pod_NodeName p = name) ps"
| "select_pods (PodsLabelled ns label) ps = filter (\<lambda>p. pod_Namespace p = ns) ps"

definition node_named :: "string \<Rightarrow> node list \<Rightarrow> error + node" where
  "node_named name ns =
    (case find (\<lambda>n. node_Name n = name) ns of Some n \<Rightarrow> Inr n | None \<Rightarrow> Inl ErrNotFound)"

definition exists_err :: "string \<Rightarrow> node list \<Rightarrow> error option" where
  "exists_err name ns = (case node_named name ns of Inl e \<Rightarrow> Some e | Inr _ \<Rightarrow> None)"

definition patch_err :: "string \<Rightarrow> string \<Rightarrow> node list \<Rightarrow> error option" where
  "patch_err name body ns =
    (case node_named name ns of
       Inl e \<Rightarrow> Some e
     | Inr n \<Rightarrow> (case merge_patch body n of None \<Rightarrow> Some (ErrOther ''BadRequest'') | Some _ \<Rightarrow> None))"

definition store_env :: "cluster \<Rightarrow> env" where
  "store_env c =
     \<lparr>env_Now = (\<lambda>h. clock_floor h + Second),
      env_CtxDone = (\<lambda>_. None),
      env_Rand = (\<lambda>_ _. 0),
      env_ListNodes = (\<lambda>h. Inr (stored_nodes (cl_nodes c) h)),
      env_GetNode = (\<lambda>h name. node_named name (stored_nodes (cl_nodes c) h)),
      env_UpdateNode = (\<lambda>h n. exists_err (node_Name n) (stored_nodes (cl_nodes c) h)),
      env_PatchNode = (\<lambda>h name p. exists_err name (stored_nodes (cl_nodes c) h)),
      env_PatchRaw = (\<lambda>h name body. patch_err name body (stored_nodes (cl_nodes c) h)),
      env_ListPods = (\<lambda>h q. Inr (select_pods q (stored_pods (cl_pods c) h))),
      env_Evict = (\<lambda>_ _ _ _. None),
      env_ListAttachments = (\<lambda>_. Inr (cl_attachments c)),
      env_ListMetrics = (\<lambda>_. Inr (cl_metrics c)),
      env_Http = (\<lambda>_ meth url. cl_http c meth url),
      env_ParseSelector = Inr,
      env_OnError = bounded_retry 4,
      env_Poll = bounded_poll 10\<rparr>"

lemma store_env_client_go: "client_go (store_env c)"
  by (simp add: client_go_def store_env_def bounded_retry_runs bounded_poll_runs)

section \<open>Sample objects\<close>

definition cores :: "int \<Rightarrow> quantity" where
  "cores k = \<lparr>q_MilliValue = word_of_int (1000 * k), q_Value = word_of_int k, q_IsZero = (k = 0)\<rparr>"

definition sample_node :: "string \<Rightarrow> node" where
  "sample_node name =
     \<lparr>node_Name = name, node_Labels = [''managed'' \<mapsto> ''true''],
      node_Annotations = [AnnotationMACAuto \<mapsto> ''52:54:00:12:34:56''],
      node_Unschedulable = False, node_Conditions = [(''Ready'', ''True'')], node_VolumesInUse = [],
      node_Allocatable = [(''cpu'', cores 8), (''memory'', cores 16)]\<rparr>"

definition off_node :: "string \<Rightarrow> string \<Rightarrow> node" where
  "off_node name since_text =
     (sample_node name)\<lparr>node_Unschedulable := True, node_Conditions := [(''Ready'', ''False'')],
       node_Annotations := [AnnotationMACAuto \<mapsto> ''52:54:00:12:34:57'', AnnotationPoweredOff \<mapsto> since_text]\<rparr>"

definition sample_pod :: "string \<Rightarrow> string \<Rightarrow> string option \<Rightarrow> pod" where
  "sample_pod name on kind =
     \<lparr>pod_Name = name, pod_Namespace = ''default'', pod_UID = ''uid-'' @ name,
      pod_Annotations = Map.empty, pod_Controller = kind, pod_Phase = ''Running'',
      pod_DeletionTimestamp = None, pod_NodeName = on, pod_PodIP = ''10.0.0.7'',
      pod_Containers = [\<lparr>c_Requests = [(''cpu'', cores 1), (''memory'', cores 1)], c_Limits = []\<rparr>],
      pod_InitContainers = []\<rparr>"

definition sample_usage :: "string \<Rightarrow> node_metrics" where
  "sample_usage name = \<lparr>nm_Name = name, nm_Usage = [(''cpu'', cores 1), (''memory'', cores 1)]\<rparr>"

text \<open>Two nodes with a workload pod and an agent each, and agents that answer every request.\<close>

definition sample_cluster :: cluster where
  "sample_cluster =
     \<lparr>cl_nodes = [sample_node ''n1'', sample_node ''n2''],
      cl_pods = [sample_pod ''web'' ''n1'' (Some ''ReplicaSet''), sample_pod ''agent1'' ''n1'' (Some ''DaemonSet''),
                 sample_pod ''db'' ''n2'' (Some ''StatefulSet''), sample_pod ''agent2'' ''n2'' (Some ''DaemonSet'')],
      cl_metrics = [sample_usage ''n1'', sample_usage ''n2''],
      cl_attachments = [],
      cl_http = (\<lambda>_ _. Inr \<lparr>resp_Status = 200, resp_load = Some (1 / 2, 4),
                  resp_mac = Some ''52:54:00:12:34:58'', resp_body = []\<rparr>)\<rparr>"

section \<open>An environment with constant answers\<close>

text \<open>The simplest cluster: the given nodes and pods, every write accepted, the clock standing at 1000 s.\<close>

definition constant_env :: "node list \<Rightarrow> pod list \<Rightarrow> http_resp \<Rightarrow> env" where
  "constant_env ns pods resp =
     \<lparr>env_Now = (\<lambda>_. 1000 * Second), env_CtxDone = (\<lambda>_. None), env_Rand = (\<lambda>_ _. 0),
      env_ListNodes = (\<lambda>_. Inr ns), env_GetNode = (\<lambda>_ name. node_named name ns),
      env_UpdateNode = (\<lambda>_ _. None), env_PatchNode = (\<lambda>_ _ _. None),
      env_PatchRaw = (\<lambda>_ _ _. None), env_ListPods = (\<lambda>_ _. Inr pods), env_Evict = (\<lambda>_ _ _ _. None),
      env_ListAttachments = (\<lambda>_. Inr []),
      env_ListMetrics = (\<lambda>_. Inr (map (\<lambda>n. \<lparr>nm_Name = node_Name n, nm_Usage = []\<rparr>) ns)),
      env_Http = (\<lambda>_ _ _. Inr resp), env_ParseSelector = Inr,
      env_OnError = bounded_retry 0, env_Poll = bounded_poll 1\<rparr>"

lemma constant_env_client_go: "client_go (constant_env ns pods resp)"
  by (simp add: client_go_def constant_env_def bounded_retry_runs bounded_poll_runs del: bounded_retry.simps
      bounded_poll.simps)

definition ok_resp :: http_resp where
  "ok_resp = \<lparr>resp_Status = 200, resp_load = Some (1 / 2, 4), resp_mac = Some ''52:54:00:12:34:58'', resp_body = []\<rparr>"

lemma off_node_simps [simp]:
  "node_Name (off_node name txt) = name" "node_Labels (off_node name txt) = [''managed'' \<mapsto> ''true'']"
  "node_Unschedulable (off_node name txt)" "node_Conditions (off_node name txt) = [(''Ready'', ''False'')]"
  "node_Annotations (off_node name txt) AnnotationMACAuto = Some ''52:54:00:12:34:57''"
  "node_Annotations (off_node name txt) AnnotationPoweredOff = Some txt"
  by (simp_all add: off_node_def sample_node_def)

lemmas off_node_texts [simp] = off_node_simps(5,6) [unfolded annotation_defs]

lemmas [run_simps] =
  node_named_def constant_env_def sample_node_def sample_pod_def sample_config_def ok_resp_def
  sample_usage_def cores_def

section \<open>Views of the stored nodes\<close>

lemma update_named_names: "(\<And>n. node_Name (f n) = node_Name n) \<Longrightarrow> map node_Name (update_named name f ns) = map node_Name ns"
  by (simp add: update_named_def)

lemma apply_patch_at: "a k = b k \<Longrightarrow> apply_patch p a k = apply_patch p b k"
proof (induction p arbitrary: a b)
  case (Cons x p)
  obtain k' v where x: "x = (k', v)" by fastforce
  show ?case unfolding x apply_patch.simps by (rule Cons.IH) (simp add: Cons.prems)
qed simp

text \<open>
  Some fields of a node among which its name is, and what the writes of the program do to them
  depends on nothing but them. A property about these fields leaves the others free: they may
  change under way.
\<close>

locale node_view =
  fixes view :: "node \<Rightarrow> 'v"
  assumes view_name: "view m = view n \<Longrightarrow> node_Name m = node_Name n"
    and view_cordon: "view m = view n \<Longrightarrow> view (m\<lparr>node_Unschedulable := b\<rparr>) = view (n\<lparr>node_Unschedulable := b\<rparr>)"
    and view_patch: "view m = view n \<Longrightarrow>
      view (m\<lparr>node_Annotations := apply_patch p (node_Annotations m)\<rparr>) =
      view (n\<lparr>node_Annotations := apply_patch p (node_Annotations n)\<rparr>)"
begin

lemma names: "map view xs = map view ys \<Longrightarrow> map node_Name xs = map node_Name ys"
proof (induction xs arbitrary: ys)
  case (Cons x xs)
  then obtain y zs where ys: "ys = y # zs" "view x = view y" "map view xs = map view zs" by (cases ys) auto
  then show ?case using Cons.IH [OF ys(3)] view_name [OF ys(2)] by simp
qed simp

lemma update_cong:
  assumes "map view xs = map view ys"
    and "\<And>m n. m \<in> set xs \<Longrightarrow> node_Name m = name \<Longrightarrow> view m = view n \<Longrightarrow> view (f m) = view (g n)"
  shows "map view (update_named name f xs) = map view (update_named name g ys)"
  using assms
proof (induction xs arbitrary: ys)
  case (Cons x xs)
  then obtain y zs where ys: "ys = y # zs" "view x = view y" "map view xs = map view zs" by (cases ys) auto
  have "map view (update_named name f xs) = map view (update_named name g zs)"
    by (rule Cons.IH [OF ys(3)]) (simp add: Cons.prems(2))
  then show ?case using Cons.prems(2) [OF _ _ ys(2)] view_name [OF ys(2)] ys by (simp add: update_named_def)
qed (simp add: update_named_def)

text \<open>A node that was read and is written back changed by \<open>f\<close>.\<close>

lemma write_back:
  assumes "map view xs = map view ys" and "distinct (map node_Name ys)"
    and "view n \<in> view ` set xs" and "node_Name n = name"
    and "\<And>m n. view m = view n \<Longrightarrow> view (f m) = view (g n)"
  shows "map view (update_named name (\<lambda>_. f n) xs) = map view (update_named name g ys)"
proof (rule update_cong [OF assms(1)])
  fix m m' assume m: "m \<in> set xs" "node_Name m = name" "view m = view m'"
  obtain k where k: "k \<in> set xs" "view n = view k" using assms(3) by auto
  have "distinct (map node_Name xs)" using names [OF assms(1)] assms(2) by simp
  then have "m = k" using m k view_name [OF k(2)] assms(4) by (auto simp: distinct_map dest: inj_onD)
  then have "view n = view m'" using k(2) m(3) by simp
  then show "view (f n) = view (g m')" by (rule assms(5))
qed

lemma found_named: "map view xs = map view ys \<Longrightarrow> view n \<in> view ` set xs \<Longrightarrow> \<exists>m \<in> set ys. view m = view n"
  by (metis imageE image_set)

end

end
