(* ===== verification/Node_Util.thy ===== *)
theory Node_Util
  imports Store_Cluster
begin

text \<open>
  The node-level actions of \<^verbatim>\<open>pkg/nodeops\<close>: uncordoning, the annotation patches, powering a node
  on, the forced power-on, the recovery of unexpectedly booted nodes (\<^verbatim>\<open>util.go\<close>, \<^verbatim>\<open>nodes.go\<close>)
  and the MAC address updater (\<^verbatim>\<open>mac_updater.go\<close>).
\<close>

section \<open>The tracker's clock-reading methods\<close>

definition do_MarkGlobalShutdown :: "env \<Rightarrow> unit io" where
  "do_MarkGlobalShutdown E = do { now \<leftarrow> Now E; on_tracker (MarkGlobalShutdown now) }"

definition do_MarkShutdown :: "env \<Rightarrow> string \<Rightarrow> unit io" where
  "do_MarkShutdown E name = do { now \<leftarrow> Now E; on_tracker (MarkShutdown now name) }"

definition do_MarkBooted :: "env \<Rightarrow> string \<Rightarrow> unit io" where
  "do_MarkBooted E name = do { now \<leftarrow> Now E; on_tracker (MarkBooted now name) }"

section \<open>Uncordoning and annotation patches\<close>

definition uncordon_body :: "env \<Rightarrow> string \<Rightarrow> error option io" where
  "uncordon_body E nodeName = do {
     r \<leftarrow> GetNode E nodeName;
     case r of
       Inl err \<Rightarrow> ret (Some (Wrapped ''fetch node'' err))
     | Inr n \<Rightarrow>
         if \<not> node_Unschedulable n then ret None
         else do {
           u \<leftarrow> UpdateNode E (n\<lparr>node_Unschedulable := False\<rparr>);
           case u of
             Some err \<Rightarrow> ret (Some (Wrapped ''uncordon update'' err))
           | None \<Rightarrow> ret None
         }
   }"

definition UncordonNode :: "env \<Rightarrow> string \<Rightarrow> error option io" where
  "UncordonNode E nodeName = env_OnError E IsConflict (uncordon_body E nodeName)"

definition ClearPoweredOffAnnotation :: "env \<Rightarrow> string \<Rightarrow> error option io" where
  "ClearPoweredOffAnnotation E nodeName = do {
     r \<leftarrow> PatchNode E nodeName [(AnnotationPoweredOff, None)];
     case r of
       Some err \<Rightarrow> ret (Some (Wrapped ''remove annotation'' err))
     | None \<Rightarrow> ret None
   }"

section \<open>Powering on\<close>

text \<open>
  A \<^verbatim>\<open>PowerOnController\<close> is its method, and a call through the interface is logged with its
  result.
\<close>

type_synonym power_on_controller = "string \<Rightarrow> string \<Rightarrow> error option io"

definition call_PowerOn :: "power_on_controller \<Rightarrow> string \<Rightarrow> string \<Rightarrow> error option io" where
  "call_PowerOn powerOner name mac = do {
     r \<leftarrow> powerOner name mac;
     _ \<leftarrow> log_call (CPowerOn name mac r);
     ret r
   }"

definition PowerOnAndMarkBooted ::
  "env \<Rightarrow> node_wrapper \<Rightarrow> config \<Rightarrow> power_on_controller \<Rightarrow> bool \<Rightarrow> error option io" where
  "PowerOnAndMarkBooted E w cfg powerOner dryRun =
    (if dryRun then ret None
     else
       let mac = GetMACAddressFromNode (w_Node w) \<lparr>na_MAC = na_MAC (NodeAnnotations cfg)\<rparr>
       in if mac = '''' then ret (Some (Msg ''missing MAC address for node''))
          else do {
            p \<leftarrow> call_PowerOn powerOner (w_Name w) mac;
            case p of
              Some err \<Rightarrow> ret (Some (Wrapped ''power on'' err))
            | None \<Rightarrow> do {
                now \<leftarrow> Now E;
                b \<leftarrow> PatchNode E (w_Name w) [(AnnotationBootedAt, Some (Format_RFC3339 now))];
                case b of
                  Some err \<Rightarrow> ret (Some (Wrapped ''persist boot time'' err))
                | None \<Rightarrow> do {
                    u \<leftarrow> UncordonNode E (w_Name w);
                    case u of
                      Some err \<Rightarrow> ret (Some err)
                    | None \<Rightarrow> do {
                        c \<leftarrow> ClearPoweredOffAnnotation E (w_Name w);
                        case c of
                          Some err \<Rightarrow> ret (Some err)
                        | None \<Rightarrow> do {
                            _ \<leftarrow> do_MarkGlobalShutdown E;
                            _ \<leftarrow> do_MarkBooted E (w_Name w);
                            ret None
                          }
                      }
                  }
              }
          })"

definition managed_filter :: "config \<Rightarrow> managed_node_filter" where
  "managed_filter cfg =
     \<lparr>mf_ManagedLabel = nl_Managed (NodeLabels cfg), mf_DisabledLabel = nl_Disabled (NodeLabels cfg),
      mf_IgnoreLabels = IgnoreLabels cfg\<rparr>"

text \<open>The loop body of \<^verbatim>\<open>ForcePowerOnAllNodes\<close>, and the function.\<close>

definition force_node :: "env \<Rightarrow> config \<Rightarrow> power_on_controller \<Rightarrow> bool \<Rightarrow> time \<Rightarrow> node \<Rightarrow> unit io" where
  "force_node E cfg powerOner dryRun now n =
    (if IsNodeReady n then ret ()
     else do {
       tr \<leftarrow> get_tracker;
       _ \<leftarrow> PowerOnAndMarkBooted E
             (NewNodeWrapper n (Some tr) now \<lparr>na_MAC = na_MAC (NodeAnnotations cfg)\<rparr> (IgnoreLabels cfg))
             cfg powerOner dryRun;
       ret ()
     })"

definition ForcePowerOnAll :: "env \<Rightarrow> config \<Rightarrow> power_on_controller \<Rightarrow> bool \<Rightarrow> error option io" where
  "ForcePowerOnAll E cfg powerOner dryRun = do {
     r \<leftarrow> ListManagedNodes E (managed_filter cfg);
     case r of
       Inl err \<Rightarrow> ret (Some (Wrapped ''listing managed nodes'' err))
     | Inr nodes \<Rightarrow> do {
         now \<leftarrow> Now E;
         _ \<leftarrow> for_each (force_node E cfg powerOner dryRun now) nodes;
         ret None
       }
   }"

section \<open>Recovering unexpectedly booted nodes\<close>

definition recover_body :: "env \<Rightarrow> string \<Rightarrow> error option io" where
  "recover_body E nodeName = do {
     r \<leftarrow> GetNode E nodeName;
     case r of
       Inl err \<Rightarrow> ret (Some (Wrapped ''refetch node'' err))
     | Inr n \<Rightarrow> do {
         u \<leftarrow> UpdateNode E (n\<lparr>node_Unschedulable := False\<rparr>);
         case u of
           Some err \<Rightarrow> ret (Some (Wrapped ''update node'' err))
         | None \<Rightarrow> ret None
       }
   }"

definition recently_off :: "env \<Rightarrow> node \<Rightarrow> bool io" where
  "recently_off E n =
    (case PoweredOffSince n of
       None \<Rightarrow> ret False
     | Some since \<Rightarrow> do { now \<leftarrow> Now E; ret (time_Sub now since < 2 * Minute) })"

definition recover_node :: "env \<Rightarrow> config \<Rightarrow> bool \<Rightarrow> node \<Rightarrow> unit io" where
  "recover_node E cfg dryRun n =
    (if \<not> IsNodeReady n then ret ()
     else if node_Annotations n AnnotationPoweredOff = None then ret ()
     else if ShouldIgnoreNodeDueToLabels n (IgnoreLabels cfg) then ret ()
     else if \<not> node_Unschedulable n then ret ()
     else do {
       recent \<leftarrow> recently_off E n;
       if recent then ret ()
       else if dryRun then ret ()
       else do {
         err \<leftarrow> env_OnError E IsConflict (recover_body E (node_Name n));
         case err of
           Some _ \<Rightarrow> ret ()
         | None \<Rightarrow> do {
             now \<leftarrow> Now E;
             _ \<leftarrow> PatchNode E (node_Name n)
                   [(AnnotationPoweredOff, None), (AnnotationBootedAt, Some (Format_RFC3339 now))];
             ret ()
           }
       }
     })"

definition RecoverUnexpectedlyBootedNodes :: "env \<Rightarrow> config \<Rightarrow> bool \<Rightarrow> error option io" where
  "RecoverUnexpectedlyBootedNodes E cfg dryRun = do {
     r \<leftarrow> ListManagedNodes E (managed_filter cfg);
     case r of
       Inl err \<Rightarrow> ret (Some (Wrapped ''failed to list nodes for recovery'' err))
     | Inr nodes \<Rightarrow> do {
         _ \<leftarrow> for_each (recover_node E cfg dryRun) nodes;
         ret None
       }
   }"

section \<open>The MAC address updater\<close>

record mac_updater_config =
  mu_DryRun :: bool
  mu_Interval :: duration
  mu_Port :: int
  mu_Namespace :: string
  mu_PodLabel :: string
  mu_ManagedLabel :: string
  mu_DisabledLabel :: string
  mu_IgnoreLabels :: "(string \<times> string) list"

definition FetchMACFromDaemon :: "env \<Rightarrow> string \<Rightarrow> int \<Rightarrow> (error + string) io" where
  "FetchMACFromDaemon E ip port = do {
     let url = (if port = 0 then ''http://'' @ ip @ ''/mac''
                else ''http://'' @ ip @ '':'' @ show_int port @ ''/mac'');
     r \<leftarrow> Http E ''GET'' url;
     case r of
       Inl err \<Rightarrow> ret (Inl (Wrapped ''sending MAC request'' err))
     | Inr resp \<Rightarrow>
         (case resp_mac resp of
            None \<Rightarrow> ret (Inl (Msg ''decoding MAC response''))
          | Some mac \<Rightarrow> ret (Inr mac))
   }"

definition update_mac :: "env \<Rightarrow> mac_updater_config \<Rightarrow> time \<Rightarrow> node \<Rightarrow> unit io" where
  "update_mac E cfg now rawNode =
    (let w = NewNodeWrapper rawNode None now \<lparr>na_MAC = ''''\<rparr> []
     in if HasManualMACOverride w then ret ()
        else if HasDiscoveredMACAddr w then ret ()
        else do {
          ip \<leftarrow> FindPodIPOnNode E (mu_Namespace cfg) (mu_PodLabel cfg) (w_Name w);
          case ip of
            Inl err \<Rightarrow> ret ()
          | Inr ip \<Rightarrow> do {
              m \<leftarrow> FetchMACFromDaemon E ip (mu_Port cfg);
              case m of
                Inl err \<Rightarrow> ret ()
              | Inr mac \<Rightarrow> do { _ \<leftarrow> SetDiscoveredMAC E w mac (mu_DryRun cfg); ret () }
            }
        })"

definition RunOnce :: "env \<Rightarrow> mac_updater_config \<Rightarrow> unit io" where
  "RunOnce E cfg = do {
     r \<leftarrow> ListManagedNodes E
           \<lparr>mf_ManagedLabel = mu_ManagedLabel cfg, mf_DisabledLabel = mu_DisabledLabel cfg,
            mf_IgnoreLabels = mu_IgnoreLabels cfg\<rparr>;
     case r of
       Inl err \<Rightarrow> ret ()
     | Inr nodes \<Rightarrow> do { now \<leftarrow> Now E; for_each (update_mac E cfg now) nodes }
   }"

text \<open>The updater's goroutine, for its first \<open>n\<close> rounds.\<close>

fun StartMACAnnotationUpdater :: "nat \<Rightarrow> env \<Rightarrow> mac_updater_config \<Rightarrow> unit io" where
  "StartMACAnnotationUpdater 0 E cfg = ret ()"
| "StartMACAnnotationUpdater (Suc n) E cfg = do {
     _ \<leftarrow> RunOnce E cfg;
     _ \<leftarrow> Sleep (10 * Second);
     StartMACAnnotationUpdater n E cfg
   }"

lemmas [run_simps] =
  do_MarkGlobalShutdown_def do_MarkShutdown_def do_MarkBooted_def uncordon_body_def UncordonNode_def
  ClearPoweredOffAnnotation_def call_PowerOn_def PowerOnAndMarkBooted_def managed_filter_def force_node_def
  ForcePowerOnAll_def recover_body_def recently_off_def recover_node_def RecoverUnexpectedlyBootedNodes_def
  FetchMACFromDaemon_def update_mac_def RunOnce_def

section \<open>What these programs may do\<close>

text \<open>
  A call an agent's controller may make: anything that reads, and HTTP requests. A call that
  gives a node back to the scheduler: an update that leaves it schedulable, a patch that only
  removes the powered-off mark and sets the boot time.
\<close>

fun agent_call :: "call \<Rightarrow> bool" where
  "agent_call (CHttp _ _ _) = True"
| "agent_call c = (\<not> is_write c)"

fun restoring_call :: "call \<Rightarrow> bool" where
  "restoring_call (CUpdateNode n _) = (\<not> node_Unschedulable n)"
| "restoring_call (CPatchNode _ p _) =
     list_all (\<lambda>(k, v). k = AnnotationPoweredOff \<and> v = None \<or> k = AnnotationBootedAt) p"
| "restoring_call c = (\<not> is_write c)"

lemma agent_call_reads: "\<not> is_write c \<Longrightarrow> agent_call c"
  by (cases c) auto

lemma restoring_call_reads: "\<not> is_write c \<Longrightarrow> restoring_call c"
  by (cases c) auto

lemma agent_call_cases: "agent_call c \<Longrightarrow> is_write c \<Longrightarrow> \<exists>meth url r. c = CHttp meth url r"
  by (cases c) auto

lemma mark_frames [frame_intro]:
  "(\<And>now. P (CNow now)) \<Longrightarrow> state_io_rel (logs P) (do_MarkGlobalShutdown E)"
  "(\<And>now. P (CNow now)) \<Longrightarrow> state_io_rel (logs P) (do_MarkShutdown E name)"
  "(\<And>now. P (CNow now)) \<Longrightarrow> state_io_rel (logs P) (do_MarkBooted E name)"
  "state_io_rel clock_le (do_MarkGlobalShutdown E)"
  "state_io_rel clock_le (do_MarkShutdown E name)"
  "state_io_rel clock_le (do_MarkBooted E name)"
  unfolding do_MarkGlobalShutdown_def do_MarkShutdown_def do_MarkBooted_def
  by (intro frame_intro; simp)+

lemma uncordon_frames [frame_intro]:
  "client_go E \<Longrightarrow> (\<And>c. restoring_call c \<Longrightarrow> P c) \<Longrightarrow> state_io_rel (logs P) (UncordonNode E name)"
  "client_go E \<Longrightarrow> state_io_rel same_tracker (UncordonNode E name)"
  "client_go E \<Longrightarrow> state_io_rel clock_le (UncordonNode E name)"
  "(\<And>c. restoring_call c \<Longrightarrow> P c) \<Longrightarrow> state_io_rel (logs P) (ClearPoweredOffAnnotation E name)"
  "state_io_rel same_tracker (ClearPoweredOffAnnotation E name)"
  "state_io_rel clock_le (ClearPoweredOffAnnotation E name)"
  unfolding UncordonNode_def uncordon_body_def ClearPoweredOffAnnotation_def
  by (intro frame_intro; simp)+

lemma call_PowerOn_frames [frame_intro]:
  "P (CPowerOn name mac None) \<Longrightarrow> (\<And>e. P (CPowerOn name mac (Some e))) \<Longrightarrow>
   state_io_rel (logs P) (powerOner name mac) \<Longrightarrow> state_io_rel (logs P) (call_PowerOn powerOner name mac)"
  "state_io_rel same_tracker (powerOner name mac) \<Longrightarrow>
   state_io_rel same_tracker (call_PowerOn powerOner name mac)"
  "state_io_rel clock_le (powerOner name mac) \<Longrightarrow>
   state_io_rel clock_le (call_PowerOn powerOner name mac)"
  unfolding call_PowerOn_def by (intro frame_intro; metis option.exhaust)+

lemma PowerOnAndMarkBooted_logs:
  assumes "client_go E" and "\<And>mac. state_io_rel (logs P) (powerOner (w_Name w) mac)"
    and "\<And>c. restoring_call c \<Longrightarrow> P c" and "\<And>mac r. P (CPowerOn (w_Name w) mac r)"
  shows "state_io_rel (logs P) (PowerOnAndMarkBooted E w cfg powerOner dryRun)"
  unfolding PowerOnAndMarkBooted_def by (intro frame_intro assms; simp add: assms)

lemma PowerOnAndMarkBooted_dry: "PowerOnAndMarkBooted E w cfg powerOner True = ret None"
  by (simp add: PowerOnAndMarkBooted_def)

lemma PowerOnAndMarkBooted_clock:
  assumes "client_go E" and "\<And>mac. state_io_rel clock_le (powerOner (w_Name w) mac)"
  shows "state_io_rel clock_le (PowerOnAndMarkBooted E w cfg powerOner dryRun)"
  unfolding PowerOnAndMarkBooted_def by (intro frame_intro assms)

lemma recently_off_reading: "state_io_rel reading (recently_off E n)"
  unfolding recently_off_def by (intro frame_intro)

lemmas [frame_intro] = recently_off_reading recently_off_reading [THEN reading_all(1)]
  recently_off_reading [THEN reading_all(2)] recently_off_reading [THEN reading_all(3)]

lemma recover_logs:
  assumes "client_go E" and "\<And>c. restoring_call c \<Longrightarrow> P c"
  shows "state_io_rel (logs P) (RecoverUnexpectedlyBootedNodes E cfg dryRun)"
  unfolding RecoverUnexpectedlyBootedNodes_def recover_node_def recover_body_def
  by (intro frame_intro assms; simp add: restoring_call_reads assms)

lemma recover_frames [frame_intro]:
  "client_go E \<Longrightarrow> state_io_rel same_tracker (RecoverUnexpectedlyBootedNodes E cfg dryRun)"
  "client_go E \<Longrightarrow> state_io_rel clock_le (RecoverUnexpectedlyBootedNodes E cfg dryRun)"
  "state_io_rel reading (RecoverUnexpectedlyBootedNodes E cfg True)"
  unfolding RecoverUnexpectedlyBootedNodes_def recover_node_def recover_body_def if_True
  by (intro frame_intro; simp)+

end
