(* ===== verification/Drain.thy ===== *)
theory Drain
  imports Node_Util
begin

text \<open>
  Cordoning and draining a node, \<^verbatim>\<open>pkg/controller/drain.go\<close>: which pods block a drain, which are
  left alone, one turn of the eviction loop, and \<^verbatim>\<open>CordonAndDrain\<close>. The drain timeout bounds the
  context, so it shows as calls that fail and as the poll being cancelled, which the
  environment may do at any time.
\<close>

section \<open>Which pods matter\<close>

definition skipDrain :: "pod \<Rightarrow> bool" where
  "skipDrain p =
    (if pod_Annotations p ''kubernetes.io/config.mirror'' \<noteq> None then True
     else pod_Controller p = Some ''DaemonSet'')"

definition extended_limit :: "container \<Rightarrow> bool" where
  "extended_limit c = list_ex (\<lambda>(name, q). CHR ''/'' \<in> set name \<and> \<not> q_IsZero q) (c_Limits c)"

definition drainBlocker :: "pod \<Rightarrow> error option" where
  "drainBlocker p =
    (if pod_Phase p = ''Succeeded'' \<or> pod_Phase p = ''Failed'' then None
     else if map_get (pod_Annotations p) ''cluster-autoscaler.kubernetes.io/safe-to-evict'' = ''false''
       then Some (Msg ''pod forbids eviction'')
     else if skipDrain p then None
     else if pod_Controller p = None \<or> pod_Controller p = Some ''Job''
       then Some (Msg ''unfinished job or unmanaged pod'')
     else if list_ex extended_limit (pod_Containers p @ pod_InitContainers p)
       then Some (Msg ''pod uses extended resource'')
     else None)"

fun first_blocker :: "pod list \<Rightarrow> error option" where
  "first_blocker [] = None"
| "first_blocker (p # ps) = (case drainBlocker p of Some err \<Rightarrow> Some err | None \<Rightarrow> first_blocker ps)"

section \<open>The drain\<close>

definition restoreScheduling :: "env \<Rightarrow> string \<Rightarrow> unit io" where
  "restoreScheduling E name = do { _ \<leftarrow> UncordonNode E name; ret () }"

definition cordon_body :: "env \<Rightarrow> string \<Rightarrow> error option io" where
  "cordon_body E name = do {
     r \<leftarrow> GetNode E name;
     case r of
       Inl err \<Rightarrow> ret (Some err)
     | Inr latest \<Rightarrow> UpdateNode E (latest\<lparr>node_Unschedulable := True\<rparr>)
   }"

definition pod_key :: "pod \<Rightarrow> string" where
  "pod_key p = pod_Namespace p @ ''/'' @ pod_Name p @ ''/'' @ pod_UID p"

text \<open>
  The loop over the pods in one poll: the error that aborts the drain or the number of
  pods still to go, and the keys of the evictions accepted so far.
\<close>

fun drain_pods :: "env \<Rightarrow> string \<Rightarrow> pod list \<Rightarrow> string list \<Rightarrow> nat \<Rightarrow> ((error + nat) \<times> string list) io" where
  "drain_pods E name [] accepted remaining = ret (Inr remaining, accepted)"
| "drain_pods E name (p # ps) accepted remaining =
     (if pod_NodeName p \<noteq> name then drain_pods E name ps accepted remaining
      else case drainBlocker p of
        Some err \<Rightarrow> ret (Inl err, accepted)
      | None \<Rightarrow>
          if skipDrain p then drain_pods E name ps accepted remaining
          else if pod_key p \<in> set accepted \<or> pod_DeletionTimestamp p \<noteq> None
            then drain_pods E name ps accepted (Suc remaining)
          else do {
            r \<leftarrow> Evict E (pod_Namespace p) (pod_Name p) (pod_UID p);
            case r of
              None \<Rightarrow> drain_pods E name ps (pod_key p # accepted) (Suc remaining)
            | Some err \<Rightarrow>
                if IsTooManyRequests err \<or> IsConflict err then drain_pods E name ps accepted (Suc remaining)
                else if IsNotFound err then drain_pods E name ps accepted (Suc remaining)
                else ret (Inl (Wrapped ''aborting drain due to eviction failure'' err), accepted)
          })"

definition volumes_gone :: "env \<Rightarrow> string \<Rightarrow> (error + bool) io" where
  "volumes_gone E name = do {
     r \<leftarrow> GetNode E name;
     case r of
       Inl err \<Rightarrow> ret (Inl err)
     | Inr latest \<Rightarrow>
         if length (node_VolumesInUse latest) > 0 then ret (Inr False)
         else do {
           a \<leftarrow> ListAttachments E;
           case a of
             Inl err \<Rightarrow> ret (Inl err)
           | Inr attachments \<Rightarrow> ret (Inr (\<not> list_ex (\<lambda>nodeName. nodeName = name) attachments))
         }
   }"

definition drain_poll :: "env \<Rightarrow> string \<Rightarrow> string list \<Rightarrow> ((error + bool) \<times> string list) io" where
  "drain_poll E name accepted = do {
     r \<leftarrow> ListPods E (PodsOnNode name);
     case r of
       Inl err \<Rightarrow> ret (Inl err, accepted)
     | Inr pods \<Rightarrow> do {
         (d, accepted') \<leftarrow> drain_pods E name pods accepted 0;
         case d of
           Inl err \<Rightarrow> ret (Inl err, accepted')
         | Inr remaining \<Rightarrow>
             if remaining > 0 then ret (Inr False, accepted')
             else do { v \<leftarrow> volumes_gone E name; ret (v, accepted') }
       }
   }"

definition CordonAndDrain :: "env \<Rightarrow> config \<Rightarrow> string \<Rightarrow> error option io" where
  "CordonAndDrain E cfg name = do {
     r \<leftarrow> ListPods E (PodsOnNode name);
     case r of
       Inl err \<Rightarrow> ret (Some err)
     | Inr pods \<Rightarrow>
         (case first_blocker pods of
            Some err \<Rightarrow> ret (Some err)
          | None \<Rightarrow>
              if DryRun cfg then ret None
              else do {
                c \<leftarrow> env_OnError E IsConflict (cordon_body E name);
                case c of
                  Some err \<Rightarrow> ret (Some err)
                | None \<Rightarrow> env_Poll E (drain_poll E name) []
              })
   }"

lemmas [run_simps] =
  skipDrain_def extended_limit_def drainBlocker_def restoreScheduling_def cordon_body_def
  pod_key_def volumes_gone_def drain_poll_def CordonAndDrain_def

section \<open>Frames\<close>

lemma drain_pods_frames [frame_intro]:
  "(\<And>c. \<not> is_write c \<Longrightarrow> P c) \<Longrightarrow> (\<And>ns n uid r. P (CEvict ns n uid r)) \<Longrightarrow>
   state_io_rel (logs P) (drain_pods E name pods accepted remaining)"
  "state_io_rel same_tracker (drain_pods E name pods accepted remaining)"
  "state_io_rel clock_le (drain_pods E name pods accepted remaining)"
  by (induction pods arbitrary: accepted remaining) (auto intro!: frame_intro)

lemma volumes_gone_reading: "state_io_rel reading (volumes_gone E name)"
  unfolding volumes_gone_def by (intro frame_intro)

lemmas [frame_intro] = volumes_gone_reading volumes_gone_reading [THEN reading_all(1)]
  volumes_gone_reading [THEN reading_all(2)] volumes_gone_reading [THEN reading_all(3)]

text \<open>The writes of a drain: updates that leave the node cordoned, and evictions.\<close>

fun draining_call :: "call \<Rightarrow> bool" where
  "draining_call (CUpdateNode n _) = node_Unschedulable n"
| "draining_call (CEvict _ _ _ _) = True"
| "draining_call c = (\<not> is_write c)"

lemma draining_call_reads: "\<not> is_write c \<Longrightarrow> draining_call c"
  by (cases c) auto

lemma CordonAndDrain_frames [frame_intro]:
  "client_go E \<Longrightarrow> (\<And>c. draining_call c \<Longrightarrow> P c) \<Longrightarrow> state_io_rel (logs P) (CordonAndDrain E cfg name)"
  "client_go E \<Longrightarrow> state_io_rel same_tracker (CordonAndDrain E cfg name)"
  "client_go E \<Longrightarrow> state_io_rel clock_le (CordonAndDrain E cfg name)"
  unfolding CordonAndDrain_def cordon_body_def drain_poll_def
  by (intro frame_intro; simp add: draining_call_reads)+

lemma CordonAndDrain_dry: "DryRun cfg \<Longrightarrow> state_io_rel reading (CordonAndDrain E cfg name)"
  unfolding CordonAndDrain_def by (simp, intro frame_intro)

lemma restoreScheduling_frames [frame_intro]:
  "client_go E \<Longrightarrow> (\<And>c. restoring_call c \<Longrightarrow> P c) \<Longrightarrow> state_io_rel (logs P) (restoreScheduling E name)"
  "client_go E \<Longrightarrow> state_io_rel same_tracker (restoreScheduling E name)"
  "client_go E \<Longrightarrow> state_io_rel clock_le (restoreScheduling E name)"
  unfolding restoreScheduling_def by (intro frame_intro; simp)+

section \<open>Which pods block\<close>

lemma first_blocker_None: "first_blocker pods = None \<longleftrightarrow> (\<forall>p \<in> set pods. drainBlocker p = None)"
  by (induction pods) (auto split: option.splits)

section \<open>The protocol of a drain\<close>

text \<open>
  What the log of a drain must look like, newest call first. \<open>cordoned\<close>: the node was fetched
  and the fetched object written back unschedulable. \<open>last_pods\<close>: the latest listing of the
  node's pods. \<open>drained\<close>: the three latest calls showed that no pod is left that a drain waits
  for, no volume in use and no attachment.
\<close>

definition cordon_at :: "string \<Rightarrow> call list \<Rightarrow> bool" where
  "cordon_at name cs =
    (case cs of
       CUpdateNode m None # CGetNode k (Inr n) # _ \<Rightarrow>
         k = name \<and> node_Name m = node_Name n \<and> node_Unschedulable m
     | _ \<Rightarrow> False)"

fun cordoned :: "string \<Rightarrow> call list \<Rightarrow> bool" where
  "cordoned name [] = False"
| "cordoned name (c # cs) = (cordon_at name (c # cs) \<or> cordoned name cs)"

fun last_pods :: "string \<Rightarrow> call list \<Rightarrow> pod list" where
  "last_pods name [] = []"
| "last_pods name (CListPods q (Inr pods) # cs) = (if q = PodsOnNode name then pods else last_pods name cs)"
| "last_pods name (c # cs) = last_pods name cs"

definition evictable :: "string \<Rightarrow> pod \<Rightarrow> bool" where
  "evictable name p = (pod_NodeName p = name \<and> drainBlocker p = None \<and> \<not> skipDrain p \<and>
     pod_DeletionTimestamp p = None)"

fun evicted_in :: "string \<Rightarrow> string \<Rightarrow> string \<Rightarrow> call list \<Rightarrow> bool" where
  "evicted_in ns n uid [] = False"
| "evicted_in ns n uid (CEvict ns' n' uid' None # cs) =
     (ns' = ns \<and> n' = n \<and> uid' = uid \<or> evicted_in ns n uid cs)"
| "evicted_in ns n uid (c # cs) = evicted_in ns n uid cs"

text \<open>
  Every write is a cordoning update or an eviction, and an eviction comes after the node was
  cordoned, names a pod of the latest listing that is evictable, and was not accepted before.
\<close>

fun drain_log :: "string \<Rightarrow> call list \<Rightarrow> bool" where
  "drain_log name [] = True"
| "drain_log name (CEvict ns n uid r # cs) =
     (drain_log name cs \<and> cordoned name cs \<and> \<not> evicted_in ns n uid cs \<and>
      list_ex (\<lambda>p. evictable name p \<and> pod_Namespace p = ns \<and> pod_Name p = n \<and> pod_UID p = uid)
        (last_pods name cs))"
| "drain_log name (c # cs) = (drain_log name cs \<and> draining_call c)"

definition pod_done :: "string \<Rightarrow> pod \<Rightarrow> bool" where
  "pod_done name p = (pod_NodeName p = name \<longrightarrow> drainBlocker p = None \<and> skipDrain p)"

fun drained :: "string \<Rightarrow> call list \<Rightarrow> bool" where
  "drained name (CListAttachments (Inr att) # CGetNode k (Inr n) # CListPods q (Inr pods) # _) =
     (k = name \<and> q = PodsOnNode name \<and> \<not> list_ex (\<lambda>nodeName. nodeName = name) att \<and>
      node_VolumesInUse n = [] \<and> list_all (pod_done name) pods)"
| "drained name _ = False"

lemma drained_iff:
  "drained name cs \<longleftrightarrow>
     (\<exists>att n pods rest. cs = CListAttachments (Inr att) # CGetNode name (Inr n) #
          CListPods (PodsOnNode name) (Inr pods) # rest \<and>
        name \<notin> set att \<and> node_VolumesInUse n = [] \<and> list_all (pod_done name) pods)"
  by (auto simp: list_ex_iff elim!: drained.elims(2))

lemma drained_append: "drained name cs \<Longrightarrow> drained name (cs @ h)"
  by (auto simp: drained_iff)

lemma drain_log_reads: "\<not> is_write c \<Longrightarrow> drain_log name (c # cs) = drain_log name cs"
  by (cases c) auto

lemma evicted_in_reads: "\<not> is_write c \<Longrightarrow> evicted_in ns n uid (c # cs) = evicted_in ns n uid cs"
  by (cases c) auto

definition accepted_keys :: "string list \<Rightarrow> call list \<Rightarrow> bool" where
  "accepted_keys accepted cs \<longleftrightarrow>
     (\<forall>ns n uid. evicted_in ns n uid cs \<longrightarrow> ns @ ''/'' @ n @ ''/'' @ uid \<in> set accepted)"

lemma accepted_keys_reads: "\<not> is_write c \<Longrightarrow> accepted_keys acc (c # cs) = accepted_keys acc cs"
  by (simp add: accepted_keys_def evicted_in_reads)

text \<open>The invariant of the poll loop, over the calls made since the drain started.\<close>

definition drain_inv :: "string \<Rightarrow> string list \<Rightarrow> call list \<Rightarrow> bool" where
  "drain_inv name accepted cs \<longleftrightarrow>
     drain_log name cs \<and> cordoned name cs \<and> accepted_keys accepted cs"

lemma drain_inv_reads:
  "\<not> is_write c \<Longrightarrow> drain_inv name acc cs \<Longrightarrow> drain_inv name acc (c # cs)"
  by (simp add: drain_inv_def drain_log_reads accepted_keys_reads)

lemma drain_inv_evict:
  assumes inv: "drain_inv name acc cs" and p: "p \<in> set (last_pods name cs)" "evictable name p"
    and fresh: "pod_key p \<notin> set acc"
  shows "drain_inv name (if r = None then pod_key p # acc else acc)
    (CEvict (pod_Namespace p) (pod_Name p) (pod_UID p) r # cs)"
proof -
  let ?c = "CEvict (pod_Namespace p) (pod_Name p) (pod_UID p) r"
  have "\<not> evicted_in (pod_Namespace p) (pod_Name p) (pod_UID p) cs"
    using inv fresh by (auto simp: drain_inv_def accepted_keys_def pod_key_def)
  then have "drain_log name (?c # cs)"
    using inv p by (auto simp: drain_inv_def list_ex_iff)
  moreover have "accepted_keys (if r = None then pod_key p # acc else acc) (?c # cs)"
    using inv by (cases r) (auto simp: drain_inv_def accepted_keys_def pod_key_def)
  ultimately show ?thesis using inv by (simp add: drain_inv_def)
qed

lemma drain_pods_inv:
  assumes "run_state (drain_pods E name ps acc remaining) s = ((r, acc'), t)"
    and "calls_since h0 (\<lambda>cs. drain_inv name acc cs \<and> set ps \<subseteq> set (last_pods name cs)) s"
  shows "calls_since h0 (drain_inv name acc') t"
  using assms
proof (induction ps arbitrary: acc remaining s)
  case Nil
  then show ?case by (auto elim: calls_since_mono)
next
  case (Cons p ps)
  let ?tail = "\<lambda>acc cs. drain_inv name acc cs \<and> set ps \<subseteq> set (last_pods name cs)"
  have tail: "calls_since h0 (?tail acc) s" using Cons.prems(2) by (auto elim: calls_since_mono)
  show ?case
  proof (cases "pod_NodeName p = name \<and> drainBlocker p = None \<and> \<not> skipDrain p \<and>
      pod_key p \<notin> set acc \<and> pod_DeletionTimestamp p = None")
    case False
    then show ?thesis using Cons.prems(1) tail Cons.IH
      by (auto split: if_splits option.splits elim: calls_since_mono)
  next
    case True
    let ?c = "\<lambda>r. CEvict (pod_Namespace p) (pod_Name p) (pod_UID p) r"
    let ?r = "env_Evict E (hist s) (pod_Namespace p) (pod_Name p) (pod_UID p)"
    let ?s = "s\<lparr>hist := ?c ?r # hist s\<rparr>"
    have step: "?tail (if ?r = None then pod_key p # acc else acc) (?c ?r # cs)"
      if "drain_inv name acc cs \<and> set (p # ps) \<subseteq> set (last_pods name cs)" for cs
      using that True drain_inv_evict [of name acc cs p ?r] by (simp add: evictable_def del: if_split)
    have "calls_since h0 (?tail (if ?r = None then pod_key p # acc else acc)) ?s"
      by (rule calls_since_Cons [OF Cons.prems(2), where c = "?c ?r"]) (simp, rule step)
    then have next_s: "?r = None \<Longrightarrow> calls_since h0 (?tail (pod_key p # acc)) ?s"
      "\<And>e. ?r = Some e \<Longrightarrow> calls_since h0 (?tail acc) ?s" by simp_all
    show ?thesis using Cons.prems(1) True next_s Cons.IH
      by (auto simp: Evict_def split: option.splits if_splits elim: calls_since_mono)
  qed
qed

text \<open>A turn that finds nothing left makes no call and has seen only pods it need not wait for.\<close>

lemma drain_pods_none_left:
  "run_state (drain_pods E name ps acc remaining) s = ((Inr n, acc'), t) \<Longrightarrow> remaining \<le> n"
proof (induction ps arbitrary: acc remaining s)
  case (Cons p ps)
  then show ?case
    by (auto split: if_splits option.splits prod.splits) (metis Suc_leD)+
qed simp

lemma drain_pods_zero:
  assumes "run_state (drain_pods E name ps acc 0) s = ((Inr 0, acc'), t)"
  shows "t = s \<and> acc' = acc \<and> list_all (pod_done name) ps"
  using assms
proof (induction ps)
  case (Cons p ps)
  have pos: "run_state (drain_pods E name ps a (Suc 0)) s' \<noteq> ((Inr 0, acc'), t)" for a s'
    using drain_pods_none_left [of E name ps a "Suc 0" s' 0 acc' t] by auto
  show ?case using Cons pos
    by (auto simp: pod_done_def split: if_splits option.splits prod.splits)
qed simp

lemma volumes_gone_True:
  assumes "run_state (volumes_gone E name) s = (Inr True, t)"
  shows "\<exists>n att. hist t = CListAttachments (Inr att) # CGetNode name (Inr n) # hist s \<and>
    node_VolumesInUse n = [] \<and> \<not> list_ex (\<lambda>nodeName. nodeName = name) att"
  using assms by (auto simp: volumes_gone_def GetNode_def ListAttachments_def split: sum.splits if_splits)

lemma drain_poll_triple:
  "triple (calls_since h0 (drain_inv name acc)) (drain_poll E name acc)
     (\<lambda>(r, acc') s. case r of
        Inl e \<Rightarrow> calls_since h0 (drain_log name) s
      | Inr done \<Rightarrow>
          if done then calls_since h0 (\<lambda>cs. drain_log name cs \<and> cordoned name cs \<and> drained name cs) s
          else calls_since h0 (drain_inv name acc') s)"
proof (rule tripleI, clarify)
  fix s r acc' t
  assume I: "calls_since h0 (drain_inv name acc) s"
    and run: "run_state (drain_poll E name acc) s = ((r, acc'), t)"
  let ?J = "calls_since h0 (drain_log name)"
  obtain l s1 where list: "run_state (ListPods E (PodsOnNode name)) s = (l, s1)" by fastforce
  have h1: "hist s1 = CListPods (PodsOnNode name) l # hist s" using list by (auto simp: ListPods_def)
  show "case r of Inl e \<Rightarrow> ?J t | Inr done \<Rightarrow>
      if done then calls_since h0 (\<lambda>cs. drain_log name cs \<and> cordoned name cs \<and> drained name cs) t
      else calls_since h0 (drain_inv name acc') t"
  proof (cases l)
    case (Inl err)
    have "?J s1" by (rule calls_since_Cons [OF I h1]) (simp add: drain_inv_def)
    then show ?thesis using run list Inl by (auto simp: drain_poll_def)
  next
    case (Inr pods)
    obtain d acc2 s2 where pods: "run_state (drain_pods E name pods acc 0) s1 = ((d, acc2), s2)"
      by (metis prod.collapse)
    have I1: "calls_since h0 (\<lambda>cs. drain_inv name acc cs \<and> set pods \<subseteq> set (last_pods name cs)) s1"
      by (rule calls_since_Cons [OF I h1]) (simp add: Inr drain_inv_reads)
    have I2: "calls_since h0 (drain_inv name acc2) s2" by (rule drain_pods_inv [OF pods I1])
    then have J2: "?J s2" by (auto elim: calls_since_mono simp: drain_inv_def)
    show ?thesis
    proof (cases "d = Inr 0")
      case False
      then show ?thesis using run list Inr pods I2 J2
        by (auto simp: drain_poll_def split: sum.splits if_splits)
    next
      case True
      note zero = drain_pods_zero [OF pods [unfolded True]]
      obtain v s3 where gone: "run_state (volumes_gone E name) s2 = (v, s3)" by fastforce
      have res: "r = v" "acc' = acc2" "t = s3"
        using run list Inr pods True gone by (auto simp: drain_poll_def)
      have I3: "calls_since h0 (drain_inv name acc2) s3"
        by (rule calls_since_reading [OF volumes_gone_reading gone I2]) (rule drain_inv_reads)
      then have J3: "?J s3" by (auto elim: calls_since_mono simp: drain_inv_def)
      have "calls_since h0 (\<lambda>cs. drain_log name cs \<and> cordoned name cs \<and> drained name cs) s3"
        if v: "v = Inr True"
      proof -
        obtain n att where h3: "hist s3 = CListAttachments (Inr att) # CGetNode name (Inr n) # hist s2"
          "node_VolumesInUse n = []" "\<not> list_ex (\<lambda>nodeName. nodeName = name) att"
          using volumes_gone_True gone v by blast
        obtain cs where "hist s = cs @ h0" "drain_inv name acc cs" using I by (auto simp: calls_since_def)
        then show ?thesis using h3 h1 zero Inr
          by (auto simp: calls_since_def drain_inv_def)
      qed
      then show ?thesis using res I3 J3 by (auto split: sum.split)
    qed
  qed
qed

lemma cordon_body_triple:
  "triple (calls_since h0 (\<lambda>cs. drain_log name cs \<and> (\<forall>ns n uid. \<not> evicted_in ns n uid cs)))
     (cordon_body E name)
     (\<lambda>r s. if r = None then calls_since h0 (drain_inv name []) s
            else calls_since h0 (\<lambda>cs. drain_log name cs \<and> (\<forall>ns n uid. \<not> evicted_in ns n uid cs)) s)"
  by (rule tripleI)
    (fastforce simp: cordon_body_def GetNode_def UpdateNode_def calls_since_def drain_inv_def cordon_at_def
      accepted_keys_def split: sum.splits)

text \<open>The two facts the properties of the drain rest on.\<close>

lemma CordonAndDrain_since:
  assumes "client_go E" and "run_state (CordonAndDrain E cfg name) s = (r, t)"
  shows "calls_since (hist s) (drain_log name) t"
    and "r = None \<Longrightarrow> \<not> DryRun cfg \<Longrightarrow>
      calls_since (hist s) (\<lambda>cs. drain_log name cs \<and> cordoned name cs \<and> drained name cs) t"
proof -
  let ?h0 = "hist s" and ?J = "calls_since (hist s) (drain_log name)"
  let ?K = "calls_since (hist s) (\<lambda>cs. drain_log name cs \<and> (\<forall>ns n uid. \<not> evicted_in ns n uid cs))"
  let ?Q = "calls_since (hist s) (\<lambda>cs. drain_log name cs \<and> cordoned name cs \<and> drained name cs)"
  obtain l s1 where list: "run_state (ListPods E (PodsOnNode name)) s = (l, s1)" by fastforce
  have K1: "?K s1" using list by (auto simp: ListPods_def calls_since_def)
  obtain c s2 where cordon: "run_state (env_OnError E IsConflict (cordon_body E name)) s1 = (c, s2)"
    by fastforce
  have c: "if c = None then calls_since ?h0 (drain_inv name []) s2 else ?K s2"
    by (rule tripleD [OF retry_triple [OF assms(1) cordon_body_triple] cordon K1])
      (auto elim!: calls_since_Cons)
  obtain p s3 where poll: "run_state (env_Poll E (drain_poll E name) []) s2 = (p, s3)" by fastforce
  have p: "if p = None then ?Q s3 else ?J s3" if "c = None"
    by (rule tripleD [OF poll_triple [OF assms(1) drain_poll_triple] poll])
      (use c that in \<open>auto elim!: calls_since_Cons calls_since_mono simp: drain_inv_reads, simp add: drain_inv_def\<close>)
  have J: "?K u \<Longrightarrow> ?J u" "?Q u \<Longrightarrow> ?J u" for u by (auto elim: calls_since_mono)
  have cases: "t = s1 \<or> c \<noteq> None \<and> t = s2 \<and> r = c \<or> c = None \<and> t = s3 \<and> r = p"
    using assms(2) list cordon poll
    by (auto simp: CordonAndDrain_def split: sum.splits option.splits if_splits)
  show "?J t" using cases K1 c p J by (auto split: if_splits)
  show "?Q t" if "r = None" "\<not> DryRun cfg"
  proof -
    have "t = s3 \<and> p = None \<and> c = None"
      using assms(2) that list cordon poll
      by (auto simp: CordonAndDrain_def split: sum.splits option.splits)
    then show ?thesis using p by simp
  qed
qed

section \<open>Properties\<close>

text \<open>C8: every write of a drain is a cordoning update or an eviction, and an eviction is made only
  after the node was cordoned, of a pod of the latest listing that sits on the node, blocks
  nothing, is neither a mirror nor a daemon pod and is not terminating, and never again once
  accepted.\<close>

theorem drain_protocol:
  assumes "client_go E" and "run_state (CordonAndDrain E cfg name) s = (r, t)"
  shows "\<exists>cs. hist t = cs @ hist s \<and> drain_log name cs"
  using CordonAndDrain_since(1) [OF assms] by (simp add: calls_since_def)

theorem drain_protocol_witness:
  "\<exists>cs. hist (snd (run_state (CordonAndDrain (store_env sample_cluster) sample_config ''n1'') init_sys)) =
     cs @ hist init_sys \<and> drain_log ''n1'' cs"
  by (rule drain_protocol [OF store_env_client_go prod.collapse [symmetric]])

text \<open>C7: a drain that reports success outside dry-run has cordoned the node, and its last three
  calls showed that no pod is left to wait for, that no volume is in use on the node and that no
  volume attachment names it.\<close>

theorem drain_success:
  assumes "client_go E" and "\<not> DryRun cfg" and "run_state (CordonAndDrain E cfg name) s = (None, t)"
  shows "\<exists>cs. hist t = cs @ hist s \<and> cordoned name cs \<and> drained name cs"
  using CordonAndDrain_since(2) [OF assms(1,3)] assms(2) by (auto simp: calls_since_def)

theorem drain_success_witness:
  "\<exists>cs. hist (snd (run_state (CordonAndDrain (store_env sample_cluster) sample_config ''n1'') init_sys)) =
     cs @ hist init_sys \<and> cordoned ''n1'' cs \<and> drained ''n1'' cs"
proof -
  let ?run = "run_state (CordonAndDrain (store_env sample_cluster) sample_config ''n1'') init_sys"
  have ok: "fst ?run = None" by code_simp
  have "\<not> DryRun sample_config" by (simp add: sample_config_def)
  then show ?thesis by (rule drain_success [OF store_env_client_go _ run_result [OF ok]])
qed

text \<open>When the first listing holds a pod that blocks the drain, the drain fails with an error
  right there: nothing has been written, the node is not even cordoned.\<close>

theorem drain_refused:
  assumes "run_state (ListPods E (PodsOnNode name)) s = (Inr pods, s1)"
    and "p \<in> set pods" and "drainBlocker p \<noteq> None"
  shows "\<exists>err. run_state (CordonAndDrain E cfg name) s = (Some err, s1)"
proof -
  have "first_blocker pods \<noteq> None" using assms(2,3) by (auto simp: first_blocker_None)
  then show ?thesis using assms(1) by (auto simp: CordonAndDrain_def)
qed

theorem drain_refused_witness:
  "\<exists>err. fst (run_state (CordonAndDrain
     (store_env (sample_cluster\<lparr>cl_pods := [sample_pod ''batch'' ''n1'' (Some ''Job'')]\<rparr>)) sample_config ''n1'')
     init_sys) = Some err"
proof -
  let ?p = "sample_pod ''batch'' ''n1'' (Some ''Job'')"
  let ?E = "store_env (sample_cluster\<lparr>cl_pods := [?p]\<rparr>)"
  have list: "run_state (ListPods ?E (PodsOnNode ''n1'')) init_sys =
      (Inr [?p], init_sys\<lparr>hist := [CListPods (PodsOnNode ''n1'') (Inr [?p])]\<rparr>)"
    by (simp add: ListPods_def store_env_def init_sys_def sample_pod_def)
  have block: "drainBlocker ?p \<noteq> None"
    by (simp add: drainBlocker_def sample_pod_def map_get_def skipDrain_def)
  have "\<exists>err. run_state (CordonAndDrain ?E sample_config ''n1'') init_sys =
      (Some err, init_sys\<lparr>hist := [CListPods (PodsOnNode ''n1'') (Inr [?p])]\<rparr>)"
    by (rule drain_refused [OF list _ block]) simp
  then show ?thesis by auto
qed

text \<open>Which running pods a drain may evict or pass over: none that opts out of eviction; a
  mirror or daemon pod is passed over; any other must have a controller that is not a Job, and no
  container of it may limit an extended resource. Finished pods never block.\<close>

theorem drainBlocker_spec:
  "drainBlocker p = None \<longleftrightarrow>
     pod_Phase p \<in> {''Succeeded'', ''Failed''} \<or>
     pod_Annotations p ''cluster-autoscaler.kubernetes.io/safe-to-evict'' \<noteq> Some ''false'' \<and>
     (pod_Annotations p ''kubernetes.io/config.mirror'' \<noteq> None \<or> pod_Controller p = Some ''DaemonSet'' \<or>
      pod_Controller p \<notin> {None, Some ''Job''} \<and>
      (\<forall>c \<in> set (pod_Containers p) \<union> set (pod_InitContainers p). \<forall>(name, q) \<in> set (c_Limits c).
         CHR ''/'' \<in> set name \<longrightarrow> q_IsZero q))"
  by (auto simp: drainBlocker_def skipDrain_def map_get_def extended_limit_def list_ex_iff
      split: option.splits if_splits)

theorem drainBlocker_spec_witness:
  "drainBlocker (sample_pod ''web'' ''n1'' (Some ''ReplicaSet'')) = None \<and>
   drainBlocker (sample_pod ''batch'' ''n1'' (Some ''Job'')) \<noteq> None"
  unfolding drainBlocker_spec by (simp add: sample_pod_def)

end
