(* ===== verification/Go_Float.thy ===== *)
theory Go_Float
  imports Complex_Main "HOL-Library.Log_Nat"
begin

text \<open>
  \<^verbatim>\<open>float64\<close> arithmetic. A finite \<^verbatim>\<open>float64\<close> is the real number it denotes, and every
  operation is the exact one followed by \<open>fl\<close>, rounding to the nearest binary64 value, ties to
  even, subnormals included. NaN and the infinities do not occur: the loads are decoded from
  JSON numbers and divided by a non-zero count, and no value comes near the overflow limit.
\<close>

section \<open>Rounding\<close>

definition round_even :: "real \<Rightarrow> int" where
  "round_even y =
     (let f = \<lfloor>y\<rfloor>; d = y - of_int f
      in if d < 1 / 2 then f else if d > 1 / 2 then f + 1 else if even f then f else f + 1)"

definition float_exp :: "real \<Rightarrow> int" where
  "float_exp x = max (\<lfloor>log 2 \<bar>x\<bar>\<rfloor> - 52) (- 1074)"

definition ulp :: "real \<Rightarrow> real" where
  "ulp x = 2 powi float_exp x"

definition fl :: "real \<Rightarrow> real" where
  "fl x = (if x = 0 then 0 else sgn x * (of_int (round_even (\<bar>x\<bar> / ulp x)) * ulp x))"

text \<open>The binary exponent by integer arithmetic, which the code generator and the simplifier run.\<close>

lemma floor_log_code:
  assumes "0 < x"
  shows "\<lfloor>log 2 x\<rfloor> = (if 1 \<le> x then bitlen \<lfloor>x\<rfloor> - 1 else - bitlen (\<lceil>1 / x\<rceil> - 1))"
proof (cases "1 \<le> x")
  case True
  define k where "k = \<lfloor>x\<rfloor>"
  have k: "0 < k" "of_int k \<le> x" "x < of_int k + 1" using True by (auto simp: k_def)
  obtain n where n: "bitlen k = int n + 1"
    using bitlen_bounds [OF k(1)] bitlen_nonneg [of k] k(1)
    by (metis bitlen_eq_zero_iff add.commute int_nat_eq le_add_diff_inverse2 linorder_not_le nat_0_iff
        order_le_less zle_add1_eq_le zless_add1_eq add_0 zle_diff1_eq)
  have b: "2 ^ n \<le> k" "k < 2 ^ (n + 1)" using bitlen_bounds [OF k(1)] n by (simp_all add: nat_add_distrib)
  have "(2::real) ^ n \<le> of_int k" using b(1) by (metis of_int_le_iff of_int_numeral of_int_power)
  moreover have "of_int (k + 1) \<le> (2::real) ^ (n + 1)"
    using b(2) by (metis of_int_le_iff of_int_numeral of_int_power zless_imp_add1_zle)
  ultimately have "2 ^ n \<le> x" "x < 2 ^ (n + 1)" using k by linarith+
  then have "\<lfloor>log 2 x\<rfloor> = int n"
    using assms by (subst floor_log_eq_powr_iff) (auto simp: powr_realpow powr_add)
  then show ?thesis using True n by (simp add: k_def)
next
  case False
  define m where "m = \<lceil>1 / x\<rceil> - 1"
  have "1 < 1 / x" using False assms by simp
  then have m: "0 < m" "of_int m < 1 / x" "1 / x \<le> of_int m + 1"
    by (auto simp: m_def) linarith+
  obtain n where n: "bitlen m = int n + 1"
    using bitlen_nonneg [of m] m(1) by (metis bitlen_eq_zero_iff add.commute int_nat_eq le_add_diff_inverse2
        linorder_not_le nat_0_iff order_le_less zle_add1_eq_le add_0 zle_diff1_eq)
  have b: "2 ^ n \<le> m" "m < 2 ^ (n + 1)" using bitlen_bounds [OF m(1)] n by (simp_all add: nat_add_distrib)
  have lo: "(2::real) ^ n \<le> of_int m" using b(1) by (metis of_int_le_iff of_int_numeral of_int_power)
  have hi: "of_int (m + 1) \<le> (2::real) ^ (n + 1)"
    using b(2) by (metis of_int_le_iff of_int_numeral of_int_power zless_imp_add1_zle)
  have "2 ^ n < 1 / x" "1 / x \<le> 2 ^ (n + 1)" using lo hi m by linarith+
  then have "x < 1 / 2 ^ n" "1 / 2 ^ (n + 1) \<le> x" using assms by (simp_all add: field_simps)
  then have "\<lfloor>log 2 x\<rfloor> = - int n - 1"
    using assms by (subst floor_log_eq_powr_iff) (auto simp: powr_minus powr_realpow powr_diff field_simps)
  then show ?thesis using False n by (simp add: m_def)
qed

lemma float_exp_code [code]:
  "float_exp x = (let y = \<bar>x\<bar> in
     max ((if y = 0 then 0 else if 1 \<le> y then bitlen \<lfloor>y\<rfloor> - 1 else - bitlen (\<lceil>1 / y\<rceil> - 1)) - 52) (- 1074))"
  using floor_log_code [of "\<bar>x\<bar>"] by (cases "x = 0") (simp_all add: float_exp_def log_def Let_def)

lemma ulp_pos [simp]: "0 < ulp x" by (simp add: ulp_def)
lemma ulp_uminus [simp]: "ulp (- x) = ulp x" by (simp add: ulp_def float_exp_def)
lemma fl_0 [simp]: "fl 0 = 0" by (simp add: fl_def)
lemma fl_uminus [simp]: "fl (- x) = - fl x" by (simp add: fl_def)

lemma round_even_bounds: "\<lfloor>y\<rfloor> \<le> round_even y" "round_even y \<le> \<lfloor>y\<rfloor> + 1"
  by (auto simp: round_even_def Let_def)

lemma round_even_of_int [simp]: "round_even (of_int k) = k"
  by (simp add: round_even_def)

lemma round_even_ge: "of_int k \<le> y \<Longrightarrow> k \<le> round_even y"
  using round_even_bounds(1) [of y] by (simp add: le_floor_iff [symmetric])

lemma round_even_le:
  assumes "y \<le> of_int k"
  shows "round_even y \<le> k"
proof (cases "\<lfloor>y\<rfloor> = k")
  case True
  then have "y = of_int k" using assms of_int_floor_le [of y] by linarith
  then show ?thesis by simp
next
  case False
  then have "\<lfloor>y\<rfloor> < k" using assms floor_mono [OF assms] by simp
  then show ?thesis using round_even_bounds(2) [of y] by linarith
qed

lemma round_even_mono:
  assumes "y \<le> z"
  shows "round_even y \<le> round_even z"
proof (cases "\<lfloor>y\<rfloor> = \<lfloor>z\<rfloor>")
  case True
  then show ?thesis using assms by (auto simp: round_even_def Let_def)
next
  case False
  then have "\<lfloor>y\<rfloor> + 1 \<le> \<lfloor>z\<rfloor>" using floor_mono [OF assms] by linarith
  then show ?thesis using round_even_bounds(2) [of y] round_even_bounds(1) [of z] by linarith
qed

text \<open>A multiple of the spacing at \<open>x\<close> on one side of \<open>x\<close> stays on that side of \<open>fl x\<close>.\<close>

lemma fl_pos_le_grid:
  assumes "0 < x" and "x \<le> of_int k * ulp x"
  shows "fl x \<le> of_int k * ulp x"
proof -
  have "x / ulp x \<le> of_int k" using assms by (simp add: divide_le_eq)
  then show ?thesis using assms by (simp add: fl_def round_even_le)
qed

lemma fl_pos_ge_grid:
  assumes "0 < x" and "of_int k * ulp x \<le> x"
  shows "of_int k * ulp x \<le> fl x"
proof -
  have "of_int k \<le> x / ulp x" using assms by (simp add: le_divide_eq)
  then show ?thesis using assms by (simp add: fl_def round_even_ge)
qed

lemma fl_nonneg: "0 \<le> x \<Longrightarrow> 0 \<le> fl x"
  using fl_pos_ge_grid [of x 0] by (cases "x = 0") auto

lemma binade:
  assumes "0 < x"
  shows "2 powi \<lfloor>log 2 x\<rfloor> \<le> x" and "x < 2 powi (\<lfloor>log 2 x\<rfloor> + 1)"
  using floor_log_eq_powr_iff [of x 2 "\<lfloor>log 2 x\<rfloor>"] assms
    powr_real_of_int' [of 2 "\<lfloor>log 2 x\<rfloor> + 1"] powr_real_of_int' [of 2 "\<lfloor>log 2 x\<rfloor>"]
  by (simp_all add: add.commute)

lemma powi_multiple: "e \<le> e' \<Longrightarrow> (2::real) powi e' = of_int (2 ^ nat (e' - e)) * 2 powi e"
  by (simp add: power_int_add [symmetric] flip: power_int_of_nat)

lemma fl_mono_pos:
  assumes "0 < x" and "x \<le> y"
  shows "fl x \<le> fl y"
proof (cases "float_exp x = float_exp y")
  case True
  then have "x / ulp x \<le> y / ulp y" using assms by (simp add: ulp_def divide_right_mono)
  then have "round_even (x / ulp x) \<le> round_even (y / ulp y)" by (rule round_even_mono)
  then show ?thesis using assms True by (simp add: fl_def ulp_def)
next
  case False
  let ?e = "\<lfloor>log 2 y\<rfloor>"
  have "\<lfloor>log 2 x\<rfloor> \<le> ?e" using assms by (intro floor_mono) simp
  then have e: "float_exp y = ?e - 52" and lt: "\<lfloor>log 2 x\<rfloor> < ?e" and ex: "float_exp x \<le> ?e"
    using False assms unfolding float_exp_def by (simp_all del: le_floor_iff, linarith+)
  have "2 powi ?e \<le> y" using assms by (intro binade) simp
  then have "2 powi ?e \<le> fl y"
    using fl_pos_ge_grid [of y "2 ^ 52"] powi_multiple [of "?e - 52" ?e] assms
    by (simp add: ulp_def e)
  moreover have "x \<le> 2 powi ?e"
    using binade(2) [OF assms(1)] power_int_increasing [of "\<lfloor>log 2 x\<rfloor> + 1" ?e "2::real"] lt by simp
  then have "fl x \<le> 2 powi ?e"
    using fl_pos_le_grid [OF assms(1), of "2 ^ nat (?e - float_exp x)"] powi_multiple [OF ex]
    by (simp add: ulp_def)
  ultimately show ?thesis by linarith
qed

theorem fl_mono: "x \<le> y \<Longrightarrow> fl x \<le> fl y"
proof -
  assume le: "x \<le> y"
  consider "0 < x" | "x \<le> 0" "0 \<le> y" | "y < 0" using le by linarith
  then show ?thesis
  proof cases
    case 1
    then show ?thesis using le by (rule fl_mono_pos)
  next
    case 2
    then show ?thesis using fl_nonneg [of y] fl_nonneg [of "- x"] by simp
  next
    case 3
    then show ?thesis using fl_mono_pos [of "- y" "- x"] le by simp
  qed
qed

text \<open>Values with a 53-bit significand are not changed.\<close>

lemma round_even_grid: "x = of_int k * u \<Longrightarrow> 0 < u \<Longrightarrow> of_int (round_even (x / u)) * u = (x :: real)"
  by simp

lemma fl_exact_pos:
  assumes "0 < m" and "m < 2 ^ 53" and "- 1074 \<le> e"
  shows "fl (of_int m * 2 powi e) = of_int m * 2 powi e"
proof -
  let ?x = "of_int m * 2 powi e :: real"
  have x: "0 < ?x" using assms by simp
  have "?x < 2 powi (e + 53)"
  proof -
    have "of_int m < (of_int (2 ^ 53) :: real)" using assms(2) by (rule iffD2 [OF of_int_less_iff])
    then have "?x < of_int (2 ^ 53) * 2 powi e" by (rule mult_strict_right_mono) simp
    then show ?thesis by (simp add: power_int_add)
  qed
  then have "2 powi \<lfloor>log 2 ?x\<rfloor> < (2::real) powi (e + 53)" using binade(1) [OF x] by linarith
  then have "\<lfloor>log 2 ?x\<rfloor> < e + 53"
    using power_int_increasing [of "e + 53" "\<lfloor>log 2 ?x\<rfloor>" "2::real"] by (meson not_le one_le_numeral)
  then have le: "float_exp ?x \<le> e" using assms x by (simp add: float_exp_def)
  have "?x = of_int (m * 2 ^ nat (e - float_exp ?x)) * ulp ?x"
    using powi_multiple [OF le] unfolding ulp_def by simp
  from round_even_grid [OF this ulp_pos] show ?thesis using x by (simp add: fl_def)
qed

lemma fl_of_int:
  assumes "\<bar>k\<bar> < 2 ^ 53"
  shows "fl (of_int k) = of_int k"
proof -
  consider "k = 0" | "0 < k" | "0 < - k" by linarith
  then show ?thesis
  proof cases
    case 3
    then have "fl (of_int (- k)) = of_int (- k)" using fl_exact_pos [of "- k" 0] assms by simp
    then show ?thesis by simp
  qed (use fl_exact_pos [of k 0] assms in auto)
qed

lemma fl_of_nat: "n < 2 ^ 53 \<Longrightarrow> fl (of_nat n) = of_nat n"
  using fl_of_int [of "int n"] by simp

end
