(* ===== verification/Cluster_Load.thy ===== *)
theory Cluster_Load
  imports Node_Ops Go_Float "HOL-Library.AList"
begin

text \<open>
  Load averages, \<^verbatim>\<open>pkg/strategy/load_average_utils.go\<close>: fetching the normalised load of a node
  from its metrics pod, collecting the loads of the cluster, and the statistics over them in
  \<^verbatim>\<open>float64\<close> arithmetic (every operation rounds).
\<close>

section \<open>Statistics\<close>

datatype eval_mode = ClusterEvalNone | ClusterEvalAverage | ClusterEvalMedian | ClusterEvalP90 | ClusterEvalP75

definition average :: "real list \<Rightarrow> real" where
  "average values =
    (if values = [] then 0
     else fl (foldl (\<lambda>sum v. fl (sum + v)) 0 values / fl (of_nat (length values))))"

text \<open>
  \<open>int(pos)\<close> truncates towards zero, and \<open>pos\<close> is never negative. Both indices into the
  sorted copy are in range (\<open>percentile_indices\<close> below), so \<open>!\<close> never leaves the list.
\<close>

definition percentile_pos :: "nat \<Rightarrow> real \<Rightarrow> real" where
  "percentile_pos n p = fl (p * fl (of_int (int n - 1)))"

definition percentile :: "real list \<Rightarrow> real \<Rightarrow> real" where
  "percentile values p =
    (if values = [] then 0
     else
       let sorted_vs = sort values;
           pos = percentile_pos (length sorted_vs) p;
           lower = nat \<lfloor>pos\<rfloor>;
           upper = lower + 1
       in if upper \<ge> length sorted_vs then sorted_vs ! lower
          else
            let weight = fl (pos - fl (of_nat lower))
            in fl (fl (sorted_vs ! lower * fl (1 - weight)) + fl (sorted_vs ! upper * weight)))"

definition median :: "real list \<Rightarrow> real" where "median values = percentile values (1 / 2)"
definition p90 :: "real list \<Rightarrow> real" where "p90 values = percentile values (fl (9 / 10))"
definition p75 :: "real list \<Rightarrow> real" where "p75 values = percentile values (3 / 4)"

definition evalFuncs :: "eval_mode \<Rightarrow> (real list \<Rightarrow> real) option" where
  "evalFuncs mode =
    (case mode of
       ClusterEvalAverage \<Rightarrow> Some average
     | ClusterEvalMedian \<Rightarrow> Some median
     | ClusterEvalP90 \<Rightarrow> Some p90
     | ClusterEvalP75 \<Rightarrow> Some p75
     | ClusterEvalNone \<Rightarrow> None)"

definition EvaluateAggregate :: "real list \<Rightarrow> eval_mode \<Rightarrow> real" where
  "EvaluateAggregate loads mode =
    (case evalFuncs mode of Some fn \<Rightarrow> fn loads | None \<Rightarrow> average loads)"

definition ParseClusterEvalMode :: "string \<Rightarrow> eval_mode" where
  "ParseClusterEvalMode mode =
    (if mode = ''median'' then ClusterEvalMedian
     else if mode = ''p90'' then ClusterEvalP90
     else if mode = ''p75'' then ClusterEvalP75
     else ClusterEvalAverage)"

section \<open>Fetching loads\<close>

record cluster_load_utils =
  u_Namespace :: string
  u_PodLabel :: string
  u_HTTPPort :: int
  u_HTTPTimeout :: duration

definition NewClusterLoadUtils :: "string \<Rightarrow> string \<Rightarrow> int \<Rightarrow> duration \<Rightarrow> cluster_load_utils" where
  "NewClusterLoadUtils ns label port timeout =
     \<lparr>u_Namespace = ns, u_PodLabel = label, u_HTTPPort = port, u_HTTPTimeout = timeout\<rparr>"

definition findMetricsPodForNode :: "env \<Rightarrow> cluster_load_utils \<Rightarrow> string \<Rightarrow> (error + pod) io" where
  "findMetricsPodForNode E u nodeName = do {
     r \<leftarrow> ListPods E (PodsLabelled (u_Namespace u) (u_PodLabel u));
     case r of
       Inl err \<Rightarrow> ret (Inl err)
     | Inr pods \<Rightarrow>
         (case find (\<lambda>p. pod_NodeName p = nodeName \<and> pod_PodIP p \<noteq> '''') pods of
            Some p \<Rightarrow> ret (Inr p)
          | None \<Rightarrow> ret (Inl (Msg ''no metrics pod for node'')))
   }"

definition load_url :: "string \<Rightarrow> int \<Rightarrow> string" where
  "load_url ip port = ''http://'' @ ip @ '':'' @ show_int port @ ''/load''"

definition FetchNormalizedLoad :: "env \<Rightarrow> cluster_load_utils \<Rightarrow> string \<Rightarrow> (error + real) io" where
  "FetchNormalizedLoad E u nodeName = do {
     f \<leftarrow> findMetricsPodForNode E u nodeName;
     case f of
       Inl err \<Rightarrow> ret (Inl (Wrapped ''finding metrics pod'' err))
     | Inr p \<Rightarrow> do {
         r \<leftarrow> Http E ''GET'' (load_url (pod_PodIP p) (u_HTTPPort u));
         case r of
           Inl err \<Rightarrow> ret (Inl (Wrapped ''calling load endpoint'' err))
         | Inr resp \<Rightarrow>
             if resp_Status resp \<noteq> 200 then ret (Inl (Msg ''unexpected status''))
             else
               (case resp_load resp of
                  None \<Rightarrow> ret (Inl (Msg ''decode failed''))
                | Some (load15, cpuCount) \<Rightarrow>
                    if cpuCount = 0 then ret (Inl (Msg ''CPUCount is zero''))
                    else ret (Inr (fl (load15 / fl (of_int cpuCount)))))
       }
   }"

text \<open>
  \<^verbatim>\<open>FetchClusterLoads\<close> returns the loads and a map from names to loads; the first failing
  node aborts it.
\<close>

fun fetch_loads :: "env \<Rightarrow> cluster_load_utils \<Rightarrow> string list \<Rightarrow> real list \<Rightarrow> (string \<rightharpoonup> real) \<Rightarrow>
    (error + real list \<times> (string \<rightharpoonup> real)) io" where
  "fetch_loads E u [] loads nodeToLoad = ret (Inr (loads, nodeToLoad))"
| "fetch_loads E u (name # names) loads nodeToLoad = do {
     r \<leftarrow> FetchNormalizedLoad E u name;
     case r of
       Inl err \<Rightarrow> ret (Inl (Wrapped ''incomplete cluster load metrics'' err))
     | Inr load \<Rightarrow> fetch_loads E u names (loads @ [load]) (nodeToLoad(name \<mapsto> load))
   }"

definition FetchClusterLoads ::
  "env \<Rightarrow> cluster_load_utils \<Rightarrow> string list \<Rightarrow> (error + real list \<times> (string \<rightharpoonup> real)) io" where
  "FetchClusterLoads E u nodeNames = fetch_loads E u nodeNames [] Map.empty"

text \<open>The loop body of \<^verbatim>\<open>GetEligibleClusterLoads\<close>.\<close>

definition load_eligible :: "(string \<times> string) list \<Rightarrow> string \<Rightarrow> node \<Rightarrow> bool" where
  "load_eligible ignore exclude n =
    (if node_Annotations n AnnotationPoweredOff \<noteq> None then False
     else node_Name n \<noteq> exclude \<and> \<not> ShouldIgnoreNodeDueToLabels n ignore)"

definition GetEligibleClusterLoads ::
  "env \<Rightarrow> cluster_load_utils \<Rightarrow> (string \<times> string) list \<Rightarrow> string \<Rightarrow>
   (error + real list \<times> (string \<rightharpoonup> real)) io" where
  "GetEligibleClusterLoads E u ignore exclude = do {
     r \<leftarrow> ListNodes E;
     case r of
       Inl err \<Rightarrow> ret (Inl err)
     | Inr nodes \<Rightarrow> FetchClusterLoads E u (map node_Name (filter (load_eligible ignore exclude) nodes))
   }"

definition GetClusterAggregateLoad ::
  "env \<Rightarrow> cluster_load_utils \<Rightarrow> (string \<times> string) list \<Rightarrow> string \<Rightarrow> real option \<Rightarrow> eval_mode \<Rightarrow>
   (error + real) io" where
  "GetClusterAggregateLoad E u ignoreLabels excludeNode override mode =
    (case override of
       Some v \<Rightarrow> ret (Inr v)
     | None \<Rightarrow> do {
         r \<leftarrow> GetEligibleClusterLoads E u ignoreLabels excludeNode;
         case r of
           Inl err \<Rightarrow> ret (Inl (Msg ''no cluster load data''))
         | Inr (loads, nodeLoads) \<Rightarrow>
             if loads = [] then ret (Inl (Msg ''no cluster load data''))
             else ret (Inr (EvaluateAggregate loads mode))
       })"

text \<open>\<^verbatim>\<open>maps.Copy(dst, src)\<close>, and the labels left out of the load math.\<close>

definition maps_Copy :: "(string \<times> string) list \<Rightarrow> (string \<times> string) list \<Rightarrow> (string \<times> string) list" where
  "maps_Copy dst src = foldl (\<lambda>m (k, v). AList.update k v m) dst src"

section \<open>Fetching loads only reads\<close>

lemma load_reading:
  "state_io_rel reading (findMetricsPodForNode E u nodeName)"
  "state_io_rel reading (FetchNormalizedLoad E u nodeName)"
proof -
  show pod: "state_io_rel reading (findMetricsPodForNode E u nodeName)"
    unfolding findMetricsPodForNode_def by (intro frame_intro)
  show "state_io_rel reading (FetchNormalizedLoad E u nodeName)"
    unfolding FetchNormalizedLoad_def by (intro frame_intro pod)
qed

lemma fetch_loads_reading: "state_io_rel reading (fetch_loads E u names loads nodeToLoad)"
  by (induction names arbitrary: loads nodeToLoad) (auto intro!: frame_intro load_reading)

lemma aggregate_reading:
  "state_io_rel reading (GetClusterAggregateLoad E u ignoreLabels excludeNode override mode)"
  unfolding GetClusterAggregateLoad_def GetEligibleClusterLoads_def FetchClusterLoads_def
  by (intro frame_intro fetch_loads_reading)

lemmas [frame_intro] = load_reading aggregate_reading

end
