(* ===== verification/Strategies.thy ===== *)
theory Strategies
  imports Cluster_Load
begin

text \<open>
  The scaling strategies of \<^verbatim>\<open>pkg/strategy\<close>. A Go interface value is a record of its methods;
  each strategy struct is a record, its method a definition, and the interface value built from
  it carries the method. The contract every strategy keeps towards the reconciler (it only
  reads, and leaves the tracker alone) is the locale \<open>advisor\<close>, interpreted below.
\<close>

section \<open>The interfaces\<close>

record scale_down_strategy =
  sd_Name :: string
  sd_ShouldScaleDown :: "string \<Rightarrow> (error + bool) io"

record scale_up_strategy =
  su_Name :: string
  su_ShouldScaleUp :: "(error + string \<times> bool) io"

fun strings_Join :: "string list \<Rightarrow> string \<Rightarrow> string" where
  "strings_Join [] sep = ''''"
| "strings_Join [x] sep = x"
| "strings_Join (x # xs) sep = x @ sep @ strings_Join xs sep"

section \<open>AlwaysScaleDown and the conjunction of strategies\<close>

definition AlwaysScaleDown :: scale_down_strategy where
  "AlwaysScaleDown = \<lparr>sd_Name = ''AlwaysTrue'', sd_ShouldScaleDown = (\<lambda>nodeName. ret (Inr True))\<rparr>"

definition MultiStrategy_Name :: "scale_down_strategy list \<Rightarrow> string" where
  "MultiStrategy_Name strategies =
     ''MultiStrategy('' @ strings_Join (map sd_Name strategies) '', '' @ '')''"

fun MultiStrategy_ShouldScaleDown :: "scale_down_strategy list \<Rightarrow> string \<Rightarrow> (error + bool) io" where
  "MultiStrategy_ShouldScaleDown [] nodeName = ret (Inr True)"
| "MultiStrategy_ShouldScaleDown (s # strategies) nodeName = do {
     r \<leftarrow> sd_ShouldScaleDown s nodeName;
     case r of
       Inl err \<Rightarrow> ret (Inl err)
     | Inr ok \<Rightarrow>
         if \<not> ok then ret (Inr False)
         else MultiStrategy_ShouldScaleDown strategies nodeName
   }"

definition MultiStrategy :: "scale_down_strategy list \<Rightarrow> scale_down_strategy" where
  "MultiStrategy strategies =
     \<lparr>sd_Name = MultiStrategy_Name strategies,
      sd_ShouldScaleDown = MultiStrategy_ShouldScaleDown strategies\<rparr>"

section \<open>The first strategy that wants to scale up\<close>

definition MultiUpStrategy_Name :: "scale_up_strategy list \<Rightarrow> string" where
  "MultiUpStrategy_Name strategies =
     ''MultiUpStrategy('' @ strings_Join (map su_Name strategies) '', '' @ '')''"

fun MultiUpStrategy_ShouldScaleUp :: "scale_up_strategy list \<Rightarrow> (error + string \<times> bool) io" where
  "MultiUpStrategy_ShouldScaleUp [] = ret (Inr ('''', False))"
| "MultiUpStrategy_ShouldScaleUp (s # strategies) = do {
     r \<leftarrow> su_ShouldScaleUp s;
     case r of
       Inl err \<Rightarrow> ret (Inl err)
     | Inr (node, ok) \<Rightarrow>
         if ok then ret (Inr (node, True))
         else MultiUpStrategy_ShouldScaleUp strategies
   }"

definition MultiUpStrategy :: "scale_up_strategy list \<Rightarrow> scale_up_strategy" where
  "MultiUpStrategy strategies =
     \<lparr>su_Name = MultiUpStrategy_Name strategies,
      su_ShouldScaleUp = MultiUpStrategy_ShouldScaleUp strategies\<rparr>"

section \<open>Keeping the minimum number of nodes\<close>

record min_node_count =
  mn_Cfg :: config
  mn_ActiveNodes :: "(error + node list) io"
  mn_ShutdownList :: "string list io"

definition MinNodeCount_ShouldScaleUp :: "min_node_count \<Rightarrow> (error + string \<times> bool) io" where
  "MinNodeCount_ShouldScaleUp s = do {
     r \<leftarrow> mn_ActiveNodes s;
     case r of
       Inl err \<Rightarrow> ret (Inl err)
     | Inr active \<Rightarrow>
         if int (length active) \<ge> MinNodes (mn_Cfg s) then ret (Inr ('''', False))
         else do {
           shutdown \<leftarrow> mn_ShutdownList s;
           case shutdown of
             [] \<Rightarrow> ret (Inr ('''', False))
           | name # _ \<Rightarrow> ret (Inr (name, True))
         }
   }"

definition MinNodeCountScaleUp :: "min_node_count \<Rightarrow> scale_up_strategy" where
  "MinNodeCountScaleUp s =
     \<lparr>su_Name = ''MinNodeCount'', su_ShouldScaleUp = MinNodeCount_ShouldScaleUp s\<rparr>"

section \<open>Load average, up\<close>

record load_average_up =
  lu_Namespace :: string
  lu_PodLabel :: string
  lu_HTTPPort :: int
  lu_HTTPTimeout :: duration
  lu_ClusterEvalMode :: eval_mode
  lu_ClusterWideThreshold :: real
  lu_DryRunOverride :: "real option"
  lu_IgnoreLabels :: "(string \<times> string) list"
  lu_ShutdownCandidates :: "string list io"

definition LoadAverageUp_aggregate :: "env \<Rightarrow> load_average_up \<Rightarrow> (error + real) io" where
  "LoadAverageUp_aggregate E s =
    (case lu_DryRunOverride s of
       Some v \<Rightarrow> ret (Inr v)
     | None \<Rightarrow>
         GetClusterAggregateLoad E
           (NewClusterLoadUtils (lu_Namespace s) (lu_PodLabel s) (lu_HTTPPort s) (lu_HTTPTimeout s))
           (lu_IgnoreLabels s) '''' (lu_DryRunOverride s) (lu_ClusterEvalMode s))"

definition LoadAverageUp_ShouldScaleUp :: "env \<Rightarrow> load_average_up \<Rightarrow> (error + string \<times> bool) io" where
  "LoadAverageUp_ShouldScaleUp E s = do {
     candidates \<leftarrow> lu_ShutdownCandidates s;
     case candidates of
       [] \<Rightarrow> ret (Inr ('''', False))
     | candidate # _ \<Rightarrow> do {
         r \<leftarrow> LoadAverageUp_aggregate E s;
         case r of
           Inl err \<Rightarrow> ret (Inr ('''', False))
         | Inr aggregate \<Rightarrow>
             if aggregate < lu_ClusterWideThreshold s then ret (Inr ('''', False))
             else ret (Inr (candidate, True))
       }
   }"

definition LoadAverageScaleUp :: "env \<Rightarrow> load_average_up \<Rightarrow> scale_up_strategy" where
  "LoadAverageScaleUp E s =
     \<lparr>su_Name = ''LoadAverageScaleUp'', su_ShouldScaleUp = LoadAverageUp_ShouldScaleUp E s\<rparr>"

section \<open>Load average, down\<close>

record load_average_down =
  ld_Cfg :: config
  ld_PodLabel :: string
  ld_Namespace :: string
  ld_HTTPPort :: int
  ld_HTTPTimeout :: duration
  ld_NodeThreshold :: real
  ld_ClusterWideThreshold :: real
  ld_DryRunNodeLoadOverride :: "real option"
  ld_DryRunClusterLoadOverride :: "real option"
  ld_ClusterEvalMode :: eval_mode
  ld_IgnoreLabels :: "(string \<times> string) list"

definition ld_utils :: "load_average_down \<Rightarrow> cluster_load_utils" where
  "ld_utils l = NewClusterLoadUtils (ld_Namespace l) (ld_PodLabel l) (ld_HTTPPort l) (ld_HTTPTimeout l)"

definition getNormalizedLoadForNode :: "env \<Rightarrow> load_average_down \<Rightarrow> string \<Rightarrow> (error + real) io" where
  "getNormalizedLoadForNode E l nodeName =
    (case ld_DryRunNodeLoadOverride l of
       Some v \<Rightarrow> ret (Inr v)
     | None \<Rightarrow> FetchNormalizedLoad E (ld_utils l) nodeName)"

definition ld_exclusions :: "load_average_down \<Rightarrow> (string \<times> string) list" where
  "ld_exclusions l =
    (let disabled = nl_Disabled (NodeLabels (ld_Cfg l));
         exclude = (if disabled \<noteq> '''' then [(disabled, ''true'')] else [])
     in maps_Copy exclude (la_ExcludeFromAggregateLabels (LoadAverageStrategy (ld_Cfg l))))"

definition getClusterAggregateLoad :: "env \<Rightarrow> load_average_down \<Rightarrow> string \<Rightarrow> (error + real) io" where
  "getClusterAggregateLoad E l excludeNode =
     GetClusterAggregateLoad E (ld_utils l) (ld_exclusions l) excludeNode
       (ld_DryRunClusterLoadOverride l) (ld_ClusterEvalMode l)"

definition LoadAverageDown_ShouldScaleDown ::
  "env \<Rightarrow> load_average_down \<Rightarrow> string \<Rightarrow> (error + bool) io" where
  "LoadAverageDown_ShouldScaleDown E l nodeName = do {
     r \<leftarrow> getNormalizedLoadForNode E l nodeName;
     case r of
       Inl err \<Rightarrow> ret (Inl err)
     | Inr normalized \<Rightarrow>
         if normalized \<ge> ld_NodeThreshold l then ret (Inr False)
         else do {
           a \<leftarrow> getClusterAggregateLoad E l nodeName;
           case a of
             Inl err \<Rightarrow> ret (Inr False)
           | Inr aggregate \<Rightarrow>
               if aggregate \<ge> ld_ClusterWideThreshold l then ret (Inr False)
               else ret (Inr True)
         }
   }"

definition LoadAverageScaleDown :: "env \<Rightarrow> load_average_down \<Rightarrow> scale_down_strategy" where
  "LoadAverageScaleDown E l =
     \<lparr>sd_Name = ''LoadAverage'', sd_ShouldScaleDown = LoadAverageDown_ShouldScaleDown E l\<rparr>"

section \<open>Resources\<close>

record resource_aware =
  ra_Cfg :: config
  ra_NodeLister :: "(error + node list) io"
  ra_PodLister :: "(error + pod list) io"

text \<open>Two running totals, CPU in millicores and memory in bytes, in wrapping \<^verbatim>\<open>int64\<close>s.\<close>

definition add_request :: "int64 \<times> int64 \<Rightarrow> container \<Rightarrow> int64 \<times> int64" where
  "add_request acc c =
    (fst acc + q_MilliValue (rl_Cpu (c_Requests c)), snd acc + q_Value (rl_Memory (c_Requests c)))"

definition SumRequests :: "pod list \<Rightarrow> int64 \<times> int64" where
  "SumRequests pods = foldl (\<lambda>acc p. foldl add_request acc (pod_Containers p)) (0, 0) pods"

record analysis =
  an_totalCPUUsage :: int64
  an_totalMemUsage :: int64
  an_clusterCPU :: int64
  an_clusterMem :: int64
  an_nodeCPU :: int64
  an_nodeMem :: int64
  an_usedCPU :: int64
  an_usedMem :: int64

definition empty_analysis :: analysis where
  "empty_analysis = \<lparr>an_totalCPUUsage = 0, an_totalMemUsage = 0, an_clusterCPU = 0, an_clusterMem = 0,
     an_nodeCPU = 0, an_nodeMem = 0, an_usedCPU = 0, an_usedMem = 0\<rparr>"

definition analyze_candidate :: "(string \<rightharpoonup> resource_list) \<Rightarrow> string \<Rightarrow> node \<Rightarrow> analysis \<Rightarrow> analysis" where
  "analyze_candidate usageMap nodeName n a =
    (let a = a\<lparr>an_nodeCPU := q_MilliValue (rl_Cpu (node_Allocatable n)),
               an_nodeMem := q_Value (rl_Memory (node_Allocatable n))\<rparr>
     in case usageMap nodeName of
          Some usage \<Rightarrow> a\<lparr>an_usedCPU := q_MilliValue (rl_Cpu usage), an_usedMem := q_Value (rl_Memory usage)\<rparr>
        | None \<Rightarrow> a)"

definition analyze_other :: "(string \<rightharpoonup> resource_list) \<Rightarrow> node \<Rightarrow> analysis \<Rightarrow> analysis" where
  "analyze_other usageMap n a =
    (let a = a\<lparr>an_clusterCPU := an_clusterCPU a + q_MilliValue (rl_Cpu (node_Allocatable n)),
               an_clusterMem := an_clusterMem a + q_Value (rl_Memory (node_Allocatable n))\<rparr>
     in case usageMap (node_Name n) of
          Some usage \<Rightarrow> a\<lparr>an_totalCPUUsage := an_totalCPUUsage a + q_MilliValue (rl_Cpu usage),
                          an_totalMemUsage := an_totalMemUsage a + q_Value (rl_Memory usage)\<rparr>
        | None \<Rightarrow> a)"

fun AnalyzeNodes :: "node list \<Rightarrow> (string \<rightharpoonup> resource_list) \<Rightarrow> string \<Rightarrow> analysis \<Rightarrow> analysis" where
  "AnalyzeNodes [] usageMap nodeName a = a"
| "AnalyzeNodes (n # nodes) usageMap nodeName a =
     AnalyzeNodes nodes usageMap nodeName
       (if node_Name n = nodeName then analyze_candidate usageMap nodeName n a
        else analyze_other usageMap n a)"

definition usage_map :: "node_metrics list \<Rightarrow> (string \<rightharpoonup> resource_list)" where
  "usage_map usages = foldl (\<lambda>m u. m(nm_Name u \<mapsto> nm_Usage u)) Map.empty usages"

definition margin :: "int64 \<Rightarrow> int64 \<Rightarrow> int64" where
  "margin capacity perc = quot64 (capacity * perc) 100"

text \<open>The arithmetic at the end of \<^verbatim>\<open>ShouldScaleDown\<close>, in signed comparisons.\<close>

definition resource_check :: "config \<Rightarrow> node list \<Rightarrow> pod list \<Rightarrow> (string \<rightharpoonup> resource_list) \<Rightarrow> string \<Rightarrow> bool" where
  "resource_check cfg nodes pods usageMap nodeName =
    (let (totalCPURequest, totalMemRequest) = SumRequests pods;
         a = AnalyzeNodes nodes usageMap nodeName empty_analysis;
         marginCPU = margin (an_clusterCPU a) (ResourceBufferCPUPerc cfg);
         marginMem = margin (an_clusterMem a) (ResourceBufferMemoryPerc cfg);
         canScaleRequestOK = (totalCPURequest + marginCPU \<le>s an_clusterCPU a \<and>
                              totalMemRequest + marginMem \<le>s an_clusterMem a);
         canScaleUsageOK = (an_totalCPUUsage a + an_usedCPU a + marginCPU \<le>s an_clusterCPU a \<and>
                            an_totalMemUsage a + an_usedMem a + marginMem \<le>s an_clusterMem a)
     in canScaleRequestOK \<and> canScaleUsageOK)"

definition ResourceAware_ShouldScaleDown ::
  "env \<Rightarrow> resource_aware \<Rightarrow> string \<Rightarrow> (error + bool) io" where
  "ResourceAware_ShouldScaleDown E r nodeName = do {
     ns \<leftarrow> ra_NodeLister r;
     case ns of
       Inl err \<Rightarrow> ret (Inl (Wrapped ''listing nodes'' err))
     | Inr nodes \<Rightarrow> do {
         ps \<leftarrow> ra_PodLister r;
         case ps of
           Inl err \<Rightarrow> ret (Inl (Wrapped ''listing pods'' err))
         | Inr pods \<Rightarrow> do {
             us \<leftarrow> ListMetrics E;
             case us of
               Inl err \<Rightarrow> ret (Inl (Wrapped ''fetching node metrics'' err))
             | Inr usages \<Rightarrow>
                 let usageMap = usage_map usages
                 in if list_ex (\<lambda>n. usageMap (node_Name n) = None) nodes then ret (Inr False)
                    else ret (Inr (resource_check (ra_Cfg r) nodes pods usageMap nodeName))
           }
       }
   }"

definition ResourceAwareScaleDown :: "env \<Rightarrow> resource_aware \<Rightarrow> scale_down_strategy" where
  "ResourceAwareScaleDown E r =
     \<lparr>sd_Name = ''ResourceAware'', sd_ShouldScaleDown = ResourceAware_ShouldScaleDown E r\<rparr>"

lemmas [run_simps] =
  AlwaysScaleDown_def MultiStrategy_def MultiUpStrategy_def MinNodeCount_ShouldScaleUp_def
  MinNodeCountScaleUp_def ResourceAware_ShouldScaleDown_def ResourceAwareScaleDown_def usage_map_def
  resource_check_def SumRequests_def empty_analysis_def analyze_candidate_def analyze_other_def
  margin_def quot64_def trunc_div_def rl_Cpu_def rl_Memory_def resource_of_def zero_quantity_def

section \<open>The contract of a strategy\<close>

text \<open>
  The reconciler asks a strategy about a node, or asks for a node to start. Whatever the answer,
  asking only reads. The chains inherit the contract from their members.
\<close>

locale advisor =
  fixes ask :: "'q \<Rightarrow> 'a io"
  assumes only_reads: "state_io_rel reading (ask q)"
begin

lemma writes_nothing: "(\<And>c. \<not> is_write c \<Longrightarrow> P c) \<Longrightarrow> state_io_rel (logs P) (ask q)"
  by (rule reading_all(1) [OF only_reads])

lemma keeps_tracker: "state_io_rel same_tracker (ask q)"
  by (rule reading_all(2) [OF only_reads])

lemma keeps_clock: "state_io_rel clock_le (ask q)"
  by (rule reading_all(3) [OF only_reads])

end

lemma advisor_MultiStrategy:
  assumes "\<And>s. s \<in> set strategies \<Longrightarrow> advisor (sd_ShouldScaleDown s)"
  shows "advisor (MultiStrategy_ShouldScaleDown strategies)"
proof (unfold_locales)
  fix name show "state_io_rel reading (MultiStrategy_ShouldScaleDown strategies name)"
    using assms by (induction strategies) (auto intro!: frame_intro simp: advisor_def)
qed

lemma advisor_MultiUpStrategy:
  assumes "\<And>s. s \<in> set strategies \<Longrightarrow> advisor (\<lambda>_ :: unit. su_ShouldScaleUp s)"
  shows "advisor (\<lambda>_ :: unit. MultiUpStrategy_ShouldScaleUp strategies)"
proof (unfold_locales)
  show "state_io_rel reading (MultiUpStrategy_ShouldScaleUp strategies)"
    using assms by (induction strategies) (auto intro!: frame_intro simp: advisor_def)
qed

interpretation always: advisor "sd_ShouldScaleDown AlwaysScaleDown"
  by unfold_locales (auto simp: AlwaysScaleDown_def intro: frame_intro)

interpretation load_average_down: advisor "sd_ShouldScaleDown (LoadAverageScaleDown E l)" for E l
proof unfold_locales
  fix name
  have "state_io_rel reading (LoadAverageDown_ShouldScaleDown E l name)"
    unfolding LoadAverageDown_ShouldScaleDown_def getNormalizedLoadForNode_def getClusterAggregateLoad_def
    by (intro frame_intro)
  then show "state_io_rel reading (sd_ShouldScaleDown (LoadAverageScaleDown E l) name)"
    by (simp add: LoadAverageScaleDown_def)
qed

lemma advisor_ResourceAware:
  assumes "state_io_rel reading (ra_NodeLister r)" and "state_io_rel reading (ra_PodLister r)"
  shows "advisor (sd_ShouldScaleDown (ResourceAwareScaleDown E r))"
proof
  fix name
  have "state_io_rel reading (ResourceAware_ShouldScaleDown E r name)"
    unfolding ResourceAware_ShouldScaleDown_def by (intro frame_intro assms)
  then show "state_io_rel reading (sd_ShouldScaleDown (ResourceAwareScaleDown E r) name)"
    by (simp add: ResourceAwareScaleDown_def)
qed

lemma advisor_MinNodeCount:
  assumes "state_io_rel reading (mn_ActiveNodes s)" and "state_io_rel reading (mn_ShutdownList s)"
  shows "advisor (\<lambda>_ :: unit. su_ShouldScaleUp (MinNodeCountScaleUp s))"
proof
  have "state_io_rel reading (MinNodeCount_ShouldScaleUp s)"
    unfolding MinNodeCount_ShouldScaleUp_def
    by (intro frame_intro assms) (auto split: list.split intro: frame_intro)
  then show "state_io_rel reading (su_ShouldScaleUp (MinNodeCountScaleUp s))"
    by (simp add: MinNodeCountScaleUp_def)
qed

lemma advisor_LoadAverageUp:
  assumes "state_io_rel reading (lu_ShutdownCandidates s)"
  shows "advisor (\<lambda>_ :: unit. su_ShouldScaleUp (LoadAverageScaleUp E s))"
proof
  have aggregate: "state_io_rel reading (LoadAverageUp_aggregate E s)"
    unfolding LoadAverageUp_aggregate_def by (intro frame_intro)
  have "state_io_rel reading (LoadAverageUp_ShouldScaleUp E s)"
    unfolding LoadAverageUp_ShouldScaleUp_def
    by (intro frame_intro assms) (auto split: list.split intro!: frame_intro aggregate)
  then show "state_io_rel reading (su_ShouldScaleUp (LoadAverageScaleUp E s))"
    by (simp add: LoadAverageScaleUp_def)
qed

end
