(* ===== verification/Power_Control.thy ===== *)
theory Power_Control
  imports Node_Util
begin

text \<open>
  The power controllers of \<^verbatim>\<open>pkg/power\<close>: the disabled ones, the HTTP shutdown through the
  agent's pod, wake-on-LAN through the remote agent with its wait for readiness, and the choice
  made from the configuration. \<^verbatim>\<open>CHttp\<close> stands for building and sending a request, so a URL that
  does not parse shows as its error. What the reconciler relies on is the locale \<open>power_controller\<close>, which every
  controller of the package interprets.
\<close>

type_synonym shutdown_controller = "string \<Rightarrow> error option io"

section \<open>The disabled controllers\<close>

definition NoopPowerOn :: power_on_controller where
  "NoopPowerOn node mac = ret None"

definition NoopShutdown :: shutdown_controller where
  "NoopShutdown node = ret None"

section \<open>Shutdown over HTTP\<close>

record shutdown_http =
  sh_DryRun :: bool
  sh_Port :: int
  sh_Namespace :: string
  sh_PodLabel :: string

definition FindShutdownPodIP :: "env \<Rightarrow> shutdown_http \<Rightarrow> string \<Rightarrow> (error + string) io" where
  "FindShutdownPodIP E c node =
    (case env_ParseSelector E (sh_PodLabel c) of
       Inl err \<Rightarrow> ret (Inl (Wrapped ''invalid label selector'' err))
     | Inr selector \<Rightarrow> do {
         r \<leftarrow> ListPods E (PodsLabelled (sh_Namespace c) selector);
         case r of
           Inl err \<Rightarrow> ret (Inl (Wrapped ''listing pods'' err))
         | Inr pods \<Rightarrow>
             (case find (\<lambda>p. pod_NodeName p = node) pods of
                Some p \<Rightarrow> ret (Inr (pod_PodIP p))
              | None \<Rightarrow> ret (Inl (Msg ''no shutdown pod found on node'')))
       })"

definition shutdown_url :: "string \<Rightarrow> int \<Rightarrow> string" where
  "shutdown_url ip port = ''http://'' @ ip @ '':'' @ show_int port @ ''/shutdown''"

definition SendShutdownRequest :: "env \<Rightarrow> shutdown_http \<Rightarrow> string \<Rightarrow> string \<Rightarrow> error option io" where
  "SendShutdownRequest E c podIP node = do {
     r \<leftarrow> Http E ''POST'' (shutdown_url podIP (sh_Port c));
     case r of
       Inl err \<Rightarrow> ret (Some (Wrapped ''calling shutdown endpoint'' err))
     | Inr resp \<Rightarrow>
         if resp_Status resp \<noteq> 200 then ret (Some (Msg (''shutdown request failed: '' @ resp_body resp)))
         else ret None
   }"

definition ShutdownHTTP :: "env \<Rightarrow> shutdown_http \<Rightarrow> shutdown_controller" where
  "ShutdownHTTP E c node =
    (if sh_DryRun c then ret None
     else do {
       ip \<leftarrow> FindShutdownPodIP E c node;
       case ip of
         Inl err \<Rightarrow> ret (Some err)
       | Inr podIP \<Rightarrow> SendShutdownRequest E c podIP node
     })"

section \<open>Wake-on-LAN\<close>

text \<open>The timeout is an \<^verbatim>\<open>int64\<close> count of nanoseconds.\<close>

record wake_on_lan =
  wol_DryRun :: bool
  wol_Namespace :: string
  wol_PodLabel :: string
  wol_Port :: int
  wol_BootTimeout :: int64
  wol_BroadcastAddr :: string
  wol_MaxRetries :: int

definition wake_url :: "wake_on_lan \<Rightarrow> string \<Rightarrow> string \<Rightarrow> string" where
  "wake_url w ip mac =
     ''http://'' @ ip @ '':'' @ show_int (wol_Port w) @ ''/wake?mac='' @ mac @
     ''&broadcast='' @ wol_BroadcastAddr w"

definition sendWOLRequest :: "env \<Rightarrow> wake_on_lan \<Rightarrow> string \<Rightarrow> string \<Rightarrow> error option io" where
  "sendWOLRequest E w ip mac = do {
     r \<leftarrow> Http E ''POST'' (wake_url w ip mac);
     case r of
       Inl err \<Rightarrow> ret (Some (Wrapped ''sending WOL request'' err))
     | Inr resp \<Rightarrow>
         if resp_Status resp \<noteq> 200 then ret (Some (Msg (''WOL request failed: '' @ resp_body resp)))
         else ret None
   }"

definition checkNodeReady :: "env \<Rightarrow> string \<Rightarrow> (error + bool) io" where
  "checkNodeReady E node = do {
     r \<leftarrow> GetNode E node;
     case r of
       Inl err \<Rightarrow> ret (Inl err)
     | Inr n \<Rightarrow>
         ret (Inr (list_ex (\<lambda>(ty, status). ty = ''Ready'' \<and> status = ''True'') (node_Conditions n)))
   }"

definition findWOLAgentPodIP :: "env \<Rightarrow> wake_on_lan \<Rightarrow> (error + string) io" where
  "findWOLAgentPodIP E w = do {
     r \<leftarrow> ListPods E (PodsLabelled (wol_Namespace w) (''app='' @ wol_PodLabel w));
     case r of
       Inl err \<Rightarrow> ret (Inl (Wrapped ''listing WOL agent pods'' err))
     | Inr pods \<Rightarrow>
         (case pods of
            [] \<Rightarrow> ret (Inl (Msg ''no WOL agent pod found''))
          | p # _ \<Rightarrow> ret (Inr (pod_PodIP p)))
   }"

text \<open>
  The loop \<^verbatim>\<open>for time.Since(start) < w.BootTimeoutSec\<close>: the node became ready or the context
  ended, which return from \<^verbatim>\<open>PowerOn\<close>, or the time ran out. It terminates because the clock
  moves on by the five seconds every turn sleeps.
\<close>

datatype boot_wait = Node_ready | Ctx_done error | Boot_timeout

lemma time_Sub_less_imp: "d \<le> max_int64 \<Longrightarrow> time_Sub t u < d \<Longrightarrow> t - u < d"
  by (simp add: time_Sub_def min_def max_def split: if_splits)

lemma wait_ready_step:
  assumes now: "run_state (Now E) s = (now, s1)"
    and less: "time_Sub now start < sint (wol_BootTimeout w)"
    and check: "run_state (checkNodeReady E node) s1 = (r, s2)"
    and ctx: "run_state (CtxDone E) s2 = (c, s3)"
    and sleep: "run_state (Sleep (5 * Second)) s3 = (u, s4)"
  shows "nat (sint (wol_BootTimeout w) + start + 5 * Second - clock_floor (hist s4)) <
    nat (sint (wol_BootTimeout w) + start + 5 * Second - clock_floor (hist s))"
proof -
  have "sint (wol_BootTimeout w) \<le> max_int64"
    using sint_in_int64 [of "wol_BootTimeout w"] by (simp add: in_int64_def)
  then have "now - start < sint (wol_BootTimeout w)" using less by (rule time_Sub_less_imp)
  moreover have "clock_floor (hist s) \<le> now" "clock_floor (hist s1) = now"
    using run_Now [OF now] by auto
  moreover have "state_io_rel clock_le (checkNodeReady E node)"
    unfolding checkNodeReady_def by (intro frame_intro)
  then have "clock_floor (hist s1) \<le> clock_floor (hist s2)"
    using state_io_rel_run check by (metis clock_le_def)
  moreover have "clock_floor (hist s2) \<le> clock_floor (hist s3)"
    using state_io_rel_run [OF clock_api(4) ctx] by (simp add: clock_le_def)
  moreover have "clock_floor (hist s4) = clock_floor (hist s3) + 5 * Second"
    using sleep by (auto simp: Sleep_def Second_def)
  moreover have "0 < Second" by (simp add: Second_def)
  ultimately show ?thesis by simp
qed

function wait_ready :: "env \<Rightarrow> wake_on_lan \<Rightarrow> string \<Rightarrow> time \<Rightarrow> sys \<Rightarrow> boot_wait \<times> sys" where
  "wait_ready E w node start s =
    (case run_state (Now E) s of (now, s1) \<Rightarrow>
       if time_Sub now start < sint (wol_BootTimeout w) then
         (case run_state (checkNodeReady E node) s1 of (r, s2) \<Rightarrow>
            if r = Inr True then (Node_ready, s2)
            else
              (case run_state (CtxDone E) s2 of (c, s3) \<Rightarrow>
                 (case c of
                    Some err \<Rightarrow> (Ctx_done err, s3)
                  | None \<Rightarrow>
                      (case run_state (Sleep (5 * Second)) s3 of
                         (_, s4) \<Rightarrow> wait_ready E w node start s4))))
       else (Boot_timeout, s1))"
  by pat_completeness auto

termination
proof (relation "measure (\<lambda>(E, w, node, start, s).
    nat (sint (wol_BootTimeout w) + start + 5 * Second - clock_floor (hist s)))")
  fix E w node start s now s1 r s2 c s3 u s4
  assume "(now, s1) = run_state (Now E) s" "time_Sub now start < sint (wol_BootTimeout w)"
    "(r, s2) = run_state (checkNodeReady E node) s1" "(c, s3) = run_state (CtxDone E) s2"
    "(u, s4) = run_state (Sleep (5 * Second)) s3"
  note wait_ready_step [OF this(1) [symmetric] this(2) this(3-5) [symmetric]]
  then show "((E, w, node, start, s4), (E, w, node, start, s)) \<in> measure (\<lambda>(E, w, node, start, s).
      nat (sint (wol_BootTimeout w) + start + 5 * Second - clock_floor (hist s)))"
    by simp
qed simp

declare wait_ready.simps [simp del]

definition wol_attempt :: "env \<Rightarrow> wake_on_lan \<Rightarrow> string \<Rightarrow> string \<Rightarrow> string \<Rightarrow> boot_wait io" where
  "wol_attempt E w ip node mac = do {
     _ \<leftarrow> sendWOLRequest E w ip mac;
     start \<leftarrow> Now E;
     State (wait_ready E w node start)
   }"

text \<open>The loop over the attempts, for those still to go.\<close>

fun wol_attempts :: "nat \<Rightarrow> env \<Rightarrow> wake_on_lan \<Rightarrow> string \<Rightarrow> string \<Rightarrow> string \<Rightarrow> error option io" where
  "wol_attempts 0 E w ip node mac = ret (Some (Msg ''WOL failed: node did not become ready''))"
| "wol_attempts (Suc n) E w ip node mac = do {
     r \<leftarrow> wol_attempt E w ip node mac;
     case r of
       Node_ready \<Rightarrow> ret None
     | Ctx_done err \<Rightarrow> ret (Some err)
     | Boot_timeout \<Rightarrow> wol_attempts n E w ip node mac
   }"

definition WakeOnLan :: "env \<Rightarrow> wake_on_lan \<Rightarrow> power_on_controller" where
  "WakeOnLan E w node mac =
    (if wol_DryRun w then ret None
     else do {
       r \<leftarrow> findWOLAgentPodIP E w;
       case r of
         Inl err \<Rightarrow> ret (Some (Wrapped ''finding WOL agent pod IP'' err))
       | Inr ip \<Rightarrow> wol_attempts (nat (wol_MaxRetries w)) E w ip node mac
     })"

section \<open>The controllers of a configuration\<close>

definition shutdown_http_of :: "config \<Rightarrow> shutdown_http" where
  "shutdown_http_of cfg =
     \<lparr>sh_DryRun = DryRun cfg, sh_Port = sm_Port (ShutdownManager cfg),
      sh_Namespace = sm_Namespace (ShutdownManager cfg), sh_PodLabel = sm_PodLabel (ShutdownManager cfg)\<rparr>"

definition wake_on_lan_of :: "config \<Rightarrow> wake_on_lan" where
  "wake_on_lan_of cfg =
     \<lparr>wol_DryRun = DryRun cfg, wol_Namespace = wa_Namespace (WolAgent cfg),
      wol_PodLabel = wa_PodLabel (WolAgent cfg), wol_Port = wa_Port (WolAgent cfg),
      wol_BootTimeout = word_of_int (WOLBootTimeoutSec cfg) * word_of_int Second,
      wol_BroadcastAddr = WOLBroadcastAddr cfg, wol_MaxRetries = 3\<rparr>"

definition NewControllersFromConfig :: "env \<Rightarrow> config \<Rightarrow> shutdown_controller \<times> power_on_controller" where
  "NewControllersFromConfig E cfg =
    (let shutdowner =
           (if ShutdownMode cfg = ''disabled'' then NoopShutdown
            else if ShutdownMode cfg = ''http'' then ShutdownHTTP E (shutdown_http_of cfg)
            else NoopShutdown);
         powerOner =
           (if PowerOnMode cfg = ''disabled'' then NoopPowerOn
            else if PowerOnMode cfg = ''wol'' then WakeOnLan E (wake_on_lan_of cfg)
            else NoopPowerOn)
     in (shutdowner, powerOner))"

lemmas [run_simps] =
  NoopPowerOn_def NoopShutdown_def FindShutdownPodIP_def SendShutdownRequest_def ShutdownHTTP_def
  shutdown_http_of_def NewControllersFromConfig_def sendWOLRequest_def checkNodeReady_def findWOLAgentPodIP_def
  wol_attempt_def WakeOnLan_def wake_on_lan_of_def

section \<open>The contract of a power controller\<close>

text \<open>
  A controller reads the cluster and talks HTTP to an agent; it writes nothing to the cluster,
  never touches the tracker or the metrics, and the clock moves forward.
\<close>

definition acting :: "sys \<Rightarrow> sys \<Rightarrow> bool" where
  "acting s t \<longleftrightarrow> logs agent_call s t \<and> same_tracker s t \<and> clock_le s t \<and> counters t = counters s"

interpretation acting: frame_rel acting
proof unfold_locales
  fix s t u :: sys
  show "acting s s" by (simp add: acting_def logs.R_refl tracker.R_refl clock.R_refl)
  assume "acting s t" "acting t u"
  then show "acting s u" unfolding acting_def
    by (metis logs.R_trans tracker.R_trans clock.R_trans)
qed

lemmas [frame_intro] =
  acting.holds_return acting.holds_bind acting.holds_when acting.holds_for_each

lemma reading_acting: "reading s t \<Longrightarrow> acting s t"
  unfolding reading_def acting_def logs_def by (metis agent_call_reads list.pred_mono_strong)

lemma acting_of_reading: "state_io_rel reading m \<Longrightarrow> state_io_rel acting m"
  by (auto simp: state_io_rel_def reading_acting)

lemma acting_Http [frame_intro]: "state_io_rel acting (Http E meth url)"
  by (auto simp: Http_def state_io_rel_def acting_def logs_def same_tracker_def clock_le_def
      intro: exI [where x = "[CHttp m u r]" for m u r])

locale power_controller =
  fixes act :: "'q \<Rightarrow> error option io"
  assumes only_acts: "state_io_rel acting (act q)"
begin

lemma calls_agent: "(\<And>c. agent_call c \<Longrightarrow> P c) \<Longrightarrow> state_io_rel (logs P) (act q)"
  using only_acts [of q] by (auto simp: state_io_rel_def acting_def intro: logs_mono)
    (metis (mono_tags, lifting) list.pred_mono_strong logs_def)

lemma keeps_tracker: "state_io_rel same_tracker (act q)"
  using only_acts [of q] by (simp add: state_io_rel_def acting_def)

lemma keeps_clock: "state_io_rel clock_le (act q)"
  using only_acts [of q] by (simp add: state_io_rel_def acting_def)

end

interpretation noop_shutdown: power_controller NoopShutdown
  by unfold_locales (auto simp: NoopShutdown_def intro: frame_intro)

interpretation noop_power_on: power_controller "\<lambda>(node, mac). NoopPowerOn node mac"
  by unfold_locales (auto simp: NoopPowerOn_def intro: frame_intro)

interpretation http_shutdown: power_controller "ShutdownHTTP E c" for E c
proof unfold_locales
  fix node
  have find: "state_io_rel reading (FindShutdownPodIP E c node)"
    unfolding FindShutdownPodIP_def by (intro frame_intro)
  show "state_io_rel acting (ShutdownHTTP E c node)"
    unfolding ShutdownHTTP_def SendShutdownRequest_def
    by (intro frame_intro acting_of_reading [OF find])
qed

text \<open>The turns of the waiting loop as an induction rule over its runs.\<close>

lemma wait_ready_induct:
  assumes timeout: "\<And>s now s1. run_state (Now E) s = (now, s1) \<Longrightarrow> P s (Boot_timeout, s1)"
    and ready: "\<And>s now s1 s2. run_state (Now E) s = (now, s1) \<Longrightarrow> time_Sub now start < sint (wol_BootTimeout w) \<Longrightarrow>
      run_state (checkNodeReady E node) s1 = (Inr True, s2) \<Longrightarrow> P s (Node_ready, s2)"
    and ended: "\<And>s now s1 r s2 err s3. run_state (Now E) s = (now, s1) \<Longrightarrow> time_Sub now start < sint (wol_BootTimeout w) \<Longrightarrow>
      run_state (checkNodeReady E node) s1 = (r, s2) \<Longrightarrow> run_state (CtxDone E) s2 = (Some err, s3) \<Longrightarrow>
      P s (Ctx_done err, s3)"
    and again: "\<And>s now s1 r s2 s3 s4 res. run_state (Now E) s = (now, s1) \<Longrightarrow> time_Sub now start < sint (wol_BootTimeout w) \<Longrightarrow>
      run_state (checkNodeReady E node) s1 = (r, s2) \<Longrightarrow> run_state (CtxDone E) s2 = (None, s3) \<Longrightarrow>
      run_state (Sleep (5 * Second)) s3 = ((), s4) \<Longrightarrow> P s4 res \<Longrightarrow> P s res"
  shows "P s (wait_ready E w node start s)"
proof (induction s rule: measure_induct_rule
    [where f = "\<lambda>s. nat (sint (wol_BootTimeout w) + start + 5 * Second - clock_floor (hist s))"])
  case (less s)
  obtain now s1 where now: "run_state (Now E) s = (now, s1)" by fastforce
  obtain r s2 where check: "run_state (checkNodeReady E node) s1 = (r, s2)" by fastforce
  obtain c s3 where ctx: "run_state (CtxDone E) s2 = (c, s3)" by fastforce
  obtain s4 where sleep: "run_state (Sleep (5 * Second)) s3 = ((), s4)"
    by (cases "run_state (Sleep (5 * Second)) s3") auto
  show ?case
  proof (cases "time_Sub now start < sint (wol_BootTimeout w) \<and> r \<noteq> Inr True \<and> c = None")
    case True
    have "P s4 (wait_ready E w node start s4)"
      by (rule less) (rule wait_ready_step [OF now _ check ctx sleep], use True in simp)
    then have "P s (wait_ready E w node start s4)"
      using again [OF now _ check _ sleep] ctx True by simp
    then show ?thesis using True by (simp add: wait_ready.simps [of E w node start s] now check ctx sleep)
  next
    case False
    then show ?thesis using timeout [OF now] ready [OF now, of s2] ended [OF now _ check] check ctx
      by (cases c) (auto simp: wait_ready.simps [of E w node start s] now)
  qed
qed

lemma wait_ready_reading: "reading s (snd (wait_ready E w node start s))"
proof (rule wait_ready_induct [where E = E and node = node and start = start and w = w and
      P = "\<lambda>s res. reading s (snd res)"])
  note runs = state_io_rel_run [OF reading_api(1)] state_io_rel_run [OF reading_api(2)]
    state_io_rel_run [OF reading_api(4)]
  have check: "state_io_rel reading (checkNodeReady E node)"
    unfolding checkNodeReady_def by (intro frame_intro)
  show "reading s (snd (Boot_timeout, s1))" if "run_state (Now E) s = (now, s1)" for s now s1
    using runs that by simp
  show "reading s (snd (Node_ready, s2))" if "run_state (Now E) s = (now, s1)"
    "run_state (checkNodeReady E node) s1 = (Inr True, s2)" for s now s1 s2
    using that runs state_io_rel_run [OF check] unfolding snd_conv by (meson reading.R_trans)
  show "reading s (snd (Ctx_done err, s3))" if "run_state (Now E) s = (now, s1)"
    "run_state (checkNodeReady E node) s1 = (r, s2)" "run_state (CtxDone E) s2 = (Some err, s3)"
    for s now s1 r s2 err s3
    using that runs state_io_rel_run [OF check] unfolding snd_conv by (meson reading.R_trans)
  show "reading s (snd res)" if "run_state (Now E) s = (now, s1)"
    "run_state (checkNodeReady E node) s1 = (r, s2)" "run_state (CtxDone E) s2 = (None, s3)"
    "run_state (Sleep (5 * Second)) s3 = ((), s4)" "reading s4 (snd res)" for s now s1 r s2 s3 s4 and res :: "boot_wait \<times> sys"
    using that runs state_io_rel_run [OF check] by (meson reading.R_trans)
qed

interpretation wake_on_lan: power_controller "\<lambda>(node, mac). WakeOnLan E w node mac" for E w
proof
  fix q :: "string \<times> string"
  obtain node mac where q: "q = (node, mac)" by (cases q)
  have find: "state_io_rel reading (findWOLAgentPodIP E w)"
    unfolding findWOLAgentPodIP_def by (intro frame_intro) (auto split: list.split intro: frame_intro)
  have wait: "state_io_rel acting (State (wait_ready E w node start))" for start
    by (auto simp: state_io_rel_def intro: reading_acting wait_ready_reading)
  have attempt: "state_io_rel acting (wol_attempt E w ip node mac)" for ip
    unfolding wol_attempt_def sendWOLRequest_def
    by (intro frame_intro wait acting_of_reading [OF reading_api(1)])
  have "state_io_rel acting (wol_attempts n E w ip node mac)" for n ip
    by (induction n) (auto intro!: frame_intro attempt split: boot_wait.split)
  then have "state_io_rel acting (WakeOnLan E w node mac)"
    unfolding WakeOnLan_def by (intro frame_intro acting_of_reading [OF find])
  then show "state_io_rel acting (case q of (node, mac) \<Rightarrow> WakeOnLan E w node mac)" by (simp add: q)
qed

text \<open>Whatever the configuration selects keeps the contract.\<close>

interpretation config_shutdowner: power_controller "fst (NewControllersFromConfig E cfg)" for E cfg
proof
  fix node
  show "state_io_rel acting (fst (NewControllersFromConfig E cfg) node)"
    using http_shutdown.only_acts noop_shutdown.only_acts by (simp add: NewControllersFromConfig_def Let_def)
qed

interpretation config_power_oner: power_controller
  "\<lambda>(node, mac). snd (NewControllersFromConfig E cfg) node mac" for E cfg
proof
  fix q :: "string \<times> string"
  show "state_io_rel acting (case q of (node, mac) \<Rightarrow> snd (NewControllersFromConfig E cfg) node mac)"
    using wake_on_lan.only_acts [of E "wake_on_lan_of cfg" q] noop_power_on.only_acts [of q]
    by (auto simp: NewControllersFromConfig_def Let_def split: prod.split)
qed

end
