(* ===== verification/Reconciler.thy ===== *)
theory Reconciler
  imports Drain Strategies Power_Control
begin

text \<open>
  The reconciler of \<^verbatim>\<open>pkg/controller/reconciler.go\<close>: its record, its construction with the
  strategy chains, the steps of one loop (recovery, scale-up, scale-down, rotation), the loop
  \<^verbatim>\<open>Reconcile\<close>, and the endless loop of \<^verbatim>\<open>main.go\<close> for its first rounds. The mutable state the
  struct points to is the \<open>sys\<close> of the monad.
\<close>

section \<open>The reconciler and its helpers\<close>

record reconciler =
  r_Cfg :: config
  r_Shutdowner :: shutdown_controller
  r_PowerOner :: power_on_controller
  r_ScaleDownStrategy :: scale_down_strategy
  r_ScaleUpStrategy :: scale_up_strategy
  r_DryRunNodeLoad :: "real option"
  r_DryRunClusterLoadDown :: "real option"
  r_DryRunClusterLoadUp :: "real option"

definition call_Shutdown :: "shutdown_controller \<Rightarrow> string \<Rightarrow> error option io" where
  "call_Shutdown shutdowner name = do {
     r \<leftarrow> shutdowner name;
     _ \<leftarrow> log_call (CShutdown name r);
     ret r
   }"

definition listAllNodes :: "env \<Rightarrow> config \<Rightarrow> (error + node list) io" where
  "listAllNodes E cfg = do {
     r \<leftarrow> ListManagedNodes E (managed_filter cfg);
     case r of
       Inl err \<Rightarrow> ret (Inl err)
     | Inr nodes \<Rightarrow> ret (Inr nodes)
   }"

definition listActiveNodes :: "env \<Rightarrow> config \<Rightarrow> (error + node list) io" where
  "listActiveNodes E cfg = ListActiveNodes E (managed_filter cfg) (IgnoreLabels cfg)"

definition shutdownNodeNames :: "env \<Rightarrow> config \<Rightarrow> string list io" where
  "shutdownNodeNames E cfg = do {
     r \<leftarrow> ListShutdownNodeNames E (managed_filter cfg);
     case r of
       Inl err \<Rightarrow> ret []
     | Inr nodes \<Rightarrow> ret nodes
   }"

definition eligibility_of :: "config \<Rightarrow> eligibility_config" where
  "eligibility_of cfg =
     \<lparr>el_Cooldown = Cooldown cfg, el_BootCooldown = BootCooldown cfg, el_IgnoreLabels = IgnoreLabels cfg\<rparr>"

definition filterEligibleNodes :: "env \<Rightarrow> config \<Rightarrow> node list \<Rightarrow> node_wrapper list io" where
  "filterEligibleNodes E cfg nodes = do {
     now \<leftarrow> Now E;
     FilterShutdownEligibleNodes E nodes now (eligibility_of cfg)
   }"

definition BuildAggregateExclusions :: "config \<Rightarrow> (string \<times> string) list" where
  "BuildAggregateExclusions cfg =
    (let disabled = nl_Disabled (NodeLabels cfg);
         ex = (if disabled \<noteq> '''' then [(disabled, ''true'')] else [])
     in maps_Copy ex (la_ExcludeFromAggregateLabels (LoadAverageStrategy cfg)))"

section \<open>The strategy chains\<close>

definition load_timeout :: "config \<Rightarrow> duration" where
  "load_timeout cfg = wrap64 (la_TimeoutSeconds (LoadAverageStrategy cfg) * Second)"

definition pod_lister :: "env \<Rightarrow> (error + pod list) io" where
  "pod_lister E = do {
     r \<leftarrow> ListPods E AllPods;
     case r of Inl err \<Rightarrow> ret (Inl err) | Inr pods \<Rightarrow> ret (Inr pods)
   }"

definition node_lister :: "env \<Rightarrow> (error + node list) io" where
  "node_lister E = do {
     r \<leftarrow> ListNodes E;
     case r of Inl err \<Rightarrow> ret (Inl err) | Inr nodes \<Rightarrow> ret (Inr nodes)
   }"

definition resource_aware_of :: "env \<Rightarrow> config \<Rightarrow> resource_aware" where
  "resource_aware_of E cfg =
     \<lparr>ra_Cfg = cfg, ra_NodeLister = node_lister E, ra_PodLister = pod_lister E\<rparr>"

definition load_average_down_of :: "config \<Rightarrow> real option \<Rightarrow> real option \<Rightarrow> load_average_down" where
  "load_average_down_of cfg dryRunNodeLoad dryRunClusterLoadDown =
    (let la = LoadAverageStrategy cfg
     in \<lparr>ld_Cfg = cfg, ld_PodLabel = la_PodLabel la, ld_Namespace = la_Namespace la,
         ld_HTTPPort = la_Port la, ld_HTTPTimeout = load_timeout cfg,
         ld_NodeThreshold = la_NodeThreshold la, ld_ClusterWideThreshold = la_ScaleDownThreshold la,
         ld_DryRunNodeLoadOverride = dryRunNodeLoad,
         ld_DryRunClusterLoadOverride = dryRunClusterLoadDown,
         ld_ClusterEvalMode = ParseClusterEvalMode (la_ClusterEval la),
         ld_IgnoreLabels = BuildAggregateExclusions cfg\<rparr>)"

definition buildScaleDownStrategy ::
  "env \<Rightarrow> config \<Rightarrow> real option \<Rightarrow> real option \<Rightarrow> scale_down_strategy" where
  "buildScaleDownStrategy E cfg dryRunNodeLoad dryRunClusterLoadDown =
     MultiStrategy
       (ResourceAwareScaleDown E (resource_aware_of E cfg) #
        (if la_Enabled (LoadAverageStrategy cfg)
         then [LoadAverageScaleDown E (load_average_down_of cfg dryRunNodeLoad dryRunClusterLoadDown)]
         else []))"

definition min_node_count_of :: "env \<Rightarrow> config \<Rightarrow> min_node_count" where
  "min_node_count_of E cfg =
     \<lparr>mn_Cfg = cfg, mn_ActiveNodes = listActiveNodes E cfg, mn_ShutdownList = shutdownNodeNames E cfg\<rparr>"

definition load_average_up_of :: "env \<Rightarrow> config \<Rightarrow> real option \<Rightarrow> load_average_up" where
  "load_average_up_of E cfg dryRunClusterLoadUp =
    (let la = LoadAverageStrategy cfg
     in \<lparr>lu_Namespace = la_Namespace la, lu_PodLabel = la_PodLabel la, lu_HTTPPort = la_Port la,
         lu_HTTPTimeout = load_timeout cfg,
         lu_ClusterEvalMode = ParseClusterEvalMode (la_ClusterEval la),
         lu_ClusterWideThreshold = la_ScaleUpThreshold la, lu_DryRunOverride = dryRunClusterLoadUp,
         lu_IgnoreLabels = BuildAggregateExclusions cfg,
         lu_ShutdownCandidates = shutdownNodeNames E cfg\<rparr>)"

definition buildScaleUpStrategy :: "env \<Rightarrow> config \<Rightarrow> real option \<Rightarrow> scale_up_strategy" where
  "buildScaleUpStrategy E cfg dryRunClusterLoadUp =
     MultiUpStrategy
       (MinNodeCountScaleUp (min_node_count_of E cfg) #
        (if la_Enabled (LoadAverageStrategy cfg)
         then [LoadAverageScaleUp E (load_average_up_of E cfg dryRunClusterLoadUp)]
         else []))"

section \<open>Restoring the powered-off set and construction\<close>

definition RestorePoweredOffState :: "env \<Rightarrow> config \<Rightarrow> unit io" where
  "RestorePoweredOffState E cfg = do {
     r \<leftarrow> ListNodes E;
     case r of
       Inl err \<Rightarrow> ret ()
     | Inr nodeList \<Rightarrow> do {
         m \<leftarrow> ListManagedNodes E (managed_filter cfg);
         case m of
           Inl err \<Rightarrow> ret ()
         | Inr managed \<Rightarrow>
             for_each (\<lambda>n. if node_Name n \<in> set (map node_Name nodeList) then ret ()
                           else on_tracker (MarkPoweredOff (node_Name n))) managed
       }
   }"

text \<open>The \<^verbatim>\<open>ReconcilerOption\<close>s of \<^verbatim>\<open>options.go\<close> set the three override pointers.\<close>

datatype reconciler_option =
    WithDryRunNodeLoad real
  | WithDryRunClusterLoadDown real
  | WithDryRunClusterLoadUp real

fun apply_option :: "reconciler_option \<Rightarrow> reconciler \<Rightarrow> reconciler" where
  "apply_option (WithDryRunNodeLoad val) r = r\<lparr>r_DryRunNodeLoad := Some val\<rparr>"
| "apply_option (WithDryRunClusterLoadDown val) r = r\<lparr>r_DryRunClusterLoadDown := Some val\<rparr>"
| "apply_option (WithDryRunClusterLoadUp val) r = r\<lparr>r_DryRunClusterLoadUp := Some val\<rparr>"

text \<open>
  The struct before the options are applied has nil strategies; here they are the empty chains,
  which nothing calls before they are replaced.
\<close>

definition build_reconciler :: "env \<Rightarrow> config \<Rightarrow> reconciler_option list \<Rightarrow> reconciler" where
  "build_reconciler E cfg opts =
    (let (shutdowner, powerOner) = NewControllersFromConfig E cfg;
         r = fold apply_option opts
               \<lparr>r_Cfg = cfg, r_Shutdowner = shutdowner, r_PowerOner = powerOner,
                r_ScaleDownStrategy = MultiStrategy [], r_ScaleUpStrategy = MultiUpStrategy [],
                r_DryRunNodeLoad = None, r_DryRunClusterLoadDown = None, r_DryRunClusterLoadUp = None\<rparr>
     in r\<lparr>r_ScaleDownStrategy := buildScaleDownStrategy E cfg (r_DryRunNodeLoad r) (r_DryRunClusterLoadDown r),
          r_ScaleUpStrategy := buildScaleUpStrategy E cfg (r_DryRunClusterLoadUp r)\<rparr>)"

definition NewReconciler :: "env \<Rightarrow> config \<Rightarrow> reconciler_option list \<Rightarrow> reconciler io" where
  "NewReconciler E cfg opts = do {
     let r = build_reconciler E cfg opts;
     _ \<leftarrow> RestorePoweredOffState E cfg;
     ret r
   }"

section \<open>Scaling up\<close>

definition MaybeScaleUp :: "env \<Rightarrow> reconciler \<Rightarrow> bool io" where
  "MaybeScaleUp E r = do {
     u \<leftarrow> su_ShouldScaleUp (r_ScaleUpStrategy r);
     case u of
       Inl err \<Rightarrow> ret False
     | Inr (nodeName, shouldScale) \<Rightarrow>
         if \<not> shouldScale then ret False
         else do {
           g \<leftarrow> GetNode E nodeName;
           case g of
             Inl err \<Rightarrow> ret False
           | Inr n \<Rightarrow> do {
               now \<leftarrow> Now E;
               tr \<leftarrow> get_tracker;
               p \<leftarrow> PowerOnAndMarkBooted E
                     (NewNodeWrapper n (Some tr) now
                       \<lparr>na_MAC = na_MAC (NodeAnnotations (r_Cfg r))\<rparr> (IgnoreLabels (r_Cfg r)))
                     (r_Cfg r) (r_PowerOner r) (DryRun (r_Cfg r));
               case p of
                 Some err \<Rightarrow> ret False
               | None \<Rightarrow> do {
                   _ \<leftarrow> on_tracker (ClearPoweredOff nodeName);
                   _ \<leftarrow> on_counters (\<lambda>m. m\<lparr>PoweredOffNodes := (PoweredOffNodes m)(nodeName \<mapsto> 0)\<rparr>);
                   ret True
                 }
             }
         }
   }"

section \<open>Scaling down\<close>

definition AnnotatePoweredOffNode :: "env \<Rightarrow> config \<Rightarrow> string \<Rightarrow> error option io" where
  "AnnotatePoweredOffNode E cfg name =
    (if DryRun cfg then ret None
     else do {
       now \<leftarrow> Now E;
       PatchNode E name [(AnnotationPoweredOff, Some (Format_RFC3339 now))]
     })"

text \<open>\<open>None\<close> is the nil pointer; indexing an empty list panics.\<close>

definition PickScaleDownCandidate :: "config \<Rightarrow> node_wrapper list \<Rightarrow> node_wrapper option go" where
  "PickScaleDownCandidate cfg eligible =
    (if int (length eligible) \<le> MinNodes cfg then Ret None
     else case go_index eligible (int (length eligible) - 1) of
            Panic \<Rightarrow> Panic
          | Ret w \<Rightarrow> Ret (Some w))"

definition shutdown_succeeded :: "env \<Rightarrow> string \<Rightarrow> unit io" where
  "shutdown_succeeded E name = do {
     _ \<leftarrow> on_counters (\<lambda>m. m\<lparr>ScaleDowns := ScaleDowns m + 1\<rparr>);
     _ \<leftarrow> on_counters (\<lambda>m. m\<lparr>ShutdownSuccesses := ShutdownSuccesses m + 1\<rparr>);
     _ \<leftarrow> on_counters (\<lambda>m. m\<lparr>PoweredOffNodes := (PoweredOffNodes m)(name \<mapsto> 1)\<rparr>);
     _ \<leftarrow> do_MarkGlobalShutdown E;
     _ \<leftarrow> do_MarkShutdown E name;
     on_tracker (MarkPoweredOff name)
   }"

text \<open>The part of \<^verbatim>\<open>MaybeScaleDown\<close> after the strategy agreed and outside dry-run.\<close>

definition retire_node :: "env \<Rightarrow> reconciler \<Rightarrow> string \<Rightarrow> bool io" where
  "retire_node E r name = do {
     d \<leftarrow> CordonAndDrain E (r_Cfg r) name;
     case d of
       Some err \<Rightarrow> do { _ \<leftarrow> restoreScheduling E name; ret False }
     | None \<Rightarrow> do {
         a \<leftarrow> AnnotatePoweredOffNode E (r_Cfg r) name;
         case a of
           Some err \<Rightarrow> do { _ \<leftarrow> restoreScheduling E name; ret False }
         | None \<Rightarrow> do {
             _ \<leftarrow> on_counters (\<lambda>m. m\<lparr>ShutdownAttempts := ShutdownAttempts m + 1\<rparr>);
             s \<leftarrow> call_Shutdown (r_Shutdowner r) name;
             case s of
               Some err \<Rightarrow> do {
                 _ \<leftarrow> ClearPoweredOffAnnotation E name;
                 _ \<leftarrow> restoreScheduling E name;
                 ret False
               }
             | None \<Rightarrow> do { _ \<leftarrow> shutdown_succeeded E name; ret True }
           }
       }
   }"

definition scale_down_node :: "env \<Rightarrow> reconciler \<Rightarrow> string \<Rightarrow> bool io" where
  "scale_down_node E r name = do {
     k \<leftarrow> sd_ShouldScaleDown (r_ScaleDownStrategy r) name;
     case k of
       Inl err \<Rightarrow> ret False
     | Inr ok \<Rightarrow>
         if \<not> ok then ret False
         else if DryRun (r_Cfg r) then do {
           d \<leftarrow> CordonAndDrain E (r_Cfg r) name;
           ret (d = None)
         }
         else retire_node E r name
   }"

definition MaybeScaleDown :: "env \<Rightarrow> reconciler \<Rightarrow> node_wrapper list \<Rightarrow> bool go io" where
  "MaybeScaleDown E r eligible =
    (case PickScaleDownCandidate (r_Cfg r) eligible of
       Panic \<Rightarrow> ret Panic
     | Ret c \<Rightarrow>
         (case c of
            None \<Rightarrow> ret (Ret False)
          | Some candidate \<Rightarrow> do { b \<leftarrow> scale_down_node E r (w_Name candidate); ret (Ret b) }))"

section \<open>Rotation\<close>

definition rotation_exempt :: "config \<Rightarrow> node \<Rightarrow> bool" where
  "rotation_exempt cfg n =
    (let key = rot_ExemptLabel (Rotation cfg)
     in key \<noteq> '''' \<and> (case node_Labels n key of Some val \<Rightarrow> val \<noteq> '''' | None \<Rightarrow> False))"

text \<open>
  The loop that looks for the oldest overdue node; \<open>best\<close> is the pair of \<^verbatim>\<open>overdue\<close> and
  \<^verbatim>\<open>since\<close>, \<open>None\<close> while \<^verbatim>\<open>overdue\<close> is nil.
\<close>

fun find_overdue :: "config \<Rightarrow> time \<Rightarrow> node list \<Rightarrow> (node \<times> time) option \<Rightarrow> (node \<times> time) option" where
  "find_overdue cfg now [] best = best"
| "find_overdue cfg now (n # ns) best =
     find_overdue cfg now ns
      (if rotation_exempt cfg n then best
       else if ShouldIgnoreNodeDueToLabels n (IgnoreLabels cfg) then best
       else
         (case PoweredOffSince n of
            None \<Rightarrow> best
          | Some t \<Rightarrow>
              if time_Sub now t \<ge> rot_MaxPoweredOffDuration (Rotation cfg) then
                (case best of
                   None \<Rightarrow> Some (n, t)
                 | Some (_, since) \<Rightarrow> if t < since then Some (n, t) else best)
              else best))"

text \<open>One turn of the candidate loop: skip to the next, give up, or take this one.\<close>

datatype gate = Next_candidate | Give_up | Take_candidate

definition candidate_gate :: "env \<Rightarrow> reconciler \<Rightarrow> string \<Rightarrow> gate io" where
  "candidate_gate E r name = do {
     let la = LoadAverageStrategy (r_Cfg r);
     let utils = NewClusterLoadUtils (la_Namespace la) (la_PodLabel la) (la_Port la) (load_timeout (r_Cfg r));
     l \<leftarrow> (case r_DryRunNodeLoad r of
            Some v \<Rightarrow> ret (Inr v)
          | None \<Rightarrow> FetchNormalizedLoad E utils name);
     case l of
       Inl err \<Rightarrow> ret Next_candidate
     | Inr nodeLoad \<Rightarrow>
         if nodeLoad \<ge> la_NodeThreshold la then ret Next_candidate
         else do {
           a \<leftarrow> GetClusterAggregateLoad E utils (BuildAggregateExclusions (r_Cfg r)) name
                 (r_DryRunClusterLoadDown r) (ParseClusterEvalMode (la_ClusterEval la));
           case a of
             Inl err \<Rightarrow> ret Next_candidate
           | Inr agg \<Rightarrow>
               if agg \<ge> la_ScaleDownThreshold la then ret Give_up
               else ret Take_candidate
         }
   }"

fun try_candidates :: "env \<Rightarrow> reconciler \<Rightarrow> node_wrapper list \<Rightarrow> node_wrapper option io" where
  "try_candidates E r [] = ret None"
| "try_candidates E r (cand # cands) = do {
     g \<leftarrow> candidate_gate E r (w_Name cand);
     case g of
       Next_candidate \<Rightarrow> try_candidates E r cands
     | Give_up \<Rightarrow> ret None
     | Take_candidate \<Rightarrow> ret (Some cand)
   }"

definition PickRotationPoweroffCandidate ::
  "env \<Rightarrow> reconciler \<Rightarrow> node_wrapper list \<Rightarrow> node_wrapper option io" where
  "PickRotationPoweroffCandidate E r eligible =
    (if \<not> la_Enabled (LoadAverageStrategy (r_Cfg r)) then
       (case eligible of [] \<Rightarrow> ret None | w # _ \<Rightarrow> ret (Some w))
     else try_candidates E r eligible)"

text \<open>Step 4 of \<^verbatim>\<open>MaybeRotate\<close>: power on the overdue node.\<close>

definition rotate_node :: "env \<Rightarrow> reconciler \<Rightarrow> time \<Rightarrow> node \<Rightarrow> unit io" where
  "rotate_node E r now overdue = do {
     tr \<leftarrow> get_tracker;
     p \<leftarrow> PowerOnAndMarkBooted E
           (NewNodeWrapper overdue (Some tr) now
             \<lparr>na_MAC = na_MAC (NodeAnnotations (r_Cfg r))\<rparr> (IgnoreLabels (r_Cfg r)))
           (r_Cfg r) (r_PowerOner r) (DryRun (r_Cfg r));
     case p of
       Some err \<Rightarrow> ret ()
     | None \<Rightarrow> do {
         _ \<leftarrow> on_tracker (ClearPoweredOff (node_Name overdue));
         on_counters (\<lambda>m. m\<lparr>PoweredOffNodes := (PoweredOffNodes m)(node_Name overdue \<mapsto> 0)\<rparr>)
       }
   }"

definition MaybeRotate :: "env \<Rightarrow> reconciler \<Rightarrow> unit io" where
  "MaybeRotate E r =
    (if \<not> rot_Enabled (Rotation (r_Cfg r)) \<or> rot_MaxPoweredOffDuration (Rotation (r_Cfg r)) \<le> 0 then ret ()
     else do {
       now \<leftarrow> Now E;
       m \<leftarrow> ListManagedNodes E (managed_filter (r_Cfg r));
       case m of
         Inl err \<Rightarrow> ret ()
       | Inr managed \<Rightarrow>
           if managed = [] then ret ()
           else
             (case find_overdue (r_Cfg r) now managed None of
                None \<Rightarrow> ret ()
              | Some (overdue, since) \<Rightarrow> do {
                  a \<leftarrow> listAllNodes E (r_Cfg r);
                  case a of
                    Inl err \<Rightarrow> ret ()
                  | Inr allNodes \<Rightarrow> do {
                      eligible \<leftarrow> filterEligibleNodes E (r_Cfg r) allNodes;
                      if int (length eligible) + 1 \<le> MinNodes (r_Cfg r) then ret ()
                      else do {
                        cand \<leftarrow> PickRotationPoweroffCandidate E r eligible;
                        case cand of
                          None \<Rightarrow> ret ()
                        | Some _ \<Rightarrow> rotate_node E r now overdue
                      }
                    }
                })
     })"

section \<open>One loop\<close>

definition clear_recovered :: "node \<Rightarrow> unit io" where
  "clear_recovered n =
    (if IsNodeReady n \<and> map_get (node_Annotations n) AnnotationPoweredOff = ''''
     then on_tracker (ClearPoweredOff (node_Name n)) else ret ())"

text \<open>The part of \<^verbatim>\<open>Reconcile\<close> after the global cooldown check.\<close>

definition reconcile_loop :: "env \<Rightarrow> reconciler \<Rightarrow> error option go io" where
  "reconcile_loop E r = do {
     _ \<leftarrow> on_counters (\<lambda>m. m\<lparr>Evaluations := Evaluations m + 1\<rparr>);
     up \<leftarrow> MaybeScaleUp E r;
     if up then ret (Ret None)
     else do {
       a \<leftarrow> listAllNodes E (r_Cfg r);
       case a of
         Inl err \<Rightarrow> ret (Ret (Some err))
       | Inr allNodes \<Rightarrow> do {
           eligible \<leftarrow> filterEligibleNodes E (r_Cfg r) allNodes;
           d \<leftarrow> MaybeScaleDown E r eligible;
           case d of
             Panic \<Rightarrow> ret Panic
           | Ret down \<Rightarrow>
               if down then ret (Ret None)
               else do { _ \<leftarrow> MaybeRotate E r; ret (Ret None) }
         }
     }
   }"

text \<open>The part after the cached powered-off state has been cleared.\<close>

definition reconcile_decide :: "env \<Rightarrow> reconciler \<Rightarrow> time \<Rightarrow> error option go io" where
  "reconcile_decide E r now =
    (if ForcePowerOnAllNodes (r_Cfg r) then do {
       _ \<leftarrow> ForcePowerOnAll E (r_Cfg r) (r_PowerOner r) (DryRun (r_Cfg r));
       ret (Ret None)
     }
     else do {
       tr \<leftarrow> get_tracker;
       if IsGlobalCooldownActive tr now (Cooldown (r_Cfg r)) then ret (Ret None)
       else reconcile_loop E r
     })"

definition Reconcile :: "env \<Rightarrow> reconciler \<Rightarrow> error option go io" where
  "Reconcile E r = do {
     now \<leftarrow> Now E;
     v \<leftarrow> RecoverUnexpectedlyBootedNodes E (r_Cfg r) (DryRun (r_Cfg r));
     case v of
       Some err \<Rightarrow> ret (Ret None)
     | None \<Rightarrow>
         if DryRun (r_Cfg r) then reconcile_decide E r now
         else do {
           a \<leftarrow> listAllNodes E (r_Cfg r);
           case a of
             Inl err \<Rightarrow> ret (Ret (Some err))
           | Inr nodes \<Rightarrow> do {
               _ \<leftarrow> for_each clear_recovered nodes;
               reconcile_decide E r now
             }
         }
   }"

text \<open>The loop of \<^verbatim>\<open>main\<close> for its first \<open>n\<close> rounds; a panic ends the process.\<close>

fun run_loop :: "nat \<Rightarrow> env \<Rightarrow> reconciler \<Rightarrow> unit go io" where
  "run_loop 0 E r = ret (Ret ())"
| "run_loop (Suc n) E r = do {
     x \<leftarrow> Reconcile E r;
     case x of
       Panic \<Rightarrow> ret Panic
     | Ret err \<Rightarrow> do { _ \<leftarrow> Sleep (PollInterval (r_Cfg r)); run_loop n E r }
   }"

lemmas [run_simps] =
  call_Shutdown_def listAllNodes_def listActiveNodes_def shutdownNodeNames_def eligibility_of_def
  filterEligibleNodes_def MaybeScaleUp_def AnnotatePoweredOffNode_def PickScaleDownCandidate_def shutdown_succeeded_def
  retire_node_def scale_down_node_def MaybeScaleDown_def candidate_gate_def PickRotationPoweroffCandidate_def
  rotate_node_def MaybeRotate_def clear_recovered_def build_reconciler_def buildScaleDownStrategy_def buildScaleUpStrategy_def
  resource_aware_of_def min_node_count_of_def node_lister_def pod_lister_def
  reconcile_loop_def reconcile_decide_def
  Reconcile_def

section \<open>What the reconciler relies on\<close>

lemma list_reading:
  "state_io_rel reading (listAllNodes E cfg)"
  "state_io_rel reading (listActiveNodes E cfg)"
  "state_io_rel reading (shutdownNodeNames E cfg)"
  "state_io_rel reading (filterEligibleNodes E cfg nodes)"
  "state_io_rel reading (node_lister E)"
  "state_io_rel reading (pod_lister E)"
  unfolding listAllNodes_def listActiveNodes_def shutdownNodeNames_def filterEligibleNodes_def
    node_lister_def pod_lister_def
  by (intro frame_intro)+

lemmas [frame_intro] = list_reading list_reading [THEN reading_all(1)]
  list_reading [THEN reading_all(2)] list_reading [THEN reading_all(3)]

text \<open>
  The four parts a reconciler is assembled from, by their contracts. Everything below about a
  loop of the reconciler is proved from these, and holds for what \<open>build_reconciler\<close> makes.
\<close>

locale reconciler_parts =
  fixes r :: reconciler
  assumes down_advises: "advisor (sd_ShouldScaleDown (r_ScaleDownStrategy r))"
    and up_advises: "advisor (\<lambda>_ :: unit. su_ShouldScaleUp (r_ScaleUpStrategy r))"
    and shutdowner_acts: "power_controller (r_Shutdowner r)"
    and power_oner_acts: "power_controller (\<lambda>(node, mac). r_PowerOner r node mac)"

sublocale reconciler_parts \<subseteq> down: advisor "sd_ShouldScaleDown (r_ScaleDownStrategy r)"
  by (rule down_advises)

sublocale reconciler_parts \<subseteq> up: advisor "\<lambda>_ :: unit. su_ShouldScaleUp (r_ScaleUpStrategy r)"
  by (rule up_advises)

sublocale reconciler_parts \<subseteq> shutdowner: power_controller "r_Shutdowner r"
  by (rule shutdowner_acts)

sublocale reconciler_parts \<subseteq> power_oner: power_controller "\<lambda>(node, mac). r_PowerOner r node mac"
  by (rule power_oner_acts)

lemma apply_option_frame:
  "r_Cfg (fold apply_option opts r) = r_Cfg r"
  "r_Shutdowner (fold apply_option opts r) = r_Shutdowner r"
  "r_PowerOner (fold apply_option opts r) = r_PowerOner r"
proof (induction opts arbitrary: r)
  case (Cons opt opts)
  { case 1 show ?case using Cons by (cases opt) simp_all }
  { case 2 show ?case using Cons by (cases opt) simp_all }
  { case 3 show ?case using Cons by (cases opt) simp_all }
qed simp_all

lemma build_reconciler_simps [simp]:
  "r_Cfg (build_reconciler E cfg opts) = cfg"
  "r_Shutdowner (build_reconciler E cfg opts) = fst (NewControllersFromConfig E cfg)"
  "r_PowerOner (build_reconciler E cfg opts) = snd (NewControllersFromConfig E cfg)"
  by (simp_all add: build_reconciler_def Let_def apply_option_frame split: prod.split)

lemma build_reconciler_chains:
  "\<exists>a b. r_ScaleDownStrategy (build_reconciler E cfg opts) = buildScaleDownStrategy E cfg a b"
  "\<exists>c. r_ScaleUpStrategy (build_reconciler E cfg opts) = buildScaleUpStrategy E cfg c"
  by (auto simp: build_reconciler_def Let_def split: prod.split)

interpretation down_chain: advisor "sd_ShouldScaleDown (buildScaleDownStrategy E cfg a b)" for E cfg a b
proof -
  have "advisor (sd_ShouldScaleDown (ResourceAwareScaleDown E (resource_aware_of E cfg)))"
    by (rule advisor_ResourceAware) (simp_all add: resource_aware_of_def list_reading)
  then show "advisor (sd_ShouldScaleDown (buildScaleDownStrategy E cfg a b))"
    unfolding buildScaleDownStrategy_def MultiStrategy_def scale_down_strategy.select_convs
    by (intro advisor_MultiStrategy) (auto intro: load_average_down.advisor_axioms split: if_splits)
qed

interpretation up_chain: advisor "\<lambda>_ :: unit. su_ShouldScaleUp (buildScaleUpStrategy E cfg c)" for E cfg c
proof -
  have "advisor (\<lambda>_ :: unit. su_ShouldScaleUp (MinNodeCountScaleUp (min_node_count_of E cfg)))"
    by (rule advisor_MinNodeCount) (simp_all add: min_node_count_of_def list_reading)
  moreover have "advisor (\<lambda>_ :: unit. su_ShouldScaleUp (LoadAverageScaleUp E (load_average_up_of E cfg c)))"
    by (rule advisor_LoadAverageUp) (simp add: load_average_up_of_def Let_def list_reading)
  ultimately show "advisor (\<lambda>_ :: unit. su_ShouldScaleUp (buildScaleUpStrategy E cfg c))"
    unfolding buildScaleUpStrategy_def MultiUpStrategy_def scale_up_strategy.select_convs
    by (intro advisor_MultiUpStrategy) (auto split: if_splits)
qed

interpretation built: reconciler_parts "build_reconciler E cfg opts" for E cfg opts
proof (rule reconciler_parts.intro)
  show "advisor (sd_ShouldScaleDown (r_ScaleDownStrategy (build_reconciler E cfg opts)))"
    using build_reconciler_chains(1) [of E cfg opts] down_chain.advisor_axioms by metis
  show "advisor (\<lambda>_ :: unit. su_ShouldScaleUp (r_ScaleUpStrategy (build_reconciler E cfg opts)))"
    using build_reconciler_chains(2) [of E cfg opts] up_chain.advisor_axioms by metis
  show "power_controller (r_Shutdowner (build_reconciler E cfg opts))"
    by (simp add: config_shutdowner.power_controller_axioms)
  show "power_controller (\<lambda>(node, mac). r_PowerOner (build_reconciler E cfg opts) node mac)"
    by (simp add: config_power_oner.power_controller_axioms)
qed

section \<open>Frames of the loop\<close>

lemma call_Shutdown_frames:
  "(\<And>res. P (CShutdown name res)) \<Longrightarrow> state_io_rel (logs P) (shutdowner name) \<Longrightarrow>
   state_io_rel (logs P) (call_Shutdown shutdowner name)"
  "state_io_rel same_tracker (shutdowner name) \<Longrightarrow> state_io_rel same_tracker (call_Shutdown shutdowner name)"
  "state_io_rel clock_le (shutdowner name) \<Longrightarrow> state_io_rel clock_le (call_Shutdown shutdowner name)"
  unfolding call_Shutdown_def by (intro frame_intro; simp)+

lemma AnnotatePoweredOffNode_frames [frame_intro]:
  "(\<And>c. \<not> is_write c \<Longrightarrow> P c) \<Longrightarrow> (\<And>v res. P (CPatchNode name [(AnnotationPoweredOff, Some v)] res)) \<Longrightarrow>
   state_io_rel (logs P) (AnnotatePoweredOffNode E cfg name)"
  "state_io_rel same_tracker (AnnotatePoweredOffNode E cfg name)"
  "state_io_rel clock_le (AnnotatePoweredOffNode E cfg name)"
  unfolding AnnotatePoweredOffNode_def by (intro frame_intro; simp)+

lemma candidate_gate_reading: "state_io_rel reading (candidate_gate E r name)"
  unfolding candidate_gate_def by (intro frame_intro)

lemma try_candidates_reading: "state_io_rel reading (try_candidates E r cands)"
  by (induction cands) (auto intro!: frame_intro candidate_gate_reading split: gate.split)

lemma PickRotation_reading: "state_io_rel reading (PickRotationPoweroffCandidate E r eligible)"
  unfolding PickRotationPoweroffCandidate_def
  by (intro frame_intro try_candidates_reading) (auto split: list.split intro: frame_intro)

lemmas [frame_intro] = PickRotation_reading PickRotation_reading [THEN reading_all(1)]
  PickRotation_reading [THEN reading_all(2)] PickRotation_reading [THEN reading_all(3)]

lemma clear_recovered_frames [frame_intro]:
  "state_io_rel (logs P) (clear_recovered n)"
  "state_io_rel clock_le (clear_recovered n)"
  unfolding clear_recovered_def by (intro frame_intro)+

lemma shutdown_succeeded_frames [frame_intro]:
  "(\<And>c. \<not> is_write c \<Longrightarrow> P c) \<Longrightarrow> state_io_rel (logs P) (shutdown_succeeded E name)"
  "state_io_rel clock_le (shutdown_succeeded E name)"
  unfolding shutdown_succeeded_def by (intro frame_intro; simp)+

context reconciler_parts begin

lemma PowerOn_logs:
  assumes "client_go E" and "\<And>c. restoring_call c \<Longrightarrow> P c" and "\<And>c. agent_call c \<Longrightarrow> P c"
    and "\<And>name mac res. P (CPowerOn name mac res)"
  shows "state_io_rel (logs P) (PowerOnAndMarkBooted E w cfg (r_PowerOner r) dryRun)"
  using power_oner.calls_agent [of P "(w_Name w, mac)" for mac] assms
  by (intro PowerOnAndMarkBooted_logs) auto

lemma PowerOn_clock [frame_intro]:
  "client_go E \<Longrightarrow> state_io_rel clock_le (PowerOnAndMarkBooted E w cfg (r_PowerOner r) dryRun)"
  using power_oner.keeps_clock [of "(w_Name w, mac)" for mac]
  by (intro PowerOnAndMarkBooted_clock) auto

lemma retire_node_clock [frame_intro]:
  "client_go E \<Longrightarrow> state_io_rel clock_le (retire_node E r name)"
  unfolding retire_node_def
  by (intro frame_intro call_Shutdown_frames shutdowner.keeps_clock)

lemma scale_down_clock [frame_intro]:
  "client_go E \<Longrightarrow> state_io_rel clock_le (scale_down_node E r name)"
  unfolding scale_down_node_def by (intro frame_intro down.keeps_clock)

lemma MaybeScaleUp_clock [frame_intro]:
  "client_go E \<Longrightarrow> state_io_rel clock_le (MaybeScaleUp E r)"
  unfolding MaybeScaleUp_def by (intro frame_intro up.keeps_clock)

lemma reconcile_decide_clock [frame_intro]:
  "client_go E \<Longrightarrow> state_io_rel clock_le (reconcile_decide E r now)"
  unfolding reconcile_decide_def reconcile_loop_def MaybeScaleDown_def MaybeRotate_def rotate_node_def
    ForcePowerOnAll_def force_node_def
  by (intro frame_intro)

lemma Reconcile_clock: "client_go E \<Longrightarrow> state_io_rel clock_le (Reconcile E r)"
  unfolding Reconcile_def by (intro frame_intro)

text \<open>Dry-run: whatever happens, no call writes.\<close>

lemma PowerOn_dry: "dryRun \<Longrightarrow> state_io_rel (logs P) (PowerOnAndMarkBooted E w cfg p dryRun)"
  by (simp add: PowerOnAndMarkBooted_dry frame_intro)

lemma MaybeScaleUp_dry:
  "DryRun (r_Cfg r) \<Longrightarrow> read_only (MaybeScaleUp E r)"
  unfolding MaybeScaleUp_def by (intro frame_intro up.writes_nothing PowerOn_dry; simp)

lemma scale_down_dry:
  "DryRun (r_Cfg r) \<Longrightarrow> read_only (scale_down_node E r name)"
  unfolding scale_down_node_def
  by (intro frame_intro down.writes_nothing reading_all(1) [OF CordonAndDrain_dry]; simp)

lemma rotate_node_dry:
  "DryRun (r_Cfg r) \<Longrightarrow> read_only (rotate_node E r now n)"
  unfolding rotate_node_def by (intro frame_intro PowerOn_dry)

lemma MaybeRotate_dry:
  "DryRun (r_Cfg r) \<Longrightarrow> read_only (MaybeRotate E r)"
  unfolding MaybeRotate_def by (intro frame_intro rotate_node_dry; simp)

lemma ForcePowerOnAll_dry: "read_only (ForcePowerOnAll E cfg p True)"
  unfolding ForcePowerOnAll_def force_node_def by (intro frame_intro PowerOn_dry; simp)

lemma reconcile_decide_dry:
  "DryRun (r_Cfg r) \<Longrightarrow> read_only (reconcile_decide E r now)"
  unfolding reconcile_decide_def reconcile_loop_def MaybeScaleDown_def
  by (intro frame_intro MaybeScaleUp_dry scale_down_dry MaybeRotate_dry)
    (simp_all add: ForcePowerOnAll_dry)

lemma Reconcile_dry:
  assumes "DryRun (r_Cfg r)" shows "read_only (Reconcile E r)"
proof -
  have "read_only (RecoverUnexpectedlyBootedNodes E (r_Cfg r) True)"
    by (rule reading_all(1) [OF recover_frames(3)])
  then show ?thesis unfolding Reconcile_def
    by (simp add: assms, intro frame_intro reconcile_decide_dry assms) simp_all
qed

lemma run_loop_dry: "DryRun (r_Cfg r) \<Longrightarrow> read_only (run_loop n E r)"
  by (induction n) (auto intro!: frame_intro Reconcile_dry split: go.split)

end

end
