(* ===== verification/Node_Selection.thy ===== *)
theory Node_Selection
  imports Store_Cluster
begin

text \<open>
  Which nodes the listings of \<^verbatim>\<open>pkg/nodeops/nodes.go\<close> select: the managed nodes, the nodes that
  are off in the order they are started, the nodes that may be shut down; that no node is a
  candidate for both; and the round trip of the powered-off annotation.
\<close>

section \<open>Which nodes the program considers\<close>

lemma managed_node_iff:
  "managed_node f n \<longleftrightarrow> map_get (node_Labels n) (mf_ManagedLabel f) = ''true'' \<and>
     map_get (node_Labels n) (mf_DisabledLabel f) \<noteq> ''true'' \<and>
     (\<forall>k \<in> fst ` set (mf_IgnoreLabels f). node_Labels n k = None)"
  by (simp add: managed_node_def list_ex_iff split_beta)

lemma run_ListManagedNodes:
  "run_state (ListManagedNodes E f) s = (r, t) \<Longrightarrow>
     (case r of Inl err \<Rightarrow> hist t = CListNodes (Inl err) # hist s
      | Inr ns \<Rightarrow> \<exists>nodes. hist t = CListNodes (Inr nodes) # hist s \<and> ns = filter (managed_node f) nodes) \<and>
     tracker t = tracker s"
  by (auto simp: ListManagedNodes_def ListNodes_def split: sum.splits)

text \<open>Since when a node counts as off: by its annotation, else from the epoch if the tracker says so.\<close>

definition off_since :: "node_state_tracker \<Rightarrow> node \<Rightarrow> time option" where
  "off_since tr n = (case PoweredOffSince n of
     Some t \<Rightarrow> Some t
   | None \<Rightarrow> if IsPoweredOff tr (node_Name n) then Some unix_zero else None)"

lemma shutdown_items_eq:
  "shutdown_items tr ns =
     map (\<lambda>n. (node_Name n, the (off_since tr n))) (filter (\<lambda>n. off_since tr n \<noteq> None) ns)"
  by (induction ns) (auto simp: off_since_def split: option.split)

lemma run_ListShutdownNodeNames:
  assumes "run_state (ListShutdownNodeNames E f) s = (Inr names, t)"
  obtains nodes rnd where "hist t = CRand # CListNodes (Inr nodes) # hist s" and "tracker t = tracker s"
    and "names = map node_Name (sort_Slice rnd (\<lambda>n. the (off_since (tracker s) n))
           (filter (\<lambda>n. off_since (tracker s) n \<noteq> None) (filter (managed_node f) nodes)))"
proof -
  obtain ns s1 where list: "run_state (ListManagedNodes E f) s = (Inr ns, s1)"
    using assms by (auto simp: ListShutdownNodeNames_def split: prod.splits sum.splits)
  then obtain nodes where "hist s1 = CListNodes (Inr nodes) # hist s" "ns = filter (managed_node f) nodes"
    "tracker s1 = tracker s"
    using run_ListManagedNodes [OF list] by auto
  then show ?thesis
    using assms list that
    by (auto simp: ListShutdownNodeNames_def Rand_def shutdown_items_eq sort_Slice_map comp_def simp del: filter_filter)
qed

text \<open>Whether a node may be shut down, by its labels, annotations, spec and tracker entries.\<close>

definition may_stop :: "node_state_tracker \<Rightarrow> time \<Rightarrow> eligibility_config \<Rightarrow> node \<Rightarrow> bool" where
  "may_stop tr now cfg n \<longleftrightarrow>
     (\<forall>(k, v) \<in> set (el_IgnoreLabels cfg). node_Labels n k \<noteq> Some v) \<and>
     node_Annotations n AnnotationPoweredOff = None \<and> \<not> IsPoweredOff tr (node_Name n) \<and>
     \<not> node_Unschedulable n \<and>
     \<not> running (shutdownTimestamps tr (node_Name n)) now (el_Cooldown cfg) \<and>
     \<not> running (Parse_RFC3339 (map_get (node_Annotations n) AnnotationBootedAt)) now (el_BootCooldown cfg) \<and>
     \<not> running (bootTimestamps tr (node_Name n)) now (el_BootCooldown cfg)"

lemma shutdown_eligible_iff:
  "shutdown_eligible cfg (NewNodeWrapper n (Some tr) now keys (el_IgnoreLabels cfg)) \<longleftrightarrow> may_stop tr now cfg n"
proof -
  have "IsIgnored (NewNodeWrapper n (Some tr) now keys (el_IgnoreLabels cfg)) \<longleftrightarrow>
      \<not> (\<forall>(k, v) \<in> set (el_IgnoreLabels cfg). node_Labels n k \<noteq> Some v)"
    by (auto simp: IsIgnored_def list_ex_iff)
  then show ?thesis
    by (simp add: may_stop_def shutdown_eligible_def IsMarkedPoweredOff_def IsCordoned_def IsInShutdownCooldown_def
        IsInBootCooldown_def IsInCooldown_def IsBootCooldownActive_def running_def split: option.split)
qed

lemma eligible_nodes:
  "mset (map w_Node (fst (run_state (FilterShutdownEligibleNodes E nodes now cfg) s))) =
   mset (filter (may_stop (tracker s) now cfg) nodes)"
proof -
  have "w_Node \<circ> (\<lambda>n. NewNodeWrapper n st now keys ignore) = id" for st keys ignore
    by (simp add: fun_eq_iff)
  moreover have "shutdown_eligible cfg \<circ> (\<lambda>n. NewNodeWrapper n (Some tr) now keys (el_IgnoreLabels cfg)) =
      may_stop tr now cfg" for tr keys
    by (simp add: fun_eq_iff shutdown_eligible_iff)
  moreover have "mset (map f (rand_Shuffle rnd xs)) = mset (map f xs)" for f :: "node_wrapper \<Rightarrow> node" and rnd xs
    by simp
  ultimately show ?thesis
    by (simp add: FilterShutdownEligibleNodes_def Rand_def WrapNodes_def filter_map del: mset_map mset_filter)
qed

lemma PoweredOffSince_None: "node_Annotations n AnnotationPoweredOff = None \<Longrightarrow> PoweredOffSince n = None"
  by (simp add: PoweredOffSince_def)

lemma off_since_sample:
  "PoweredOffSince (off_node name ''1970-01-01T00:00:10Z'') = Some (10 * Second)"
  "PoweredOffSince (off_node name ''unknown'') = Some 0"
proof -
  have "Parse_RFC3339 ''1970-01-01T00:00:10Z'' = Some (10 * Second)" by code_simp
  moreover have "Parse_RFC3339 ''unknown'' = None \<and> Parse_literal_Z ''unknown'' = None" by code_simp
  ultimately show "PoweredOffSince (off_node name ''1970-01-01T00:00:10Z'') = Some (10 * Second)"
    "PoweredOffSince (off_node name ''unknown'') = Some 0"
    by (simp_all add: PoweredOffSince_def unix_zero_def)
qed

definition sample_filter :: managed_node_filter where
  "sample_filter = \<lparr>mf_ManagedLabel = ''managed'', mf_DisabledLabel = ''disabled'', mf_IgnoreLabels = []\<rparr>"

section \<open>Properties\<close>

text \<open>C26: the shutdown candidates are the names of the managed nodes that are off by annotation or in the
  tracker, each as often as it was listed, ordered by the time they have been off since, the
  oldest first.\<close>

theorem shutdown_names_oldest_first:
  assumes "run_state (ListShutdownNodeNames E f) s = (Inr names, t)"
  shows "\<exists>nodes items. hist t = CRand # CListNodes (Inr nodes) # hist s \<and> names = map node_Name items \<and>
    mset items = mset (filter (\<lambda>n. managed_node f n \<and> off_since (tracker s) n \<noteq> None) nodes) \<and>
    sorted (map (\<lambda>n. the (off_since (tracker s) n)) items)"
proof -
  obtain nodes rnd where hist: "hist t = CRand # CListNodes (Inr nodes) # hist s"
    and names: "names = map node_Name (sort_Slice rnd (\<lambda>n. the (off_since (tracker s) n))
           (filter (\<lambda>n. off_since (tracker s) n \<noteq> None) (filter (managed_node f) nodes)))"
    by (rule run_ListShutdownNodeNames [OF assms])
  show ?thesis
    by (intro exI [where x = nodes] exI conjI, rule hist, rule names) (simp_all add: conj_commute)
qed

theorem shutdown_names_oldest_first_witness:
  "fst (run_state (ListShutdownNodeNames
       (constant_env [off_node ''n1'' ''1970-01-01T00:00:10Z'', sample_node ''n2'', off_node ''n3'' ''unknown''] [] ok_resp)
       sample_filter) init_sys) = Inr [''n3'', ''n1'']"
proof -
  let ?ns = "[off_node ''n1'' ''1970-01-01T00:00:10Z'', sample_node ''n2'', off_node ''n3'' ''unknown'']"
  let ?run = "run_state (ListShutdownNodeNames (constant_env ?ns [] ok_resp) sample_filter) init_sys"
  have off: "off_since NewNodeStateTracker (off_node ''n1'' ''1970-01-01T00:00:10Z'') = Some (10 * Second)"
    "off_since NewNodeStateTracker (sample_node ''n2'') = None"
    "off_since NewNodeStateTracker (off_node ''n3'' ''unknown'') = Some 0"
    by (simp_all add: off_since_def off_since_sample PoweredOffSince_None sample_node_def tracker_defs)
  obtain names where names: "fst ?run = Inr names"
    and hist: "hist (snd ?run) = [CRand, CListNodes (Inr ?ns)]"
    by (simp add: ListShutdownNodeNames_def ListManagedNodes_def ListNodes_def Rand_def constant_env_def init_sys_def)
  from shutdown_names_oldest_first [OF run_result [OF names]]
  obtain nodes items where h: "hist (snd ?run) = CRand # CListNodes (Inr nodes) # hist init_sys"
    and items: "names = map node_Name items"
      "mset items = mset (filter (\<lambda>n. managed_node sample_filter n \<and> off_since (tracker init_sys) n \<noteq> None) nodes)"
      "sorted (map (\<lambda>n. the (off_since (tracker init_sys) n)) items)"
    by blast
  have "filter (\<lambda>n. managed_node sample_filter n \<and> off_since (tracker init_sys) n \<noteq> None) ?ns =
      [off_node ''n1'' ''1970-01-01T00:00:10Z'', off_node ''n3'' ''unknown'']"
    by (simp add: off init_sys_def managed_node_iff map_get_def sample_filter_def)
  moreover have "nodes = ?ns" using h hist by simp
  ultimately have two: "mset items = mset [off_node ''n1'' ''1970-01-01T00:00:10Z'', off_node ''n3'' ''unknown'']"
    using items(2) by metis
  then obtain a b where "items = [a, b]" using mset_eq_length [OF two] by (auto simp: length_Suc_conv numeral_2_eq_2)
  then have "items = [off_node ''n3'' ''unknown'', off_node ''n1'' ''1970-01-01T00:00:10Z'']"
    using two items(3) by (auto simp: off init_sys_def Second_def add_eq_conv_ex)
  then show ?thesis using names items(1) by simp
qed

text \<open>No node is a candidate for starting and for stopping at once: a node that the filter finds
  eligible for shutdown is not among the names of the powered-off nodes computed from the same listing
  and the same tracker.\<close>

theorem candidates_disjoint:
  assumes "run_state (ListShutdownNodeNames E f) s = (Inr names, t)"
    and "hist t = CRand # CListNodes (Inr nodes) # hist s" and "distinct (map node_Name nodes)"
    and "run_state (FilterShutdownEligibleNodes E (filter (managed_node f) nodes) now cfg) s' = (ws, t')"
    and "tracker s' = tracker s"
  shows "set names \<inter> set (map w_Name ws) = {}"
proof -
  obtain nodes' rnd where "hist t = CRand # CListNodes (Inr nodes') # hist s"
    and names: "names = map node_Name (sort_Slice rnd (\<lambda>n. the (off_since (tracker s) n))
           (filter (\<lambda>n. off_since (tracker s) n \<noteq> None) (filter (managed_node f) nodes')))"
    by (rule run_ListShutdownNodeNames [OF assms(1)])
  then have nodes: "nodes' = nodes" using assms(2) by simp
  have mset_ws: "mset (map w_Node ws) = mset (filter (may_stop (tracker s) now cfg) (filter (managed_node f) nodes))"
    using eligible_nodes [of E "filter (managed_node f) nodes" now cfg s'] unfolding assms(4,5) fst_conv .
  have "w_Name w \<notin> set names" if "w \<in> set ws" for w
  proof -
    have "w_Node w \<in># mset (map w_Node ws)" using that by auto
    then have n: "w_Node w \<in> set nodes" "may_stop (tracker s) now cfg (w_Node w)"
      unfolding mset_ws by simp_all
    then have "off_since (tracker s) (w_Node w) = None"
      by (simp add: off_since_def PoweredOffSince_None may_stop_def)
    moreover have "m = w_Node w" if "m \<in> set nodes" "node_Name m = w_Name w" for m
      using that n(1) assms(3) unfolding distinct_map by (blast dest: inj_onD)
    ultimately show ?thesis by (auto simp: names nodes)
  qed
  then show ?thesis by auto
qed

theorem candidates_disjoint_witness:
  "\<exists>names ws t t'.
     run_state (ListShutdownNodeNames (constant_env [off_node ''n1'' ''unknown'', sample_node ''n2''] [] ok_resp)
       sample_filter) init_sys = (Inr names, t) \<and>
     run_state (FilterShutdownEligibleNodes (constant_env [off_node ''n1'' ''unknown'', sample_node ''n2''] [] ok_resp)
       (filter (managed_node sample_filter) [off_node ''n1'' ''unknown'', sample_node ''n2'']) (1000 * Second)
       \<lparr>el_Cooldown = Minute, el_BootCooldown = Minute, el_IgnoreLabels = []\<rparr>) t = (ws, t') \<and>
     names = [''n1''] \<and> map w_Name ws = [''n2''] \<and> set names \<inter> set (map w_Name ws) = {}"
proof -
  let ?ns = "[off_node ''n1'' ''unknown'', sample_node ''n2'']"
  let ?E = "constant_env ?ns [] ok_resp"
  let ?cfg = "\<lparr>el_Cooldown = Minute, el_BootCooldown = Minute, el_IgnoreLabels = []\<rparr>"
  let ?run = "run_state (ListShutdownNodeNames ?E sample_filter) init_sys"
  let ?run' = "run_state (FilterShutdownEligibleNodes ?E (filter (managed_node sample_filter) ?ns) (1000 * Second) ?cfg) (snd ?run)"
  have "PoweredOffSince (sample_node ''n2'') = None"
    by (simp add: PoweredOffSince_None sample_node_def)
  then have names: "fst ?run = Inr [''n1'']" and t: "hist (snd ?run) = CRand # CListNodes (Inr ?ns) # hist init_sys"
    and tr: "tracker (snd ?run) = tracker init_sys"
    by (simp_all add: ListShutdownNodeNames_def ListManagedNodes_def ListNodes_def Rand_def constant_env_def init_sys_def
        managed_node_def sample_filter_def map_get_def off_since_sample sample_node_def tracker_defs sort_Slice_def
        rand_Shuffle_def)
  have ws: "map w_Name (fst ?run') = [''n2'']"
    by (simp add: tr init_sys_def run_simps sample_filter_def rand_Shuffle_def tracker_defs)
  have "distinct (map node_Name ?ns)" by (simp add: sample_node_def)
  from candidates_disjoint [OF run_result [OF names] t this run_result [OF refl] tr]
  show ?thesis using run_result [OF names] ws by (metis prod.collapse)
qed

text \<open>C27: the second parse attempt never matters: a node is off since the instant its annotation spells in
  RFC 3339, since the epoch when the annotation is some other text, and not off when it has no
  annotation or an empty one.\<close>

theorem PoweredOffSince_equiv:
  "PoweredOffSince n =
     (let raw = map_get (node_Annotations n) AnnotationPoweredOff
      in if raw = '''' then None
         else Some (case Parse_RFC3339 raw of Some t \<Rightarrow> t | None \<Rightarrow> unix_zero))"
proof -
  have "Parse_literal_Z raw = None" if "Parse_RFC3339 raw = None" for raw
    using that literal_Z_subsumed by (cases "Parse_literal_Z raw") auto
  then show ?thesis by (auto simp: PoweredOffSince_def map_get_def Let_def split: option.split)
qed

end
