(* ===== verification/Rotation.thy ===== *)
theory Rotation
  imports Reconciler Node_Selection
begin

text \<open>
  Rotation: which node the search of \<^verbatim>\<open>MaybeRotate\<close> finds, and under which conditions the node is
  then powered on.
\<close>

section \<open>The oldest overdue node\<close>

text \<open>What makes a node overdue, and since when.\<close>

definition overdue_since :: "config \<Rightarrow> time \<Rightarrow> node \<Rightarrow> time option" where
  "overdue_since cfg now n =
    (if rotation_exempt cfg n \<or> ShouldIgnoreNodeDueToLabels n (IgnoreLabels cfg) then None
     else case PoweredOffSince n of
       None \<Rightarrow> None
     | Some t \<Rightarrow> if time_Sub now t \<ge> rot_MaxPoweredOffDuration (Rotation cfg) then Some t else None)"

lemma find_overdue_step:
  "find_overdue cfg now (n # ns) best = find_overdue cfg now ns
     (case overdue_since cfg now n of
        None \<Rightarrow> best
      | Some t \<Rightarrow> (case best of None \<Rightarrow> Some (n, t) | Some (_, b) \<Rightarrow> if t < b then Some (n, t) else best))"
  by (simp add: overdue_since_def split: option.split)

declare find_overdue.simps(2) [simp del]

text \<open>The best so far is overdue and no later than any overdue node already seen.\<close>

lemma find_overdue_inv:
  assumes "\<And>n t. best = Some (n, t) \<Longrightarrow> overdue_since cfg now n = Some t \<and> n \<in> set seen"
    and "\<And>m u. m \<in> set seen \<Longrightarrow> overdue_since cfg now m = Some u \<Longrightarrow> \<exists>n t. best = Some (n, t) \<and> t \<le> u"
  shows "case find_overdue cfg now ns best of
      None \<Rightarrow> \<forall>m \<in> set (seen @ ns). overdue_since cfg now m = None
    | Some (n, t) \<Rightarrow> n \<in> set (seen @ ns) \<and> overdue_since cfg now n = Some t \<and>
        (\<forall>m \<in> set (seen @ ns). \<forall>u. overdue_since cfg now m = Some u \<longrightarrow> t \<le> u)"
  using assms
proof (induction ns arbitrary: best seen)
  case Nil
  show ?case
  proof (cases best)
    case None
    then show ?thesis using Nil(2) by fastforce
  next
    case (Some p)
    then show ?thesis using Nil by (cases p) fastforce
  qed
next
  case (Cons n ns)
  let ?best = "case overdue_since cfg now n of
        None \<Rightarrow> best
      | Some t \<Rightarrow> (case best of None \<Rightarrow> Some (n, t) | Some (_, b) \<Rightarrow> if t < b then Some (n, t) else best)"
  have "case find_overdue cfg now ns ?best of
      None \<Rightarrow> \<forall>m \<in> set (seen @ n # ns). overdue_since cfg now m = None
    | Some (k, t) \<Rightarrow> k \<in> set (seen @ n # ns) \<and> overdue_since cfg now k = Some t \<and>
        (\<forall>m \<in> set (seen @ n # ns). \<forall>u. overdue_since cfg now m = Some u \<longrightarrow> t \<le> u)"
  proof (rule Cons.IH [where seen = "seen @ [n]", unfolded append_assoc append_Cons append_Nil])
    show "overdue_since cfg now k = Some t \<and> k \<in> set (seen @ [n])" if "?best = Some (k, t)" for k t
      using that Cons.prems(1) by (auto split: option.splits if_splits prod.splits)
    show "\<exists>k t. ?best = Some (k, t) \<and> t \<le> u"
      if m: "m \<in> set (seen @ [n])" "overdue_since cfg now m = Some u" for m u
    proof (cases "m = n")
      case True
      then show ?thesis using m by (auto split: option.splits prod.splits)
    next
      case False
      then obtain k t where "best = Some (k, t)" "t \<le> u" using m Cons.prems(2) [of m u] by auto
      then show ?thesis by (auto split: option.splits)
    qed
  qed
  then show ?case unfolding find_overdue_step .
qed

section \<open>The guards of a rotation\<close>

text \<open>Everything before the power-on, which only reads.\<close>

definition rotation_search :: "env \<Rightarrow> reconciler \<Rightarrow> (time \<times> node) option io" where
  "rotation_search E r = do {
     now \<leftarrow> Now E;
     m \<leftarrow> ListManagedNodes E (managed_filter (r_Cfg r));
     case m of
       Inl err \<Rightarrow> ret None
     | Inr managed \<Rightarrow>
         (case find_overdue (r_Cfg r) now managed None of
            None \<Rightarrow> ret None
          | Some (overdue, since) \<Rightarrow> do {
              a \<leftarrow> listAllNodes E (r_Cfg r);
              case a of
                Inl err \<Rightarrow> ret None
              | Inr allNodes \<Rightarrow> do {
                  eligible \<leftarrow> filterEligibleNodes E (r_Cfg r) allNodes;
                  if int (length eligible) + 1 \<le> MinNodes (r_Cfg r) then ret None
                  else do {
                    cand \<leftarrow> PickRotationPoweroffCandidate E r eligible;
                    ret (map_option (\<lambda>_. (now, overdue)) cand)
                  }
                }
            })
   }"

lemma rotation_search_reading: "state_io_rel reading (rotation_search E r)"
  unfolding rotation_search_def by (intro frame_intro)

lemma MaybeRotate_search:
  assumes "rot_Enabled (Rotation (r_Cfg r))" and "0 < rot_MaxPoweredOffDuration (Rotation (r_Cfg r))"
  shows "run_state (MaybeRotate E r) s =
    (case run_state (rotation_search E r) s of
       (None, s') \<Rightarrow> ((), s')
     | (Some (now, overdue), s') \<Rightarrow> run_state (rotate_node E r now overdue) s')"
  using assms
  by (auto simp: MaybeRotate_def rotation_search_def split: prod.split sum.split option.split)

lemma rotation_search_Some:
  assumes "run_state (rotation_search E r) s = (Some (now, overdue), t)"
  obtains s0 nodes s0' since allNodes s1 eligible s2 cand where
    "run_state (Now E) s = (now, s0)"
    "run_state (ListManagedNodes E (managed_filter (r_Cfg r))) s0 = (Inr nodes, s0')"
    "run_state (listAllNodes E (r_Cfg r)) s0' = (Inr allNodes, s1)"
    "find_overdue (r_Cfg r) now nodes None = Some (overdue, since)"
    "run_state (filterEligibleNodes E (r_Cfg r) allNodes) s1 = (eligible, s2)"
    "MinNodes (r_Cfg r) < int (length eligible) + 1"
    "run_state (PickRotationPoweroffCandidate E r eligible) s2 = (Some cand, t)"
  using assms
  by (auto simp: rotation_search_def split: prod.splits sum.splits option.splits if_splits)

section \<open>Properties\<close>

text \<open>C16: the search finds nothing exactly when no managed node is overdue, and otherwise an overdue node
  that has been off at least as long as every other overdue one.\<close>

theorem find_overdue_oldest:
  "case find_overdue cfg now ns None of
     None \<Rightarrow> \<forall>m \<in> set ns. overdue_since cfg now m = None
   | Some (n, t) \<Rightarrow> n \<in> set ns \<and> overdue_since cfg now n = Some t \<and>
       (\<forall>m \<in> set ns. \<forall>u. overdue_since cfg now m = Some u \<longrightarrow> t \<le> u)"
  by (rule find_overdue_inv [where seen = "[]", unfolded append_Nil]) simp_all

definition rotating_config :: config where
  "rotating_config = sample_config\<lparr>PowerOnMode := ''disabled'',
     Rotation := \<lparr>rot_Enabled = True, rot_MaxPoweredOffDuration = Minute, rot_ExemptLabel = []\<rparr>\<rparr>"


theorem find_overdue_oldest_witness:
  "map_option (\<lambda>(n, t). (node_Name n, t)) (find_overdue rotating_config (1000 * Second)
     [off_node ''n1'' ''1970-01-01T00:00:10Z'', sample_node ''n2'', off_node ''n3'' ''unknown''] None) = Some (''n3'', 0)"
proof -
  let ?ns = "[off_node ''n1'' ''1970-01-01T00:00:10Z'', sample_node ''n2'', off_node ''n3'' ''unknown'']"
  have off: "overdue_since rotating_config (1000 * Second) (?ns ! 0) = Some (10 * Second)"
    "overdue_since rotating_config (1000 * Second) (?ns ! 1) = None"
    "overdue_since rotating_config (1000 * Second) (?ns ! 2) = Some 0"
    by (simp_all add: overdue_since_def rotation_exempt_def rotating_config_def sample_config_def off_since_sample
        ShouldIgnoreNodeDueToLabels_def time_Sub_def Second_def Minute_def max_int64_def min_int64_def
        PoweredOffSince_None sample_node_def)
  then show ?thesis
    using find_overdue_oldest [where cfg = rotating_config and now = "1000 * Second" and ns = ?ns]
    by (auto simp: Second_def split: option.splits)
qed

text \<open>C15: a rotation that does more than read happens only with rotation switched on, for the oldest overdue
  node of the managed nodes listed at its start, when the eligible among the nodes of the second
  listing and the one to start exceed the minimum, and when some eligible node could be retired
  instead; all it then does is power on that node. The stages follow each other: each works on
  what the one before it returned.\<close>

theorem rotation_guards:
  assumes "run_state (MaybeRotate E r) s = ((), t)" and "\<not> reading s t"
  shows "\<exists>now s0 nodes s0' overdue since allNodes s1 eligible s2 cand s3.
    rot_Enabled (Rotation (r_Cfg r)) \<and> 0 < rot_MaxPoweredOffDuration (Rotation (r_Cfg r)) \<and>
    run_state (Now E) s = (now, s0) \<and>
    run_state (ListManagedNodes E (managed_filter (r_Cfg r))) s0 = (Inr nodes, s0') \<and>
    find_overdue (r_Cfg r) now nodes None = Some (overdue, since) \<and>
    run_state (listAllNodes E (r_Cfg r)) s0' = (Inr allNodes, s1) \<and>
    run_state (filterEligibleNodes E (r_Cfg r) allNodes) s1 = (eligible, s2) \<and>
    MinNodes (r_Cfg r) < int (length eligible) + 1 \<and>
    run_state (PickRotationPoweroffCandidate E r eligible) s2 = (Some cand, s3) \<and>
    run_state (rotate_node E r now overdue) s3 = ((), t)"
proof -
  have on: "rot_Enabled (Rotation (r_Cfg r))" "0 < rot_MaxPoweredOffDuration (Rotation (r_Cfg r))"
    using assms reading.R_refl by (auto simp: MaybeRotate_def split: if_splits)
  obtain x s3 where search: "run_state (rotation_search E r) s = (x, s3)" by fastforce
  have "reading s s3" by (rule state_io_rel_run [OF rotation_search_reading search])
  then obtain now overdue where x: "x = Some (now, overdue)"
    and rotate: "run_state (rotate_node E r now overdue) s3 = ((), t)"
    using assms MaybeRotate_search [OF on, of E s] search by (auto split: option.splits)
  show ?thesis
    using rotation_search_Some [OF search [unfolded x]] on rotate by metis
qed

theorem rotation_guards_witness:
  "\<exists>E r t. run_state (MaybeRotate E r) init_sys = ((), t) \<and> rot_Enabled (Rotation (r_Cfg r)) \<and>
     LastShutdownTime (tracker t) = 1000 * Second"
proof -
  let ?E = "constant_env [sample_node ''n1'', off_node ''n2'' ''unknown''] [] ok_resp"
  let ?r = "build_reconciler ?E rotating_config []"
  let ?t = "snd (run_state (MaybeRotate ?E ?r) init_sys)"
  have run: "run_state (MaybeRotate ?E ?r) init_sys = ((), ?t)" by (simp add: prod_eq_iff)
  have last: "LastShutdownTime (tracker ?t) = 1000 * Second"
    by (simp add: run_simps rotating_config_def find_overdue_step overdue_since_def rotation_exempt_def
        off_since_sample PoweredOffSince_None ShouldIgnoreNodeDueToLabels_def tracker_defs rand_Shuffle_def time_Sub_def max_int64_def
        min_int64_def Second_def Minute_def)
  then have "\<not> reading init_sys ?t"
    by (auto simp: reading_def same_tracker_def init_sys_def NewNodeStateTracker_def zero_time_def Second_def)
  from rotation_guards [OF run this] run last show ?thesis by blast
qed

end
