(* ===== verification/Autoscaler_Main.thy ===== *)
theory Autoscaler_Main
  imports Reconciler
begin

text \<open>
  The program of \<^verbatim>\<open>main.go\<close>: loading the configuration, the command-line overrides, the bootstrap
  cooldown, the reconciler and its loop, for the first \<open>n\<close> rounds. What \<^verbatim>\<open>main\<close> does before is in
  \<^verbatim>\<open>Startup\<close>; the MAC updater is in \<^verbatim>\<open>Node_Util\<close> and runs beside the loop in \<^verbatim>\<open>Process\<close>.
\<close>

text \<open>The three override flags, which are unset when negative.\<close>

definition override_options :: "real \<Rightarrow> real \<Rightarrow> real \<Rightarrow> reconciler_option list" where
  "override_options nodeLoad clusterLoadDown clusterLoadUp =
     (if nodeLoad \<ge> 0 then [WithDryRunNodeLoad nodeLoad] else []) @
     (if clusterLoadDown \<ge> 0 then [WithDryRunClusterLoadDown clusterLoadDown] else []) @
     (if clusterLoadUp \<ge> 0 then [WithDryRunClusterLoadUp clusterLoadUp] else [])"

definition mac_updater_of :: "config \<Rightarrow> mac_updater_config" where
  "mac_updater_of cfg =
     \<lparr>mu_DryRun = DryRun cfg, mu_Interval = MACDiscoveryInterval cfg, mu_Port = sm_Port (ShutdownManager cfg),
      mu_Namespace = sm_Namespace (ShutdownManager cfg), mu_PodLabel = sm_PodLabel (ShutdownManager cfg),
      mu_ManagedLabel = nl_Managed (NodeLabels cfg), mu_DisabledLabel = nl_Disabled (NodeLabels cfg),
      mu_IgnoreLabels = IgnoreLabels cfg\<rparr>"

text \<open>The controller with a loaded configuration.\<close>

definition controller_run :: "nat \<Rightarrow> env \<Rightarrow> config \<Rightarrow> reconciler_option list \<Rightarrow> unit go io" where
  "controller_run n E cfg opts = do {
     _ \<leftarrow> when_do (BootstrapCooldownSeconds cfg > 0) (Sleep (wrap64 (BootstrapCooldownSeconds cfg * Second)));
     r \<leftarrow> NewReconciler E cfg opts;
     run_loop n E r
   }"

text \<open>\<open>None\<close> is the exit on a configuration that does not load.\<close>

definition main_run ::
  "nat \<Rightarrow> env \<Rightarrow> string + config \<Rightarrow> bool \<Rightarrow> reconciler_option list \<Rightarrow> unit go option io" where
  "main_run n E decoded dryRunFlag opts =
    (case Load decoded of
       Inl err \<Rightarrow> ret None
     | Inr cfg0 \<Rightarrow>
         let cfg = (if dryRunFlag then cfg0\<lparr>DryRun := True\<rparr> else cfg0)
         in do { x \<leftarrow> controller_run n E cfg opts; ret (Some x) })"

lemma RestorePoweredOffState_frames [frame_intro]:
  "(\<And>c. \<not> is_write c \<Longrightarrow> P c) \<Longrightarrow> state_io_rel (logs P) (RestorePoweredOffState E cfg)"
  "state_io_rel clock_le (RestorePoweredOffState E cfg)"
  unfolding RestorePoweredOffState_def by (intro frame_intro; simp)+

lemma NewReconciler_bind:
  "NewReconciler E cfg opts \<bind> f = do { _ \<leftarrow> RestorePoweredOffState E cfg; f (build_reconciler E cfg opts) }"
  by (simp add: NewReconciler_def Let_def)

lemma controller_run_dry: "DryRun cfg \<Longrightarrow> read_only (controller_run n E cfg opts)"
  unfolding controller_run_def NewReconciler_bind
  by (intro frame_intro built.run_loop_dry) simp_all

lemma main_run_dry:
  assumes "dryRunFlag" shows "read_only (main_run n E decoded dryRunFlag opts)"
  unfolding main_run_def using assms by (intro frame_intro controller_run_dry) simp

end
