(* ===== verification/Reconcile_Safety.thy ===== *)
theory Reconcile_Safety
  imports Autoscaler_Main
begin

text \<open>
  Safety of the whole loop: what a shutdown must be preceded by (\<open>safe_log\<close>), how the time of the
  last power action moves (\<open>last_moves\<close>), and the outcomes of powering on and of scaling down. Each
  is a frame relation or a triple over the programs of \<^verbatim>\<open>Reconciler\<close>, proved inside the contract
  \<open>reconciler_parts\<close>; the properties over the built reconciler are in the root theory.
\<close>

section \<open>What precedes a shutdown\<close>

text \<open>
  Newest call first, a shutdown of \<open>name\<close> comes after calls to its agent only, before that the
  accepted patch that marks the node powered off with the time just read, and right before that
  the three calls that showed the node drained.
\<close>

definition shutdown_evidence :: "string \<Rightarrow> call list \<Rightarrow> bool" where
  "shutdown_evidence name cs =
    (case dropWhile agent_call cs of
       CPatchNode k p None # CNow now # rest \<Rightarrow>
         k = name \<and> p = [(AnnotationPoweredOff, Some (Format_RFC3339 now))] \<and> drained name rest
     | _ \<Rightarrow> False)"

fun safe_log :: "call list \<Rightarrow> bool" where
  "safe_log [] = True"
| "safe_log (CShutdown name r # cs) = (shutdown_evidence name cs \<and> safe_log cs)"
| "safe_log (c # cs) = safe_log cs"

fun is_shutdown :: "call \<Rightarrow> bool" where
  "is_shutdown (CShutdown _ _) = True"
| "is_shutdown _ = False"

lemma safe_log_other: "\<not> is_shutdown c \<Longrightarrow> safe_log (c # cs) = safe_log cs"
  by (cases c) auto

lemma not_shutdown:
  "\<not> is_write c \<Longrightarrow> \<not> is_shutdown c"
  "restoring_call c \<Longrightarrow> \<not> is_shutdown c"
  "draining_call c \<Longrightarrow> \<not> is_shutdown c"
  "agent_call c \<Longrightarrow> \<not> is_shutdown c"
  by (cases c; simp)+

lemma safe_log_split:
  "safe_log cs \<Longrightarrow> cs = post @ CShutdown name r # pre \<Longrightarrow> shutdown_evidence name pre"
proof (induction post arbitrary: cs)
  case (Cons c post)
  then show ?case by (cases c) auto
qed auto

definition keeps_safe :: "sys \<Rightarrow> sys \<Rightarrow> bool" where
  "keeps_safe s t \<longleftrightarrow> (safe_log (hist s) \<longrightarrow> safe_log (hist t))"

interpretation safe: frame_rel keeps_safe
  by unfold_locales (simp_all add: keeps_safe_def)

lemmas [frame_intro] = safe.holds_return safe.holds_bind safe.holds_when safe.holds_for_each

lemma keeps_safe_logs:
  assumes "state_io_rel (logs (\<lambda>c. \<not> is_shutdown c)) m"
  shows "state_io_rel keeps_safe m"
proof (rule state_io_relI)
  fix x s t assume run: "run_state m s = (x, t)"
  obtain cs where "hist t = cs @ hist s" "list_all (\<lambda>c. \<not> is_shutdown c) cs"
    using state_io_rel_run [OF assms run] by (auto simp: logs_def)
  moreover have "safe_log (ds @ h)" if "list_all (\<lambda>c. \<not> is_shutdown c) ds" "safe_log h" for ds h
    using that by (induction ds) (simp_all add: safe_log_other)
  ultimately show "keeps_safe s t" by (simp add: keeps_safe_def)
qed

lemma keeps_safe_reading: "state_io_rel reading m \<Longrightarrow> state_io_rel keeps_safe m"
  by (rule keeps_safe_logs) (rule reading_all(1), assumption, erule not_shutdown)

lemma keeps_safe_quiet [frame_intro]:
  "state_io_rel keeps_safe (on_tracker f)"
  "state_io_rel keeps_safe (on_counters g)"
  by (simp_all add: state_io_rel_def keeps_safe_def)

lemma shutdown_evidence_agent:
  assumes "list_all agent_call as"
    and "hist s2 = CPatchNode name [(AnnotationPoweredOff, Some (Format_RFC3339 now))] None # CNow now # cs @ h"
    and "drained name cs"
  shows "shutdown_evidence name (as @ hist s2)"
proof -
  have "dropWhile agent_call (as @ hist s2) = hist s2"
    using assms(1,2) by (induction as) auto
  then show ?thesis using assms(2,3) by (simp add: shutdown_evidence_def drained_append)
qed

context reconciler_parts begin

lemma call_Shutdown_safe:
  assumes "run_state (call_Shutdown (r_Shutdowner r) name) s2 = (res, t)" and "safe_log (hist s2)"
    and "hist s2 = CPatchNode name [(AnnotationPoweredOff, Some (Format_RFC3339 now))] None # CNow now # cs @ h"
    and "drained name cs"
  shows "safe_log (hist t)"
proof -
  obtain x s3 where act: "run_state (r_Shutdowner r name) s2 = (x, s3)" by fastforce
  then have t: "hist t = CShutdown name x # hist s3" using assms(1) by (auto simp: call_Shutdown_def)
  have "state_io_rel (logs agent_call) (r_Shutdowner r name)" by (rule shutdowner.calls_agent)
  then obtain as where as: "hist s3 = as @ hist s2" "list_all agent_call as"
    using state_io_rel_run [OF _ act, of "logs agent_call"] by (auto simp: logs_def)
  have "state_io_rel keeps_safe (r_Shutdowner r name)"
    by (rule keeps_safe_logs) (rule shutdowner.calls_agent, erule not_shutdown)
  then have "safe_log (hist s3)"
    using state_io_rel_run [OF _ act, of keeps_safe] assms(2) by (auto simp: keeps_safe_def)
  then show ?thesis using shutdown_evidence_agent [OF as(2) assms(3,4)] t as(1) by simp
qed

end

lemma keeps_safe_marks [frame_intro]:
  "state_io_rel keeps_safe (shutdown_succeeded E name)"
  "client_go E \<Longrightarrow> state_io_rel keeps_safe (restoreScheduling E name)"
  "state_io_rel keeps_safe (ClearPoweredOffAnnotation E name)"
  "client_go E \<Longrightarrow> state_io_rel keeps_safe (CordonAndDrain E cfg name)"
  "state_io_rel keeps_safe (AnnotatePoweredOffNode E cfg name)"
  "client_go E \<Longrightarrow> state_io_rel keeps_safe (RecoverUnexpectedlyBootedNodes E cfg dryRun)"
  by (rule keeps_safe_logs, intro frame_intro recover_logs; simp add: not_shutdown)+

lemma AnnotatePoweredOffNode_None:
  assumes "run_state (AnnotatePoweredOffNode E cfg name) s = (None, t)" and "\<not> DryRun cfg"
  shows "\<exists>now. hist t =
    CPatchNode name [(AnnotationPoweredOff, Some (Format_RFC3339 now))] None # CNow now # hist s"
  using assms by (auto simp: AnnotatePoweredOffNode_def Now_def PatchNode_def)

context reconciler_parts begin

text \<open>The state at the call of the shutdown controller.\<close>

lemma annotated_state:
  assumes "client_go E" and "\<not> DryRun (r_Cfg r)"
    and "run_state (CordonAndDrain E (r_Cfg r) name) s = (None, s1)"
    and "run_state (AnnotatePoweredOffNode E (r_Cfg r) name) s1 = (None, s2)"
  shows "\<exists>now cs. hist s2 = CPatchNode name [(AnnotationPoweredOff, Some (Format_RFC3339 now))] None #
      CNow now # cs @ hist s \<and> cordoned name cs \<and> drained name cs"
  using CordonAndDrain_since(2) [OF assms(1,3)] AnnotatePoweredOffNode_None [OF assms(4,2)] assms(2)
  by (auto simp: calls_since_def)

lemma retire_node_safe:
  assumes "client_go E" and "\<not> DryRun (r_Cfg r)"
  shows "state_io_rel keeps_safe (retire_node E r name)"
proof (rule state_io_relI)
  fix ok s t assume run: "run_state (retire_node E r name) s = (ok, t)"
  note go = assms(1)
  note step = state_io_rel_run [of keeps_safe]
  obtain d s1 where drain: "run_state (CordonAndDrain E (r_Cfg r) name) s = (d, s1)" by fastforce
  have k1: "keeps_safe s s1" by (rule step [OF keeps_safe_marks(4) drain]) (rule go)
  obtain a s2 where annotate: "run_state (AnnotatePoweredOffNode E (r_Cfg r) name) s1 = (a, s2)"
    by fastforce
  have k2: "keeps_safe s s2"
    using step [OF keeps_safe_marks(5) annotate] k1 safe.R_trans by blast
  let ?abort = "do { _ \<leftarrow> restoreScheduling E name; ret False }"
  have abort: "state_io_rel keeps_safe ?abort" by (intro frame_intro go)
  define s3 where "s3 = s2\<lparr>counters := (\<lambda>m. m\<lparr>ShutdownAttempts := ShutdownAttempts m + 1\<rparr>) (counters s2)\<rparr>"
  obtain res s4 where shut: "run_state (call_Shutdown (r_Shutdowner r) name) s3 = (res, s4)" by fastforce
  have after: "state_io_rel keeps_safe (case res of
      Some err \<Rightarrow> do { _ \<leftarrow> ClearPoweredOffAnnotation E name; _ \<leftarrow> restoreScheduling E name; ret False }
    | None \<Rightarrow> do { _ \<leftarrow> shutdown_succeeded E name; ret True })"
    by (intro frame_intro go)
  show "keeps_safe s t"
  proof (cases "d = None \<and> a = None")
    case False
    then have "run_state ?abort s1 = (ok, t) \<or> run_state ?abort s2 = (ok, t)"
      using run drain annotate by (cases d; cases a) (auto simp: retire_node_def)
    then show ?thesis using step [OF abort] k1 k2 safe.R_trans by blast
  next
    case True
    have "run_state (case res of
        Some err \<Rightarrow> do { _ \<leftarrow> ClearPoweredOffAnnotation E name; _ \<leftarrow> restoreScheduling E name; ret False }
      | None \<Rightarrow> do { _ \<leftarrow> shutdown_succeeded E name; ret True }) s4 = (ok, t)"
      using run drain annotate shut True by (simp add: retire_node_def s3_def)
    then have k4: "keeps_safe s4 t" by (rule step [OF after])
    obtain now cs where "hist s2 = CPatchNode name [(AnnotationPoweredOff, Some (Format_RFC3339 now))] None #
        CNow now # cs @ hist s" "drained name cs"
      using annotated_state [OF assms] drain annotate True by blast
    then have "keeps_safe s s4"
      using call_Shutdown_safe [OF shut] k2 by (auto simp: keeps_safe_def s3_def)
    then show ?thesis using k4 safe.R_trans by blast
  qed
qed

lemma PowerOn_safe [frame_intro]:
  "client_go E \<Longrightarrow> state_io_rel keeps_safe (PowerOnAndMarkBooted E w cfg (r_PowerOner r) dryRun)"
  by (rule keeps_safe_logs, rule PowerOn_logs) (auto simp: not_shutdown)

lemma scale_down_safe:
  "client_go E \<Longrightarrow> state_io_rel keeps_safe (scale_down_node E r name)"
  unfolding scale_down_node_def
  by (intro frame_intro keeps_safe_reading [OF down.only_reads] retire_node_safe)

lemma MaybeScaleUp_safe:
  "client_go E \<Longrightarrow> state_io_rel keeps_safe (MaybeScaleUp E r)"
  unfolding MaybeScaleUp_def
  by (intro frame_intro keeps_safe_reading [OF up.only_reads] keeps_safe_reading [OF reading_api(6)]
      keeps_safe_reading [OF reading_api(1)] keeps_safe_reading [OF reading_get_tracker])

lemma MaybeRotate_safe:
  "client_go E \<Longrightarrow> state_io_rel keeps_safe (MaybeRotate E r)"
  unfolding MaybeRotate_def rotate_node_def
  by (intro frame_intro keeps_safe_reading [OF reading_api(1)] keeps_safe_reading [OF reading_get_tracker]
      keeps_safe_reading [OF query_reading(2)] keeps_safe_reading [OF list_reading(1)]
      keeps_safe_reading [OF list_reading(4)] keeps_safe_reading [OF PickRotation_reading])

lemma Reconcile_safe:
  "client_go E \<Longrightarrow> state_io_rel keeps_safe (Reconcile E r)"
  unfolding Reconcile_def reconcile_decide_def reconcile_loop_def MaybeScaleDown_def ForcePowerOnAll_def
    force_node_def clear_recovered_def
  by (intro frame_intro scale_down_safe MaybeScaleUp_safe MaybeRotate_safe keeps_safe_reading [OF reading_api(1)]
      keeps_safe_reading [OF reading_get_tracker] keeps_safe_reading [OF query_reading(2)]
      keeps_safe_reading [OF list_reading(1)] keeps_safe_reading [OF list_reading(4)])

lemma run_loop_safe: "client_go E \<Longrightarrow> state_io_rel keeps_safe (run_loop n E r)"
  by (induction n) (auto intro!: frame_intro Reconcile_safe keeps_safe_reading [OF reading_api(2)] split: go.split)

end

lemma main_run_safe: "client_go E \<Longrightarrow> state_io_rel keeps_safe (main_run n E decoded dryRunFlag opts)"
  unfolding main_run_def controller_run_def NewReconciler_bind
  by (intro frame_intro built.run_loop_safe keeps_safe_reading [OF reading_api(2)]
      keeps_safe_logs [OF RestorePoweredOffState_frames(1)] not_shutdown(1))

section \<open>The time of the last power action\<close>

text \<open>
  \<open>same_last\<close>: the time is kept and the clock moves forward. \<open>last_moves\<close>: it is kept or set to
  an instant read on the way.
\<close>

definition same_last :: "sys \<Rightarrow> sys \<Rightarrow> bool" where
  "same_last s t \<longleftrightarrow> LastShutdownTime (tracker t) = LastShutdownTime (tracker s) \<and> clock_le s t"

definition last_moves :: "sys \<Rightarrow> sys \<Rightarrow> bool" where
  "last_moves s t \<longleftrightarrow> clock_le s t \<and>
     (LastShutdownTime (tracker t) = LastShutdownTime (tracker s) \<or>
      clock_floor (hist s) \<le> LastShutdownTime (tracker t) \<and>
      LastShutdownTime (tracker t) \<le> clock_floor (hist t))"

interpretation same_last: frame_rel same_last
  by unfold_locales (auto simp: same_last_def clock_le_def)

interpretation last_moves: frame_rel last_moves
  by unfold_locales (auto simp: last_moves_def clock_le_def)

lemmas [frame_intro] =
  same_last.holds_return same_last.holds_bind same_last.holds_when same_last.holds_for_each
  last_moves.holds_return last_moves.holds_bind last_moves.holds_when last_moves.holds_for_each

lemma same_last_intro: "state_io_rel same_tracker m \<Longrightarrow> state_io_rel clock_le m \<Longrightarrow> state_io_rel same_last m"
  by (simp add: state_io_rel_def same_last_def same_tracker_def)

lemma same_last_reading: "state_io_rel reading m \<Longrightarrow> state_io_rel same_last m"
  by (intro same_last_intro reading_all)

lemma last_moves_same: "state_io_rel same_last m \<Longrightarrow> state_io_rel last_moves m"
  by (auto simp: state_io_rel_def same_last_def last_moves_def)

lemma same_last_marks [frame_intro]:
  "state_io_rel same_last (on_tracker (ClearPoweredOff name))"
  "state_io_rel same_last (on_tracker (MarkPoweredOff name))"
  "state_io_rel same_last (do_MarkShutdown E name)"
  "state_io_rel same_last (do_MarkBooted E name)"
  "state_io_rel same_last (on_counters g)"
  by (auto simp: state_io_rel_def same_last_def clock_le_def do_MarkShutdown_def do_MarkBooted_def
      split: prod.splits dest!: run_Now)

lemma same_last_calls [frame_intro]:
  "state_io_rel same_last (Now E)"
  "state_io_rel same_last (PatchNode E name p)"
  "state_io_rel same_last (PatchRaw E name body)"
  "client_go E \<Longrightarrow> state_io_rel same_last (UncordonNode E name)"
  "state_io_rel same_last (ClearPoweredOffAnnotation E name)"
  "client_go E \<Longrightarrow> state_io_rel same_last (restoreScheduling E name)"
  "client_go E \<Longrightarrow> state_io_rel same_last (CordonAndDrain E cfg name)"
  "state_io_rel same_last (AnnotatePoweredOffNode E cfg name)"
  "client_go E \<Longrightarrow> state_io_rel same_last (RecoverUnexpectedlyBootedNodes E cfg dryRun)"
  by (intro same_last_intro frame_intro; assumption)+

lemma last_moves_mark [frame_intro]: "state_io_rel last_moves (do_MarkGlobalShutdown E)"
  by (auto simp: state_io_rel_def last_moves_def clock_le_def do_MarkGlobalShutdown_def
      split: prod.splits dest!: run_Now)

context reconciler_parts begin

lemma PowerOn_last [frame_intro]:
  assumes "client_go E"
  shows "state_io_rel last_moves (PowerOnAndMarkBooted E w cfg (r_PowerOner r) dryRun)"
proof -
  have "state_io_rel same_last (call_PowerOn (r_PowerOner r) (w_Name w) mac)" for mac
    using power_oner.keeps_tracker [of "(w_Name w, mac)"] power_oner.keeps_clock [of "(w_Name w, mac)"]
    by (intro same_last_intro frame_intro) simp_all
  then show ?thesis unfolding PowerOnAndMarkBooted_def
    by (intro frame_intro assms last_moves_same)
qed

lemma retire_node_last [frame_intro]:
  assumes "client_go E" shows "state_io_rel last_moves (retire_node E r name)"
proof -
  have "state_io_rel same_last (call_Shutdown (r_Shutdowner r) name)"
    by (intro same_last_intro call_Shutdown_frames shutdowner.keeps_tracker shutdowner.keeps_clock)
  then show ?thesis unfolding retire_node_def shutdown_succeeded_def
    by (intro frame_intro assms last_moves_same)
qed

end

text \<open>What a loop does between its first clock reading and its decision.\<close>

definition reconcile_prefix :: "env \<Rightarrow> config \<Rightarrow> error option option io" where
  "reconcile_prefix E cfg = do {
     v \<leftarrow> RecoverUnexpectedlyBootedNodes E cfg (DryRun cfg);
     case v of
       Some err \<Rightarrow> ret (Some None)
     | None \<Rightarrow>
         if DryRun cfg then ret None
         else do {
           a \<leftarrow> listAllNodes E cfg;
           case a of
             Inl err \<Rightarrow> ret (Some (Some err))
           | Inr nodes \<Rightarrow> do { _ \<leftarrow> for_each clear_recovered nodes; ret None }
         }
   }"

context reconciler_parts begin

lemma reconcile_loop_last:
  assumes "client_go E" shows "state_io_rel last_moves (reconcile_loop E r)"
proof -
  have queries: "state_io_rel last_moves (su_ShouldScaleUp (r_ScaleUpStrategy r))"
    "state_io_rel last_moves (sd_ShouldScaleDown (r_ScaleDownStrategy r) name)"
    "state_io_rel last_moves (Now E)" "state_io_rel last_moves (GetNode E name)"
    "state_io_rel last_moves get_tracker" "state_io_rel last_moves (ListManagedNodes E f)"
    "state_io_rel last_moves (listAllNodes E cfg)" "state_io_rel last_moves (filterEligibleNodes E cfg nodes)"
    "state_io_rel last_moves (PickRotationPoweroffCandidate E r eligible)" for name f cfg nodes eligible
    by (intro last_moves_same same_last_reading up.only_reads down.only_reads frame_intro)+
  show ?thesis
    unfolding reconcile_loop_def MaybeScaleUp_def MaybeScaleDown_def scale_down_node_def MaybeRotate_def
      rotate_node_def
    by (intro frame_intro queries assms last_moves_same)
qed

text \<open>
  A loop reads the clock, recovers nodes and clears cached state (\<open>reconcile_prefix\<close>), all of which
  leaves the last power action alone, and then either stops or decides.
\<close>

lemma Reconcile_prefix:
  assumes "run_state (Reconcile E r) s = (x, t)" and "run_state (Now E) s = (now, s0)"
  obtains stop s' where "run_state (reconcile_prefix E (r_Cfg r)) s0 = (stop, s')"
    and "s' = t \<and> x \<noteq> Panic \<or> run_state (reconcile_decide E r now) s' = (x, t)"
proof -
  obtain stop s' where pre: "run_state (reconcile_prefix E (r_Cfg r)) s0 = (stop, s')" by fastforce
  have "s' = t \<and> x \<noteq> Panic \<or> run_state (reconcile_decide E r now) s' = (x, t)"
    using pre assms
    by (auto simp: Reconcile_def reconcile_prefix_def split: prod.splits option.splits sum.splits if_splits)
  with pre show thesis by (rule that)
qed

lemma Reconcile_decides:
  assumes "client_go E" and "run_state (Reconcile E r) s = (x, t)"
    and "run_state (Now E) s = (now, s0)"
  obtains s' where "logs restoring_call s s'" and "same_last s s'" and "now \<le> clock_floor (hist s')"
    and "s' = t \<and> x \<noteq> Panic \<or> run_state (reconcile_decide E r now) s' = (x, t)"
proof -
  obtain stop s' where pre: "run_state (reconcile_prefix E (r_Cfg r)) s0 = (stop, s')"
    and out: "s' = t \<and> x \<noteq> Panic \<or> run_state (reconcile_decide E r now) s' = (x, t)"
    by (rule Reconcile_prefix [OF assms(2,3)])
  have logs: "state_io_rel (logs restoring_call) (reconcile_prefix E (r_Cfg r))"
    unfolding reconcile_prefix_def
    by (intro frame_intro recover_logs assms(1)) (simp_all add: restoring_call_reads)
  have last: "state_io_rel same_last (reconcile_prefix E (r_Cfg r))"
    unfolding reconcile_prefix_def clear_recovered_def by (intro frame_intro assms(1) same_last_reading)
  note rel = state_io_rel_run [OF logs pre] state_io_rel_run [OF last pre]
  note now = run_Now [OF assms(3)]
  have "logs restoring_call s s0" "same_last s s0" "clock_floor (hist s0) = now"
    using now by (auto simp: logs_def same_last_def clock_le_def intro: exI [where x = "[CNow now]"])
  then have "logs restoring_call s s'" "same_last s s'" "now \<le> clock_floor (hist s')"
    using rel logs.R_trans same_last.R_trans by (auto simp: same_last_def clock_le_def)
  with out show thesis by (intro that)
qed

lemma reconcile_decide_cooldown:
  assumes "run_state (reconcile_decide E r now) s = (x, t)" and "\<not> ForcePowerOnAllNodes (r_Cfg r)"
    and "IsGlobalCooldownActive (tracker s) now (Cooldown (r_Cfg r))"
  shows "t = s \<and> x = Ret None"
  using assms by (simp add: reconcile_decide_def)

lemma time_Sub_ge_imp: "0 \<le> d \<Longrightarrow> \<not> time_Sub t u < d \<Longrightarrow> u + d \<le> t"
  by (simp add: time_Sub_def min_int64_def max_int64_def max_def min_def split: if_splits)

lemma Reconcile_spacing:
  assumes "client_go E" and "\<not> ForcePowerOnAllNodes (r_Cfg r)" and "0 \<le> Cooldown (r_Cfg r)"
    and "run_state (Reconcile E r) s = (x, t)"
    and "LastShutdownTime (tracker t) \<noteq> LastShutdownTime (tracker s)"
  shows "LastShutdownTime (tracker s) + Cooldown (r_Cfg r) \<le> LastShutdownTime (tracker t)"
proof -
  obtain now s0 where now: "run_state (Now E) s = (now, s0)" by fastforce
  obtain s' where s': "same_last s s'" "now \<le> clock_floor (hist s')"
      "s' = t \<and> x \<noteq> Panic \<or> run_state (reconcile_decide E r now) s' = (x, t)"
    using Reconcile_decides [OF assms(1,4) now] by metis
  have decide: "run_state (reconcile_decide E r now) s' = (x, t)"
    using s' assms(5) by (auto simp: same_last_def)
  have inactive: "\<not> IsGlobalCooldownActive (tracker s') now (Cooldown (r_Cfg r))"
    using reconcile_decide_cooldown [OF decide assms(2)] s'(1) assms(5) by (auto simp: same_last_def)
  then have "run_state (reconcile_loop E r) s' = (x, t)"
    using decide assms(2) by (simp add: reconcile_decide_def)
  then have "last_moves s' t" by (rule state_io_rel_run [OF reconcile_loop_last [OF assms(1)]])
  then have "now \<le> LastShutdownTime (tracker t)"
    using s' assms(5) by (auto simp: last_moves_def same_last_def)
  moreover have "LastShutdownTime (tracker s) + Cooldown (r_Cfg r) \<le> now"
    using inactive s'(1) time_Sub_ge_imp [OF assms(3)] by (auto simp: IsGlobalCooldownActive_def same_last_def)
  ultimately show ?thesis by simp
qed

end

section \<open>The outcome of powering on and of scaling down\<close>

lemma run_marks:
  "run_state (do { _ \<leftarrow> do_MarkGlobalShutdown E; _ \<leftarrow> do_MarkBooted E name; ret x }) s = (y, t) \<Longrightarrow>
     \<exists>t1 t2. y = x \<and> hist t = CNow t2 # CNow t1 # hist s \<and> t1 \<le> t2 \<and>
       tracker t = MarkBooted t2 name (MarkGlobalShutdown t1 (tracker s))"
  by (auto simp: do_MarkGlobalShutdown_def do_MarkBooted_def Now_def)

lemma run_shutdown_succeeded:
  "run_state (shutdown_succeeded E name) s = (y, t) \<Longrightarrow>
     \<exists>t1 t2. hist t = CNow t2 # CNow t1 # hist s \<and> t1 \<le> t2 \<and>
       tracker t = MarkPoweredOff name (MarkShutdown t2 name (MarkGlobalShutdown t1 (tracker s)))"
  by (auto simp: shutdown_succeeded_def do_MarkGlobalShutdown_def do_MarkShutdown_def Now_def)

context reconciler_parts begin

lemma PowerOn_failed:
  assumes "client_go E" and "run_state (PowerOnAndMarkBooted E w cfg (r_PowerOner r) dryRun) s = (res, t)"
    and "res \<noteq> None \<or> dryRun"
  shows "tracker t = tracker s"
proof -
  have "state_io_rel same_tracker (call_PowerOn (r_PowerOner r) (w_Name w) mac)" for mac
    using power_oner.keeps_tracker [of "(w_Name w, mac)"] by (intro frame_intro) simp
  note frames = logs_same_tracker [OF this] logs_same_tracker [OF tracker_api(1)]
    logs_same_tracker [OF tracker_api(8)] logs_same_tracker [OF uncordon_frames(2) [OF assms(1)]]
    logs_same_tracker [OF uncordon_frames(5)]
  show ?thesis using assms(2,3)
    by (auto simp: PowerOnAndMarkBooted_def Let_def split: if_splits prod.splits option.splits dest!: frames)
qed

text \<open>A successful power-on, with the states around the uncordoning.\<close>

lemma PowerOn_stages:
  assumes "client_go E" and "run_state (PowerOnAndMarkBooted E w cfg (r_PowerOner r) False) s = (None, t)"
  shows "\<exists>mac as now s3 s4 us t1 t2.
    mac = GetMACAddressFromNode (w_Node w) \<lparr>na_MAC = na_MAC (NodeAnnotations cfg)\<rparr> \<and> mac \<noteq> [] \<and>
    hist s3 = CPatchNode (w_Name w) [(AnnotationBootedAt, Some (Format_RFC3339 now))] None # CNow now #
      CPowerOn (w_Name w) mac None # as @ hist s \<and>
    run_state (UncordonNode E (w_Name w)) s3 = (None, s4) \<and> hist s4 = us @ hist s3 \<and>
    hist t = CNow t2 # CNow t1 # CPatchNode (w_Name w) [(AnnotationPoweredOff, None)] None # hist s4 \<and>
    list_all agent_call as \<and> list_all restoring_call us \<and>
    tracker t = MarkBooted t2 (w_Name w) (MarkGlobalShutdown t1 (tracker s))"
proof -
  let ?mac = "GetMACAddressFromNode (w_Node w) \<lparr>na_MAC = na_MAC (NodeAnnotations cfg)\<rparr>"
  have mac: "?mac \<noteq> []" using assms(2) by (auto simp: PowerOnAndMarkBooted_def Let_def)
  obtain p s1 where act: "run_state (r_PowerOner r (w_Name w) ?mac) s = (p, s1)" by fastforce
  let ?s1 = "s1\<lparr>hist := CPowerOn (w_Name w) ?mac p # hist s1\<rparr>"
  obtain now s2 where now: "run_state (Now E) ?s1 = (now, s2)" by fastforce
  obtain b s3 where boot: "run_state (PatchNode E (w_Name w)
      [(AnnotationBootedAt, Some (Format_RFC3339 now))]) s2 = (b, s3)" by fastforce
  obtain u s4 where cordon: "run_state (UncordonNode E (w_Name w)) s3 = (u, s4)" by fastforce
  obtain c s5 where clear: "run_state (ClearPoweredOffAnnotation E (w_Name w)) s4 = (c, s5)" by fastforce
  have "p = None \<and> b = None \<and> u = None \<and> c = None \<and>
      run_state (do { _ \<leftarrow> do_MarkGlobalShutdown E; _ \<leftarrow> do_MarkBooted E (w_Name w); ret None }) s5 = (None :: error option, t)"
    using assms(2) mac act now boot cordon clear
    by (cases p; cases b; cases u; cases c) (simp_all add: PowerOnAndMarkBooted_def call_PowerOn_def Let_def)
  then have ok: "p = None" "b = None" "u = None" "c = None" and
    marks: "run_state (do { _ \<leftarrow> do_MarkGlobalShutdown E; _ \<leftarrow> do_MarkBooted E (w_Name w); ret None }) s5 = (None :: error option, t)"
    by auto
  have "state_io_rel (logs agent_call) (r_PowerOner r (w_Name w) ?mac)"
    using power_oner.calls_agent [of agent_call "(w_Name w, ?mac)"] by simp
  then obtain as where as: "hist s1 = as @ hist s" "list_all agent_call as"
    using logs_run [OF _ act] by blast
  have "state_io_rel (logs restoring_call) (UncordonNode E (w_Name w))" by (intro uncordon_frames assms(1))
  then obtain us where us: "hist s4 = us @ hist s3" "list_all restoring_call us"
    using logs_run [OF _ cordon] by blast
  have "tracker s1 = tracker s" "tracker s4 = tracker s3"
    using logs_same_tracker [OF _ act] power_oner.keeps_tracker [of "(w_Name w, ?mac)"]
      logs_same_tracker [OF uncordon_frames(2) [OF assms(1)] cordon] by simp_all
  moreover have "hist s3 = CPatchNode (w_Name w) [(AnnotationBootedAt, Some (Format_RFC3339 now))] None #
      CNow now # CPowerOn (w_Name w) ?mac None # as @ hist s" "tracker s3 = tracker s1"
    using run_Now [OF now] boot ok as(1) by (auto simp: PatchNode_def)
  moreover have "hist s5 = CPatchNode (w_Name w) [(AnnotationPoweredOff, None)] None # hist s4"
    "tracker s5 = tracker s4"
    using clear ok by (auto simp: ClearPoweredOffAnnotation_def PatchNode_def split: option.splits)
  moreover have "run_state (UncordonNode E (w_Name w)) s3 = (None, s4)" using cordon ok by simp
  ultimately show ?thesis using run_marks [OF marks] mac as(2) us by fastforce
qed

lemma PowerOn_succeeded:
  assumes "client_go E" and "run_state (PowerOnAndMarkBooted E w cfg (r_PowerOner r) False) s = (None, t)"
  shows "\<exists>mac as now us t1 t2.
    mac = GetMACAddressFromNode (w_Node w) \<lparr>na_MAC = na_MAC (NodeAnnotations cfg)\<rparr> \<and> mac \<noteq> [] \<and>
    hist t = CNow t2 # CNow t1 # CPatchNode (w_Name w) [(AnnotationPoweredOff, None)] None # us @
      CPatchNode (w_Name w) [(AnnotationBootedAt, Some (Format_RFC3339 now))] None # CNow now #
      CPowerOn (w_Name w) mac None # as @ hist s \<and>
    list_all agent_call as \<and> list_all restoring_call us \<and>
    tracker t = MarkBooted t2 (w_Name w) (MarkGlobalShutdown t1 (tracker s))"
  using PowerOn_stages [OF assms] by fastforce

end

context reconciler_parts begin

lemma call_Shutdown_tracker: "state_io_rel same_tracker (call_Shutdown (r_Shutdowner r) name)"
  by (intro call_Shutdown_frames shutdowner.keeps_tracker)

lemma retire_node_failed:
  assumes "client_go E" and "run_state (retire_node E r name) s = (False, t)"
  shows "tracker t = tracker s"
proof -
  note frames = logs_same_tracker [OF CordonAndDrain_frames(2) [OF assms(1)]]
    logs_same_tracker [OF AnnotatePoweredOffNode_frames(2)] logs_same_tracker [OF call_Shutdown_tracker]
    logs_same_tracker [OF restoreScheduling_frames(2) [OF assms(1)]] logs_same_tracker [OF uncordon_frames(5)]
  show ?thesis using assms(2)
    by (auto simp: retire_node_def split: prod.splits option.splits dest!: frames)
qed

lemma retire_node_succeeded:
  assumes "client_go E" and "\<not> DryRun (r_Cfg r)" and "run_state (retire_node E r name) s = (True, t)"
  shows "\<exists>as now cs t1 t2.
    hist t = CNow t2 # CNow t1 # CShutdown name None # as @
      CPatchNode name [(AnnotationPoweredOff, Some (Format_RFC3339 now))] None # CNow now # cs @ hist s \<and>
    list_all agent_call as \<and> cordoned name cs \<and> drained name cs \<and>
    tracker t = MarkPoweredOff name (MarkShutdown t2 name (MarkGlobalShutdown t1 (tracker s)))"
proof -
  obtain d s1 where drain: "run_state (CordonAndDrain E (r_Cfg r) name) s = (d, s1)" by fastforce
  obtain a s2 where annotate: "run_state (AnnotatePoweredOffNode E (r_Cfg r) name) s1 = (a, s2)"
    by fastforce
  define s3 where "s3 = s2\<lparr>counters := (\<lambda>m. m\<lparr>ShutdownAttempts := ShutdownAttempts m + 1\<rparr>) (counters s2)\<rparr>"
  obtain p s4 where act: "run_state (r_Shutdowner r name) s3 = (p, s4)" by fastforce
  let ?s5 = "s4\<lparr>hist := CShutdown name p # hist s4\<rparr>"
  have "d = None \<and> a = None \<and> p = None \<and> run_state (shutdown_succeeded E name) ?s5 = ((), t)"
    using assms(3) drain annotate act
    by (cases d; cases a; cases p) (auto simp: retire_node_def call_Shutdown_def s3_def split: prod.splits)
  then have ok: "d = None" "a = None" "p = None" and
    marks: "run_state (shutdown_succeeded E name) ?s5 = ((), t)" by auto
  obtain now cs where h2: "hist s2 = CPatchNode name [(AnnotationPoweredOff, Some (Format_RFC3339 now))] None #
      CNow now # cs @ hist s" "cordoned name cs" "drained name cs"
    using annotated_state [OF assms(1,2)] drain annotate ok by blast
  have "state_io_rel (logs agent_call) (r_Shutdowner r name)" by (rule shutdowner.calls_agent)
  then obtain as where as: "hist s4 = as @ hist s3" "list_all agent_call as" using logs_run [OF _ act] by blast
  have "tracker s4 = tracker s"
    using logs_same_tracker [OF shutdowner.keeps_tracker act]
      logs_same_tracker [OF AnnotatePoweredOffNode_frames(2) annotate]
      logs_same_tracker [OF CordonAndDrain_frames(2) [OF assms(1)] drain] by (simp add: s3_def)
  then show ?thesis using run_shutdown_succeeded [OF marks] h2 as ok by (fastforce simp: s3_def)
qed

end

section \<open>Guards and panics\<close>

lemma PickScaleDownCandidate_cases:
  "PickScaleDownCandidate cfg eligible =
    (if int (length eligible) \<le> MinNodes cfg then Ret None
     else if eligible = [] then Panic else Ret (Some (last eligible)))"
proof (cases "eligible = []")
  case True
  then show ?thesis by (simp add: PickScaleDownCandidate_def go_index_def)
next
  case False
  then show ?thesis using go_index_last [OF False] by (simp add: PickScaleDownCandidate_def)
qed

lemma MaybeScaleDown_Panic:
  "run_state (MaybeScaleDown E r eligible) s = (Panic, t) \<Longrightarrow> MinNodes (r_Cfg r) < 0"
  by (auto simp: MaybeScaleDown_def PickScaleDownCandidate_cases split: if_splits prod.splits)

lemma reconcile_decide_Panic:
  "run_state (reconcile_decide E r now) s = (Panic, t) \<Longrightarrow> MinNodes (r_Cfg r) < 0"
  by (auto simp: reconcile_decide_def reconcile_loop_def
      split: if_splits prod.splits sum.splits go.splits dest!: MaybeScaleDown_Panic)

lemma Reconcile_Panic:
  "run_state (Reconcile E r) s = (Panic, t) \<Longrightarrow> MinNodes (r_Cfg r) < 0"
  by (auto simp: Reconcile_def split: if_splits prod.splits sum.splits option.splits
      dest!: reconcile_decide_Panic)

lemma run_loop_Panic: "run_state (run_loop n E r) s = (Panic, t) \<Longrightarrow> MinNodes (r_Cfg r) < 0"
  by (induction n arbitrary: s) (auto split: prod.splits go.splits dest!: Reconcile_Panic)

lemma MaybeScaleDown_True:
  assumes "run_state (MaybeScaleDown E r eligible) s = (Ret True, t)"
  shows "MinNodes (r_Cfg r) < int (length eligible) \<and> eligible \<noteq> [] \<and>
    (\<exists>s1. run_state (sd_ShouldScaleDown (r_ScaleDownStrategy r) (w_Name (last eligible))) s = (Inr True, s1) \<and>
       run_state (if DryRun (r_Cfg r)
         then do { d \<leftarrow> CordonAndDrain E (r_Cfg r) (w_Name (last eligible)); ret (d = None) }
         else retire_node E r (w_Name (last eligible))) s1 = (True, t))"
  using assms
  by (auto simp: MaybeScaleDown_def PickScaleDownCandidate_cases scale_down_node_def
      split: if_splits prod.splits sum.splits)

context reconciler_parts begin

lemma retire_node_tracker:
  "client_go E \<Longrightarrow> run_state (retire_node E r name) s = (ok, t) \<Longrightarrow> ok \<or> tracker t = tracker s"
  using retire_node_failed by (cases ok) auto

lemma MaybeScaleDown_not_True:
  assumes "client_go E" and "run_state (MaybeScaleDown E r eligible) s = (x, t)"
    and "x \<noteq> Ret True \<or> DryRun (r_Cfg r)"
  shows "tracker t = tracker s"
proof -
  note frames = logs_same_tracker [OF down.keeps_tracker] retire_node_tracker [OF assms(1)]
    logs_same_tracker [OF CordonAndDrain_frames(2) [OF assms(1)]]
  show ?thesis using assms(2,3)
    by (auto simp: MaybeScaleDown_def scale_down_node_def
        split: go.splits option.splits prod.splits sum.splits if_splits dest!: frames)
qed

end

end
