(* ===== verification/Node_Actions.thy ===== *)
theory Node_Actions
  imports Node_Selection Node_Util
begin

text \<open>
  What the actions of \<^verbatim>\<open>Node_Util\<close> do to which node: the recovery of unexpectedly booted nodes and
  the MAC address updater, as logs in which every write is justified by the calls before it.
\<close>

section \<open>Recovery\<close>

text \<open>The guards of the recovery loop, for a node of the listing at an instant.\<close>

definition recoverable :: "config \<Rightarrow> time \<Rightarrow> node \<Rightarrow> bool" where
  "recoverable cfg now n \<longleftrightarrow>
     managed_node (managed_filter cfg) n \<and> IsNodeReady n \<and> node_Annotations n AnnotationPoweredOff \<noteq> None \<and>
     \<not> ShouldIgnoreNodeDueToLabels n (IgnoreLabels cfg) \<and> node_Unschedulable n \<and>
     (\<forall>since. PoweredOffSince n = Some since \<longrightarrow> \<not> time_Sub now since < 2 * Minute)"

fun uncordon_ok :: "(time \<Rightarrow> string \<Rightarrow> bool) \<Rightarrow> node \<Rightarrow> call list \<Rightarrow> bool" where
  "uncordon_ok ok m (CGetNode name (Inr n) # cs) = (ok (clock_floor cs) name \<and> m = n\<lparr>node_Unschedulable := False\<rparr>)"
| "uncordon_ok ok m _ = False"

fun unmark_ok :: "string \<Rightarrow> annotation_patch \<Rightarrow> call list \<Rightarrow> bool" where
  "unmark_ok name p (CNow now # CUpdateNode m None # CGetNode name' (Inr n) # cs) =
     (name' = name \<and> p = [(AnnotationPoweredOff, None), (AnnotationBootedAt, Some (Format_RFC3339 now))])"
| "unmark_ok name p _ = False"

text \<open>
  An update follows the fetch of a node that may be recovered and only makes it schedulable; a
  patch follows an accepted update of that node and swaps the mark for the boot time just read.
\<close>

fun recovery_call :: "(time \<Rightarrow> string \<Rightarrow> bool) \<Rightarrow> call \<Rightarrow> call list \<Rightarrow> bool" where
  "recovery_call ok (CUpdateNode m r) cs = uncordon_ok ok m cs"
| "recovery_call ok (CPatchNode name p r) cs = unmark_ok name p cs"
| "recovery_call ok c cs = (\<not> is_write c)"

lemma recovery_call_reads: "\<not> is_write c \<Longrightarrow> recovery_call ok c cs"
  by (cases c) auto

abbreviation recovery_log :: "(time \<Rightarrow> string \<Rightarrow> bool) \<Rightarrow> call list \<Rightarrow> bool" where
  "recovery_log ok \<equiv> justified (recovery_call ok)"

fun just_uncordoned :: "string \<Rightarrow> call list \<Rightarrow> bool" where
  "just_uncordoned name (CUpdateNode m None # CGetNode name' (Inr n) # cs) = (name' = name)"
| "just_uncordoned name _ = False"

lemma just_uncordoned_unmark:
  "just_uncordoned name cs \<Longrightarrow>
     unmark_ok name [(AnnotationPoweredOff, None), (AnnotationBootedAt, Some (Format_RFC3339 now))] (CNow now # cs)"
  by (cases "(name, cs)" rule: just_uncordoned.cases) auto

lemma recover_body_triple:
  "triple (calls_since h0 (\<lambda>cs. recovery_log ok cs \<and> ok (clock_floor cs) name)) (recover_body E name)
     (\<lambda>r s. if r = None then calls_since h0 (\<lambda>cs. recovery_log ok cs \<and> just_uncordoned name cs) s
            else calls_since h0 (\<lambda>cs. recovery_log ok cs \<and> ok (clock_floor cs) name) s)"
  by (rule tripleI)
    (fastforce simp: recover_body_def GetNode_def UpdateNode_def calls_since_def split: sum.splits option.splits)

lemma recover_node_triple:
  assumes "client_go E"
    and ok: "\<And>now. recoverable cfg now n \<Longrightarrow> \<not> dryRun \<Longrightarrow> ok now (node_Name n)"
    and managed: "managed_node (managed_filter cfg) n"
  shows "triple (calls_since h0 (recovery_log ok)) (recover_node E cfg dryRun n) (\<lambda>_. calls_since h0 (recovery_log ok))"
proof (rule tripleI)
  fix s u t
  assume I: "calls_since h0 (recovery_log ok) s" and run: "run_state (recover_node E cfg dryRun n) s = (u, t)"
  let ?K = "calls_since h0 (\<lambda>cs. recovery_log ok cs \<and> ok (clock_floor cs) (node_Name n))"
  obtain recent s1 where recent: "run_state (recently_off E n) s = (recent, s1)" by fastforce
  have I1: "calls_since h0 (recovery_log ok) s1"
    by (rule calls_since_reading [OF recently_off_reading recent I]) (simp add: recovery_call_reads)
  show "calls_since h0 (recovery_log ok) t"
  proof (cases "IsNodeReady n \<and> node_Annotations n AnnotationPoweredOff \<noteq> None \<and>
      \<not> ShouldIgnoreNodeDueToLabels n (IgnoreLabels cfg) \<and> node_Unschedulable n \<and> \<not> recent \<and> \<not> dryRun")
    case False
    then have "t = s \<or> t = s1" using run recent by (auto simp: recover_node_def split: if_splits)
    then show ?thesis using I I1 by auto
  next
    case True
    have K: "?K s1"
    proof (cases "PoweredOffSince n")
      case None
      then show ?thesis using I1 ok True managed by (auto simp: recoverable_def calls_since_def)
    next
      case (Some since)
      then obtain now where now: "hist s1 = CNow now # hist s" "\<not> time_Sub now since < 2 * Minute"
        using recent True by (auto simp: recently_off_def Now_def)
      then have "ok now (node_Name n)" using ok True managed Some by (simp add: recoverable_def)
      then show ?thesis using calls_since_Cons [OF I now(1)] by simp
    qed
    obtain err s2 where retry: "run_state (env_OnError E IsConflict (recover_body E (node_Name n))) s1 = (err, s2)"
      by fastforce
    have R: "if err = None then calls_since h0 (\<lambda>cs. recovery_log ok cs \<and> just_uncordoned (node_Name n) cs) s2 else ?K s2"
      by (rule tripleD [OF retry_triple [OF assms(1) recover_body_triple] retry K]) (auto elim!: calls_since_Cons)
    show ?thesis
    proof (cases err)
      case (Some e)
      then show ?thesis using R run recent retry True
        by (auto simp: recover_node_def elim: calls_since_mono)
    next
      case None
      then obtain cs where cs: "hist s2 = cs @ h0" "recovery_log ok cs" "just_uncordoned (node_Name n) cs"
        using R by (auto simp: calls_since_def)
      obtain now p where "hist t = CPatchNode (node_Name n)
          [(AnnotationPoweredOff, None), (AnnotationBootedAt, Some (Format_RFC3339 now))] p # CNow now # hist s2"
        using run recent retry True None by (auto simp: recover_node_def Now_def PatchNode_def)
      then show ?thesis using cs just_uncordoned_unmark
        by (auto simp: calls_since_def intro!: exI [where x = "c # d # cs" for c d])
    qed
  qed
qed

section \<open>The MAC address updater\<close>

definition mac_url :: "string \<Rightarrow> int \<Rightarrow> string" where
  "mac_url ip port = (if port = 0 then ''http://'' @ ip @ ''/mac''
     else ''http://'' @ ip @ '':'' @ show_int port @ ''/mac'')"

text \<open>
  What the patch does when the address needs no escaping: it sets the annotation to the address and
  touches nothing else.
\<close>

lemma mac_patch_decoded:
  assumes "list_all json_plain mac"
  shows "decode_json (mac_patch_body mac) =
    Some (JObj [(''metadata'', JObj [(''annotations'', JObj [(AnnotationMACAuto, JStr mac)])])])"
proof (rule decode_jsonI [OF _ refl])
  have body: "mac_patch_body mac = CHR ''{'' # quote # ''metadata'' @ quote # CHR '':'' #
      CHR ''{'' # quote # ''annotations'' @ quote # CHR '':'' #
      CHR ''{'' # quote # AnnotationMACAuto @ quote # CHR '':'' # quote # mac @ quote # ''}}}''"
    by (simp add: mac_patch_body_def quoted_def)
  obtain n where n: "Suc (Suc (2 * length (mac_patch_body mac))) = Suc (Suc (Suc (Suc (Suc (Suc (Suc n))))))"
    by (rule that) (simp add: body)
  have plain: "list_all json_plain ''metadata''" "list_all json_plain ''annotations''" "list_all json_plain AnnotationMACAuto"
    by code_simp+
  show "json_value (Suc (Suc (2 * length (mac_patch_body mac)))) (mac_patch_body mac) =
    Some (JObj [(''metadata'', JObj [(''annotations'', JObj [(AnnotationMACAuto, JStr mac)])])], [])"
    unfolding n unfolding body by (rule json_object_one plain json_value_plain assms)+
qed

lemma mac_patch_sets:
  assumes "list_all json_plain mac"
  shows "merge_patch (mac_patch_body mac) n = Some (n\<lparr>node_Annotations := (node_Annotations n)(AnnotationMACAuto \<mapsto> mac)\<rparr>)"
  by (simp add: merge_patch_def mac_patch_decoded [OF assms] merge_node_def merge_metadata_def merge_map_def
      merge_spec_def member_def members_def)

text \<open>
  A patch is the template around the address that an agent just answered to a GET, where the agent
  is a pod of the listing right before, on the patched node.
\<close>

fun mac_patch_ok :: "mac_updater_config \<Rightarrow> (string \<Rightarrow> bool) \<Rightarrow> string \<Rightarrow> string \<Rightarrow> call list \<Rightarrow> bool" where
  "mac_patch_ok cfg ok name body (CHttp meth url (Inr resp) # CListPods q (Inr pods) # cs) =
     (ok name \<and> meth = ''GET'' \<and> map_option mac_patch_body (resp_mac resp) = Some body \<and>
      list_ex (\<lambda>pod. pod_NodeName pod = name \<and> url = mac_url (pod_PodIP pod) (mu_Port cfg)) pods)"
| "mac_patch_ok cfg ok name body _ = False"

fun mac_call :: "mac_updater_config \<Rightarrow> (string \<Rightarrow> bool) \<Rightarrow> call \<Rightarrow> call list \<Rightarrow> bool" where
  "mac_call cfg ok (CPatchRaw name body r) cs = mac_patch_ok cfg ok name body cs"
| "mac_call cfg ok c cs = (\<not> is_write c)"

lemma mac_call_reads: "\<not> is_write c \<Longrightarrow> mac_call cfg ok c cs"
  by (cases c) auto

lemma run_FindPodIPOnNode:
  assumes "run_state (FindPodIPOnNode E namespace label name) s = (Inr ip, t)"
  shows "\<exists>q pods. hist t = CListPods q (Inr pods) # hist s \<and> list_ex (\<lambda>p. pod_NodeName p = name \<and> pod_PodIP p = ip) pods"
  using assms
  by (auto simp: FindPodIPOnNode_def ListPods_def list_ex_iff find_Some_iff split: sum.splits option.splits prod.splits)
    (metis nth_mem)

lemma run_FetchMACFromDaemon:
  assumes "run_state (FetchMACFromDaemon E ip port) s = (Inr mac, t)"
  shows "\<exists>resp. hist t = CHttp ''GET'' (mac_url ip port) (Inr resp) # hist s \<and> resp_mac resp = Some mac"
  using assms
  by (auto simp: FetchMACFromDaemon_def Http_def mac_url_def Let_def split: sum.splits option.splits prod.splits if_splits)

lemma FetchMACFromDaemon_reading: "state_io_rel reading (FetchMACFromDaemon E ip port)"
  unfolding FetchMACFromDaemon_def Let_def by (intro frame_intro)

text \<open>Which nodes the updater may patch.\<close>

definition wants_mac :: "mac_updater_config \<Rightarrow> node \<Rightarrow> bool" where
  "wants_mac cfg n \<longleftrightarrow> \<not> mu_DryRun cfg \<and> map_get (node_Annotations n) AnnotationMACManual = [] \<and>
     map_get (node_Annotations n) AnnotationMACAuto = []"

lemma update_mac_triple:
  assumes "wants_mac cfg n \<Longrightarrow> ok (node_Name n)"
  shows "triple (calls_since h0 (justified (mac_call cfg ok))) (update_mac E cfg now n)
    (\<lambda>_. calls_since h0 (justified (mac_call cfg ok)))"
proof (rule tripleI)
  fix s u t
  assume I: "calls_since h0 (justified (mac_call cfg ok)) s" and run: "run_state (update_mac E cfg now n) s = (u, t)"
  obtain ip s1 where ip: "run_state (FindPodIPOnNode E (mu_Namespace cfg) (mu_PodLabel cfg) (node_Name n)) s = (ip, s1)"
    by fastforce
  obtain m s2 where m: "run_state (FetchMACFromDaemon E (case ip of Inr ip \<Rightarrow> ip) (mu_Port cfg)) s1 = (m, s2)"
    by fastforce
  have I1: "calls_since h0 (justified (mac_call cfg ok)) s1"
    by (rule tripleD [OF justified_reading [OF query_reading(1)] ip I]) (rule mac_call_reads)
  have I2: "calls_since h0 (justified (mac_call cfg ok)) s2"
    by (rule tripleD [OF justified_reading [OF FetchMACFromDaemon_reading] m I1]) (rule mac_call_reads)
  show "calls_since h0 (justified (mac_call cfg ok)) t"
  proof (cases "t \<in> {s, s1, s2}")
    case True
    then show ?thesis using I I1 I2 by auto
  next
    case False
    then obtain a mac r where ok: "ip = Inr a" "m = Inr mac" "wants_mac cfg n"
      "hist t = CPatchRaw (node_Name n) (mac_patch_body mac) r # hist s2"
      using run ip m
      by (auto simp: update_mac_def Let_def HasManualMACOverride_def HasDiscoveredMACAddr_def wants_mac_def
          SetDiscoveredMAC_def PatchRaw_def split: if_splits sum.splits)
    obtain q pods resp where "hist s2 = CHttp ''GET'' (mac_url a (mu_Port cfg)) (Inr resp) # CListPods q (Inr pods) # hist s"
      "resp_mac resp = Some mac" "list_ex (\<lambda>p. pod_NodeName p = node_Name n \<and> pod_PodIP p = a) pods"
      using run_FindPodIPOnNode [OF ip [unfolded ok(1)]] run_FetchMACFromDaemon [OF m [unfolded ok(1,2)]] by auto
    moreover obtain cs where "hist s = cs @ h0" "justified (mac_call cfg ok) cs" using I by (auto simp: calls_since_def)
    ultimately show ?thesis using ok(3,4) assms
      by (auto simp: calls_since_def list_ex_iff intro!: exI [where x = "a # b # c # cs" for a b c])
  qed
qed

section \<open>Properties\<close>

text \<open>C22: the recovery lists the nodes and then touches only nodes of that listing that are managed,
  Ready, annotated as powered off, cordoned, not ignored, and by the clock then not marked within
  the last two minutes: an update only lifts the cordon of the node just fetched, and the mark is
  swapped for the boot time just read only after that update was accepted; in dry-run nothing is
  written.\<close>

theorem recovery_protocol:
  assumes "client_go E" and "run_state (RecoverUnexpectedlyBootedNodes E cfg dryRun) s = (r, t)"
  shows "\<exists>l cs. hist t = cs @ CListNodes l # hist s \<and>
    recovery_log (\<lambda>now name. \<not> dryRun \<and>
      (\<exists>nodes n. l = Inr nodes \<and> n \<in> set nodes \<and> node_Name n = name \<and> recoverable cfg now n)) cs"
proof -
  obtain l s1 where list: "run_state (ListManagedNodes E (managed_filter cfg)) s = (l, s1)" by fastforce
  show ?thesis
  proof (cases l)
    case (Inl err)
    then have "hist s1 = CListNodes (Inl err) # hist s" using run_ListManagedNodes [OF list] by simp
    then show ?thesis using assms(2) list Inl by (auto simp: RecoverUnexpectedlyBootedNodes_def intro!: exI [where x = "[]"])
  next
    case (Inr ns)
    then obtain nodes where nodes: "hist s1 = CListNodes (Inr nodes) # hist s" "ns = filter (managed_node (managed_filter cfg)) nodes"
      using run_ListManagedNodes [OF list] by auto
    let ?ok = "\<lambda>now name. \<not> dryRun \<and>
      (\<exists>nodes' n. Inr nodes = (Inr nodes' :: error + node list) \<and> n \<in> set nodes' \<and> node_Name n = name \<and> recoverable cfg now n)"
    have each: "triple (calls_since (hist s1) (recovery_log ?ok)) (for_each (recover_node E cfg dryRun) ns)
        (\<lambda>_. calls_since (hist s1) (recovery_log ?ok))"
      by (intro triple_for_each recover_node_triple assms(1)) (auto simp: nodes(2))
    obtain s2 where loop: "run_state (for_each (recover_node E cfg dryRun) ns) s1 = ((), s2)"
      by (metis old.unit.exhaust prod.collapse)
    have "calls_since (hist s1) (recovery_log ?ok) s2"
      by (rule tripleD [OF each loop]) (simp add: calls_since_start)
    moreover have "t = s2" using assms(2) list Inr loop by (auto simp: RecoverUnexpectedlyBootedNodes_def)
    ultimately show ?thesis using nodes(1) by (auto simp: calls_since_def)
  qed
qed

lemma mac_round_log:
  assumes "run_state (RunOnce E cfg) s = (u, t)"
  shows "\<exists>l cs. hist t = cs @ CListNodes l # hist s \<and>
    justified (mac_call cfg (\<lambda>name. \<exists>nodes n. l = Inr nodes \<and> n \<in> set nodes \<and> node_Name n = name \<and>
      managed_node \<lparr>mf_ManagedLabel = mu_ManagedLabel cfg, mf_DisabledLabel = mu_DisabledLabel cfg,
        mf_IgnoreLabels = mu_IgnoreLabels cfg\<rparr> n \<and> wants_mac cfg n)) cs"
proof -
  let ?f = "\<lparr>mf_ManagedLabel = mu_ManagedLabel cfg, mf_DisabledLabel = mu_DisabledLabel cfg,
        mf_IgnoreLabels = mu_IgnoreLabels cfg\<rparr>"
  obtain l s1 where list: "run_state (ListManagedNodes E ?f) s = (l, s1)" by fastforce
  show ?thesis
  proof (cases l)
    case (Inl err)
    then have "hist s1 = CListNodes (Inl err) # hist s" using run_ListManagedNodes [OF list] by simp
    then show ?thesis using assms list Inl by (auto simp: RunOnce_def intro!: exI [where x = "[]"])
  next
    case (Inr ns)
    then obtain nodes where nodes: "hist s1 = CListNodes (Inr nodes) # hist s" "ns = filter (managed_node ?f) nodes"
      using run_ListManagedNodes [OF list] by auto
    let ?ok = "\<lambda>name. \<exists>nodes' n. Inr nodes = (Inr nodes' :: error + node list) \<and> n \<in> set nodes' \<and> node_Name n = name \<and>
      managed_node ?f n \<and> wants_mac cfg n"
    let ?I = "calls_since (hist s1) (justified (mac_call cfg ?ok))"
    obtain now s2 where now: "run_state (Now E) s1 = (now, s2)" by fastforce
    have I2: "?I s2"
      by (rule tripleD [OF justified_reading [OF reading_api(1)] now]) (simp_all add: mac_call_reads calls_since_start)
    have "triple ?I (for_each (update_mac E cfg now) ns) (\<lambda>_. ?I)"
      by (intro triple_for_each update_mac_triple) (auto simp: nodes(2))
    moreover have "run_state (for_each (update_mac E cfg now) ns) s2 = (u, t)"
      using assms list Inr now by (auto simp: RunOnce_def)
    ultimately have "?I t" using I2 by (rule tripleD)
    then show ?thesis using nodes(1) by (auto simp: calls_since_def)
  qed
qed

text \<open>C23: a round of the MAC updater lists the nodes and then writes nothing but merge patches of
  nodes of that listing that are managed and have neither a manual nor an automatic address. The
  body of each is the template with the address spliced in that an agent pod just answered to a
  GET, a pod which the listing before it showed on that node; in dry-run nothing is written. An
  address without quotes, backslashes and control characters makes the body a patch that sets the
  automatic MAC annotation to the address and leaves the rest of the node alone.\<close>

theorem mac_updater_protocol:
  assumes "run_state (RunOnce E cfg) s = (u, t)"
  shows "(\<exists>l cs. hist t = cs @ CListNodes l # hist s \<and>
      justified (mac_call cfg (\<lambda>name. \<exists>nodes n. l = Inr nodes \<and> n \<in> set nodes \<and> node_Name n = name \<and>
        managed_node \<lparr>mf_ManagedLabel = mu_ManagedLabel cfg, mf_DisabledLabel = mu_DisabledLabel cfg,
          mf_IgnoreLabels = mu_IgnoreLabels cfg\<rparr> n \<and> wants_mac cfg n)) cs) \<and>
    (\<forall>mac n. list_all json_plain mac \<longrightarrow> merge_patch (mac_patch_body mac) n =
      Some (n\<lparr>node_Annotations := (node_Annotations n)(AnnotationMACAuto \<mapsto> mac)\<rparr>))"
  using mac_round_log [OF assms] mac_patch_sets by simp

definition booted_node :: "string \<Rightarrow> node" where
  "booted_node name = (off_node name ''unknown'')\<lparr>node_Conditions := [(''Ready'', ''True'')]\<rparr>"

theorem recovery_protocol_witness:
  "\<exists>l cs. hist (snd (run_state (RecoverUnexpectedlyBootedNodes (constant_env [booted_node ''n1''] [] ok_resp)
      sample_config False) init_sys)) = cs @ [CListNodes l] \<and>
    recovery_log (\<lambda>now name. \<exists>nodes n. l = Inr nodes \<and> n \<in> set nodes \<and> node_Name n = name \<and>
      recoverable sample_config now n) cs"
  using recovery_protocol [OF constant_env_client_go prod.collapse [symmetric], of "[booted_node ''n1'']" "[]" ok_resp
      sample_config False init_sys]
  by (simp add: init_sys_def)

text \<open>A node without a MAC address and an updater for its cluster.\<close>

definition bare_cluster :: cluster where
  "bare_cluster = sample_cluster\<lparr>cl_nodes := [(sample_node ''n1'')\<lparr>node_Annotations := Map.empty\<rparr>]\<rparr>"

definition sample_updater :: mac_updater_config where
  "sample_updater = \<lparr>mu_DryRun = False, mu_Interval = Minute, mu_Port = 9101, mu_Namespace = ''default'',
     mu_PodLabel = ''app=agent'', mu_ManagedLabel = ''managed'', mu_DisabledLabel = ''disabled'', mu_IgnoreLabels = []\<rparr>"

theorem mac_updater_protocol_witness:
  "(\<exists>l cs. hist (snd (run_state (RunOnce (store_env bare_cluster) sample_updater) init_sys)) = cs @ [CListNodes l] \<and>
      list_ex is_write cs \<and> justified (mac_call sample_updater (\<lambda>name. \<exists>nodes n. l = Inr nodes \<and> n \<in> set nodes \<and>
        node_Name n = name \<and>
        managed_node \<lparr>mf_ManagedLabel = mu_ManagedLabel sample_updater, mf_DisabledLabel = mu_DisabledLabel sample_updater,
          mf_IgnoreLabels = mu_IgnoreLabels sample_updater\<rparr> n \<and> wants_mac sample_updater n)) cs) \<and>
   map_option (\<lambda>n. node_Annotations n AnnotationMACAuto)
     (merge_patch (mac_patch_body ''52:54:00:12:34:58'') (sample_node ''n1'')) = Some (Some ''52:54:00:12:34:58'')"
proof -
  let ?run = "run_state (RunOnce (store_env bare_cluster) sample_updater) init_sys"
  have writes: "list_ex is_write (hist (snd ?run))" by code_simp
  have plain: "list_all json_plain ''52:54:00:12:34:58''" by code_simp
  note C = mac_updater_protocol [OF prod.collapse [symmetric], of "store_env bare_cluster" sample_updater init_sys]
  obtain l cs where "hist (snd ?run) = cs @ [CListNodes l]"
    "justified (mac_call sample_updater (\<lambda>name. \<exists>nodes n. l = Inr nodes \<and> n \<in> set nodes \<and> node_Name n = name \<and>
       managed_node \<lparr>mf_ManagedLabel = mu_ManagedLabel sample_updater, mf_DisabledLabel = mu_DisabledLabel sample_updater,
         mf_IgnoreLabels = mu_IgnoreLabels sample_updater\<rparr> n \<and> wants_mac sample_updater n)) cs"
    using conjunct1 [OF C] by (auto simp: init_sys_def)
  then show ?thesis using writes conjunct2 [OF C, rule_format, OF plain] by auto
qed

text \<open>An address that is not plain can do more: this one also sets the powered-off mark.\<close>

definition sample_injection :: string where
  "sample_injection = ''x'' @ [quote] @ '','' @ quoted AnnotationPoweredOff @ '':'' @ [quote] @ ''y''"

lemma mac_injection:
  "map_option (\<lambda>n. node_Annotations n AnnotationPoweredOff)
     (merge_patch (mac_patch_body sample_injection) (sample_node ''n1'')) = Some (Some ''y'')"
  by code_simp

end
