(* ===== verification/Node_Store.thy ===== *)
theory Node_Store
  imports Reconcile_Safety Node_Actions
begin

text \<open>
  What the writes of the program make of the stored objects, when all that is assumed of the API
  server is that a node it returns shows certain fields as the accepted writes have left them
  (\<open>reads_at\<close>): any write may fail, and the other fields may change under way. Cordoning,
  uncordoning and patching are then Hoare triples about these fields.
\<close>

section \<open>Objects under updates\<close>

lemma stored_agent: "list_all agent_call as \<Longrightarrow> stored_nodes ns (as @ h) = stored_nodes ns h"
proof (induction as)
  case (Cons c as)
  then show ?case by (cases c) auto
qed simp

text \<open>Calls that leave the stored nodes alone.\<close>

fun node_quiet :: "call \<Rightarrow> bool" where
  "node_quiet (CUpdateNode n r) = False"
| "node_quiet (CPatchNode name p r) = False"
| "node_quiet (CPatchRaw name body r) = False"
| "node_quiet c = True"

lemma stored_quiet: "list_all node_quiet cs \<Longrightarrow> stored_nodes ns (cs @ h) = stored_nodes ns h"
proof (induction cs)
  case (Cons c cs)
  then show ?case by (cases c) auto
qed simp

lemma stored_quiet_run:
  assumes "state_io_rel (logs node_quiet) m" and "run_state m s = (x, t)"
  shows "stored_nodes ns (hist t) = stored_nodes ns (hist s)"
  using state_io_rel_run [OF assms] stored_quiet by (auto simp: logs_def)

lemma node_quiet_intros: "\<not> is_write c \<Longrightarrow> node_quiet c" "agent_call c \<Longrightarrow> node_quiet c"
  by (cases c; simp)+

lemma drain_poll_quiet: "state_io_rel (logs node_quiet) (drain_poll E name a)"
  unfolding drain_poll_def by (intro frame_intro; simp add: node_quiet_intros)

lemma update_named_twice:
  "(\<And>n. node_Name (f n) = node_Name n) \<Longrightarrow> update_named name g (update_named name f ns) = update_named name (g \<circ> f) ns"
  by (simp add: update_named_def)

lemma update_named_id: "(\<And>n. n \<in> set ns \<Longrightarrow> node_Name n = name \<Longrightarrow> f n = n) \<Longrightarrow> update_named name f ns = ns"
  by (auto simp: update_named_def intro: map_idI)

lemma update_named_in: "m \<in> set ns \<Longrightarrow> node_Name m = name \<Longrightarrow> f m \<in> set (update_named name f ns)"
  by (force simp: update_named_def)

lemma in_update_named:
  assumes "n \<in> set (update_named name f ns)" and "node_Name n = name"
  obtains m where "m \<in> set ns" and "n = f m" | "n \<in> set ns" and "node_Name n \<noteq> name"
  using assms by (auto simp: update_named_def split: if_splits)

lemma node_named_Inr: "node_named name ns = Inr n \<Longrightarrow> n \<in> set ns \<and> node_Name n = name"
  by (auto simp: node_named_def find_Some_iff split: option.splits)

lemma node_named_unique:
  assumes "distinct (map node_Name ns)" and "n \<in> set ns" and "node_Name n = name"
  shows "node_named name ns = Inr n"
proof -
  obtain m where m: "find (\<lambda>n. node_Name n = name) ns = Some m"
    using assms(2,3) by (cases "find (\<lambda>n. node_Name n = name) ns") (auto simp: find_None_iff)
  then have "m \<in> set ns" "node_Name m = name" by (auto simp: find_Some_iff)
  then have "m = n" using assms by (auto simp: distinct_map dest: inj_onD)
  then show ?thesis using m by (simp add: node_named_def)
qed

section \<open>Cordoning and uncordoning a stored node\<close>

abbreviation uncordon :: "node \<Rightarrow> node" where
  "uncordon n \<equiv> n\<lparr>node_Unschedulable := False\<rparr>"

abbreviation cordon :: "node \<Rightarrow> node" where
  "cordon n \<equiv> n\<lparr>node_Unschedulable := True\<rparr>"

section \<open>Reads that show some fields as they are\<close>

definition reads_at :: "(node \<Rightarrow> 'v) \<Rightarrow> env \<Rightarrow> node list \<Rightarrow> bool" where
  "reads_at view E ns \<longleftrightarrow>
     (\<forall>h name n. env_GetNode E h name = Inr n \<longrightarrow>
        node_Name n = name \<and> view n \<in> view ` set (stored_nodes ns h))"

lemma reads_atD:
  assumes "reads_at view E ns" and "run_state (GetNode E name) s = (Inr n, t)"
  shows "hist t = CGetNode name (Inr n) # hist s" and "node_Name n = name"
    and "view n \<in> view ` set (stored_nodes ns (hist t))"
  using assms by (auto simp: GetNode_def reads_at_def)

lemma store_env_reads_at: "reads_at view (store_env c) (cl_nodes c)"
  by (auto simp: reads_at_def store_env_def dest: node_named_Inr)

text \<open>The name, the labels and what takes a node out of service.\<close>

definition duty :: "node \<Rightarrow> string \<times> (string \<rightharpoonup> string) \<times> bool \<times> string option" where
  "duty n = (node_Name n, node_Labels n, node_Unschedulable n, node_Annotations n AnnotationPoweredOff)"

text \<open>And with the boot time.\<close>

definition service :: "node \<Rightarrow> (string \<times> (string \<rightharpoonup> string) \<times> bool \<times> string option) \<times> string option" where
  "service n = (duty n, node_Annotations n AnnotationBootedAt)"

interpretation duty: node_view duty
  by unfold_locales (auto simp: duty_def intro: apply_patch_at)

interpretation service: node_view service
  by unfold_locales (auto simp: service_def duty_def intro: apply_patch_at)

text \<open>The call with which an uncordon that fails ends.\<close>

fun uncordon_failed :: "string \<Rightarrow> call \<Rightarrow> bool" where
  "uncordon_failed name (CGetNode m (Inl _)) = (m = name)"
| "uncordon_failed name (CUpdateNode n (Some _)) = (node_Name n = name)"
| "uncordon_failed name _ = False"

context node_view begin

abbreviation stored_as :: "node list \<Rightarrow> node list \<Rightarrow> sys \<Rightarrow> bool" where
  "stored_as ns x s \<equiv> map view (stored_nodes ns (hist s)) = map view x"

lemma patch_stored:
  "triple (stored_as ns x) (PatchNode E name p)
     (\<lambda>r. stored_as ns (if r = None then update_named name (\<lambda>n. n\<lparr>node_Annotations := apply_patch p (node_Annotations n)\<rparr>) x else x))"
proof (rule tripleI)
  let ?f = "\<lambda>n. n\<lparr>node_Annotations := apply_patch p (node_Annotations n)\<rparr>"
  fix s r t assume I: "stored_as ns x s" and run: "run_state (PatchNode E name p) s = (r, t)"
  have "map view (update_named name ?f (stored_nodes ns (hist s))) = map view (update_named name ?f x)"
    by (rule update_cong [OF I]) (rule view_patch)
  with I run show "stored_as ns (if r = None then update_named name (\<lambda>n. n\<lparr>node_Annotations := apply_patch p (node_Annotations n)\<rparr>) x else x) t"
    by (cases r) (auto simp: PatchNode_def)
qed

lemma quiet_stored: "state_io_rel (logs node_quiet) m \<Longrightarrow> triple (stored_as ns x) m (\<lambda>_. stored_as ns x)"
  by (rule tripleI) (simp add: stored_quiet_run)

lemma cordon_stored:
  assumes "client_go E" and "reads_at view E ns" and "distinct (map node_Name x)"
  shows "triple (stored_as ns x) (env_OnError E IsConflict (cordon_body E name))
    (\<lambda>r s. if r = None then stored_as ns (update_named name cordon x) s else stored_as ns x s)"
proof (rule retry_triple [OF assms(1)])
  show "triple (stored_as ns x) (cordon_body E name)
    (\<lambda>r s. if r = None then stored_as ns (update_named name cordon x) s else stored_as ns x s)"
  proof (rule tripleI)
    fix s r t assume I: "stored_as ns x s" and run: "run_state (cordon_body E name) s = (r, t)"
    obtain g s1 where get: "run_state (GetNode E name) s = (g, s1)" by fastforce
    have I1: "stored_as ns x s1" using I get by (auto simp: GetNode_def)
    show "if r = None then stored_as ns (update_named name cordon x) t else stored_as ns x t"
    proof (cases g)
      case (Inl e)
      then show ?thesis using run get I1 by (auto simp: cordon_body_def)
    next
      case (Inr n)
      note n = reads_atD [OF assms(2) get [unfolded Inr]]
      have "hist t = CUpdateNode (cordon n) r # hist s1"
        using run get Inr by (auto simp: cordon_body_def UpdateNode_def)
      moreover have "map view (update_named name (\<lambda>_. cordon n) (stored_nodes ns (hist s1))) = map view (update_named name cordon x)"
        by (rule write_back [OF I1 assms(3) n(3,2) view_cordon])
      ultimately show ?thesis using I1 n(2) by (cases r) auto
    qed
  qed
qed simp

lemma uncordon_stored:
  assumes "client_go E" and "reads_at view E ns" and "distinct (map node_Name x)"
    and sees: "\<And>m n. view m = view n \<Longrightarrow> node_Unschedulable m = node_Unschedulable n"
  shows "triple (stored_as ns x) (UncordonNode E name)
    (\<lambda>r s. if r = None then stored_as ns (update_named name uncordon x) s \<and> name \<in> node_Name ` set x
       else stored_as ns x s)"
  unfolding UncordonNode_def
proof (rule retry_triple [OF assms(1)])
  show "triple (stored_as ns x) (uncordon_body E name)
    (\<lambda>r s. if r = None then stored_as ns (update_named name uncordon x) s \<and> name \<in> node_Name ` set x
       else stored_as ns x s)"
  proof (rule tripleI)
    fix s r t assume I: "stored_as ns x s" and run: "run_state (uncordon_body E name) s = (r, t)"
    obtain g s1 where get: "run_state (GetNode E name) s = (g, s1)" by fastforce
    have I1: "stored_as ns x s1" using I get by (auto simp: GetNode_def)
    show "if r = None then stored_as ns (update_named name uncordon x) t \<and> name \<in> node_Name ` set x else stored_as ns x t"
    proof (cases g)
      case (Inl e)
      then show ?thesis using run get I1 by (auto simp: uncordon_body_def)
    next
      case (Inr n)
      note n = reads_atD [OF assms(2) get [unfolded Inr]]
      obtain m where m: "m \<in> set x" "view m = view n" using found_named [OF I1 n(3)] by blast
      then have found: "name \<in> node_Name ` set x" using view_name [OF m(2)] n(2) by (metis imageI)
      show ?thesis
      proof (cases "node_Unschedulable n")
        case True
        then obtain u where "hist t = CUpdateNode (uncordon n) u # hist s1" "r = None \<longleftrightarrow> u = None"
          using run get Inr by (fastforce simp: uncordon_body_def UpdateNode_def split: option.splits)
        moreover have "map view (update_named name (\<lambda>_. uncordon n) (stored_nodes ns (hist s1))) = map view (update_named name uncordon x)"
          by (rule write_back [OF I1 assms(3) n(3,2) view_cordon])
        ultimately show ?thesis using I1 n(2) found by (cases u) auto
      next
        case False
        have "update_named name uncordon x = x"
        proof (rule update_named_id)
          fix k assume "k \<in> set x" "node_Name k = name"
          then have "k = m" using m n(2) view_name [OF m(2)] assms(3) by (auto simp: distinct_map dest: inj_onD)
          then show "uncordon k = k" using False sees [OF m(2)] by simp
        qed
        then show ?thesis using run get Inr False I1 found by (auto simp: uncordon_body_def)
      qed
    qed
  qed
qed simp

end

lemma uncordon_last_call:
  assumes "client_go E" and "\<And>h n. env_GetNode E h name = Inr n \<Longrightarrow> node_Name n = name"
    and "run_state (UncordonNode E name) s = (Some e, t)"
  shows "\<exists>c cs. hist t = c # cs @ hist s \<and> uncordon_failed name c"
proof -
  have body: "\<exists>c cs. hist t = c # cs @ hist s \<and> uncordon_failed name c"
    if "run_state (uncordon_body E name) s = (Some e, t)" for s e t
    using that assms(2)
    by (auto simp: uncordon_body_def GetNode_def UpdateNode_def split: sum.splits option.splits if_splits)
  have "retry_runs IsConflict (uncordon_body E name) s (Some e) t"
    using assms(3) unfolding UncordonNode_def by (rule client_go_retry [OF assms(1)])
  then show ?thesis
  proof (induction s "Some e" t)
    case (retry_again s e' s' t)
    obtain c cs where "hist t = c # cs @ hist (wait_tick s')" "uncordon_failed name c" using retry_again by blast
    moreover obtain d ds where "hist s' = d # ds @ hist s" using body [OF retry_again(1)] by blast
    ultimately show ?case by (intro exI [where x = c] exI [where x = "cs @ CWait # d # ds"]) simp
  qed (use body in blast)+
qed

end
