(* ===== verification/End_To_End.thy ===== *)
theory End_To_End
  imports Node_Store
begin

text \<open>
  The effect of the actions on the stored node objects: what a scale-down and a power-on leave of the
  fields that matter when any write may fail, and that the powered-off mark is read back as
  written.
\<close>

section \<open>A scale-down on stored nodes\<close>

text \<open>The nodes with one of them cordoned or not and marked or not.\<close>

definition with_duty :: "string \<Rightarrow> bool \<Rightarrow> string option \<Rightarrow> node list \<Rightarrow> node list" where
  "with_duty name c k ns = update_named name
     (\<lambda>n. n\<lparr>node_Unschedulable := c, node_Annotations := (node_Annotations n)(AnnotationPoweredOff := k)\<rparr>) ns"

lemma with_duty_simps [simp]:
  "map node_Name (with_duty name c k ns) = map node_Name ns"
  "update_named name cordon (with_duty name c k ns) = with_duty name True k ns"
  "update_named name uncordon (with_duty name c k ns) = with_duty name False k ns"
  "update_named name (\<lambda>n. n\<lparr>node_Annotations := (node_Annotations n)(AnnotationPoweredOff := v)\<rparr>)
     (with_duty name c k ns) = with_duty name c v ns"
proof -
  show "map node_Name (with_duty name c k ns) = map node_Name ns"
    by (simp add: with_duty_def update_named_names)
  show "update_named name cordon (with_duty name c k ns) = with_duty name True k ns"
    "update_named name uncordon (with_duty name c k ns) = with_duty name False k ns"
    "update_named name (\<lambda>n. n\<lparr>node_Annotations := (node_Annotations n)(AnnotationPoweredOff := v)\<rparr>)
       (with_duty name c k ns) = with_duty name c v ns"
    unfolding with_duty_def
    by (subst update_named_twice, simp, rule arg_cong [where f = "\<lambda>f. update_named name f ns"], rule ext,
        rule node.equality; simp)+
qed

lemma with_duty_same:
  assumes "distinct (map node_Name ns)" and "n \<in> set ns" and "node_Name n = name"
  shows "with_duty name (node_Unschedulable n) (node_Annotations n AnnotationPoweredOff) ns = ns"
  unfolding with_duty_def
proof (rule update_named_id)
  fix m assume "m \<in> set ns" "node_Name m = name"
  then have "m = n" using assms by (auto simp: distinct_map dest: inj_onD)
  then show "m\<lparr>node_Unschedulable := node_Unschedulable n,
      node_Annotations := (node_Annotations m)(AnnotationPoweredOff := node_Annotations n AnnotationPoweredOff)\<rparr> = m"
    by simp
qed

abbreviation duty_is :: "node list \<Rightarrow> node list \<Rightarrow> string \<Rightarrow> bool \<Rightarrow> string option \<Rightarrow> sys \<Rightarrow> bool" where
  "duty_is ns x name c k s \<equiv> map duty (stored_nodes ns (hist s)) = map duty (with_duty name c k x)"

lemma duty_patch:
  assumes "run_state (PatchNode E name [(AnnotationPoweredOff, v)]) s = (r, t)" and "duty_is ns x name c k s"
  shows "duty_is ns x name c (if r = None then v else k) t"
  using tripleD [OF duty.patch_stored assms] by (simp split: if_splits)

text \<open>The drain may fail before or after the cordon.\<close>

lemma drain_duty:
  assumes "client_go E" and "reads_at duty E ns" and "distinct (map node_Name x)" and "\<not> DryRun cfg"
    and "run_state (CordonAndDrain E cfg name) s = (d, t)" and "duty_is ns x name False k s"
  shows "\<exists>c. duty_is ns x name c k t \<and> (d = None \<longrightarrow> c)"
proof -
  obtain l s1 where list: "run_state (ListPods E (PodsOnNode name)) s = (l, s1)" by fastforce
  have s1: "duty_is ns x name False k s1"
    by (rule tripleD [OF duty.quiet_stored list assms(6)]) (intro frame_intro; simp)
  show ?thesis
  proof (cases "\<exists>pods. l = Inr pods \<and> first_blocker pods = None")
    case False
    then consider e where "l = Inl e" | pods err where "l = Inr pods" "first_blocker pods = Some err"
      by (cases l) auto
    then obtain err where "(d, t) = (Some err, s1)"
      using assms(5) [symmetric] list by cases (simp_all add: CordonAndDrain_def)
    then show ?thesis using s1 by auto
  next
    case True
    obtain r s2 where cord: "run_state (env_OnError E IsConflict (cordon_body E name)) s1 = (r, s2)" by fastforce
    have s2: "if r = None then duty_is ns x name True k s2 else duty_is ns x name False k s2"
      using tripleD [OF duty.cordon_stored [OF assms(1,2)] cord s1] assms(3) by simp
    show ?thesis
    proof (cases r)
      case (Some e)
      then have "(d, t) = (Some e, s2)" using assms(4,5) list True cord by (auto simp: CordonAndDrain_def)
      then show ?thesis using s2 Some by auto
    next
      case None
      have quiet: "state_io_rel (logs node_quiet) (env_Poll E (drain_poll E name) [])"
        by (intro frame_intro drain_poll_quiet assms(1)) simp
      have "run_state (env_Poll E (drain_poll E name) []) s2 = (d, t)"
        using assms(4,5) list True cord None by (auto simp: CordonAndDrain_def)
      from tripleD [OF duty.quiet_stored [OF quiet] this] s2 None show ?thesis by auto
    qed
  qed
qed

text \<open>Aborting lifts the cordon, or ends with the call that failed.\<close>

lemma abort_duty:
  assumes "client_go E" and "reads_at duty E ns" and "distinct (map node_Name x)"
    and "run_state (do { _ \<leftarrow> restoreScheduling E name; ret False }) s = (ok, t)" and "duty_is ns x name c k s"
  shows "\<not> ok \<and> (\<exists>c' cs. hist t = cs @ hist s \<and> duty_is ns x name c' k t \<and>
    (c' \<longrightarrow> cs \<noteq> [] \<and> uncordon_failed name (hd cs)))"
proof -
  obtain r s1 where un: "run_state (UncordonNode E name) s = (r, s1)" by fastforce
  have t: "t = s1" "\<not> ok" using assms(4) un by (simp_all add: restoreScheduling_def)
  have sees: "duty m = duty n \<Longrightarrow> node_Unschedulable m = node_Unschedulable n" for m n by (simp add: duty_def)
  have left: "if r = None then duty_is ns x name False k t else duty_is ns x name c k t"
    using tripleD [OF duty.uncordon_stored [OF assms(1,2) _ sees] un assms(5)] assms(3) t(1) by (simp split: if_splits)
  show ?thesis
  proof (cases r)
    case None
    have "state_io_rel (logs (\<lambda>_. True)) (UncordonNode E name)"
      unfolding UncordonNode_def uncordon_body_def by (intro frame_intro assms(1)) simp_all
    then obtain cs where "hist t = cs @ hist s" using logs_run [OF _ un] t(1) by blast
    then show ?thesis using left None t(2) by auto
  next
    case (Some e)
    obtain d cs where "hist s1 = d # cs @ hist s" "uncordon_failed name d"
      using uncordon_last_call [OF assms(1) _ un [unfolded Some]] assms(2) by (auto simp: reads_at_def)
    then show ?thesis using left Some t by (auto intro!: exI [where x = "d # cs"])
  qed
qed

context reconciler_parts begin

lemma shutdown_quiet: "state_io_rel (logs node_quiet) (call_Shutdown (r_Shutdowner r) name)"
  by (intro call_Shutdown_frames shutdowner.calls_agent) (simp_all add: node_quiet_intros)

text \<open>What retiring a node that was schedulable and not marked leaves stored.\<close>

lemma retire_node_duty:
  assumes "client_go E" and "reads_at duty E ns" and "\<not> DryRun (r_Cfg r)" and "distinct (map node_Name x)"
    and "run_state (retire_node E r name) s = (ok, t)" and "duty_is ns x name False None s"
  shows "\<exists>cs c k. hist t = cs @ hist s \<and> duty_is ns x name c k t \<and>
    (if ok then c \<and> (\<exists>now. CNow now \<in> set cs \<and> k = Some (Format_RFC3339 now))
     else (c \<longrightarrow> cs \<noteq> [] \<and> uncordon_failed name (hd cs)) \<and>
       (k \<noteq> None \<longrightarrow> (\<exists>e. CPatchNode name [(AnnotationPoweredOff, None)] (Some e) \<in> set cs)))"
proof -
  let ?abort = "do { _ \<leftarrow> restoreScheduling E name; ret False }"
  note aborted = abort_duty [OF assms(1,2,4)]
  obtain d s1 where drain: "run_state (CordonAndDrain E (r_Cfg r) name) s = (d, s1)" by fastforce
  obtain c1 where s1: "duty_is ns x name c1 None s1" "d = None \<longrightarrow> c1"
    using drain_duty [OF assms(1,2,4,3) drain assms(6)] by blast
  obtain ds where h1: "hist s1 = ds @ hist s"
    using logs_run [OF CordonAndDrain_frames(1) [OF assms(1), of "\<lambda>_. True"] drain] by auto
  show ?thesis
  proof (cases d)
    case (Some err)
    then have "run_state ?abort s1 = (ok, t)" using assms(5) drain by (simp add: retire_node_def)
    from aborted [OF this s1(1)] obtain c cs where "\<not> ok" "hist t = cs @ hist s1" "duty_is ns x name c None t"
      "c \<longrightarrow> cs \<noteq> [] \<and> uncordon_failed name (hd cs)" by blast
    then show ?thesis using h1 by (intro exI [where x = "cs @ ds"] exI [where x = c] exI [where x = None]) auto
  next
    case None
    let ?fmt = "\<lambda>now. Some (Format_RFC3339 now)"
    obtain now s1' where now: "run_state (Now E) s1 = (now, s1')" by fastforce
    obtain a s2 where patch: "run_state (PatchNode E name [(AnnotationPoweredOff, ?fmt now)]) s1' = (a, s2)" by fastforce
    have h2: "hist s2 = CPatchNode name [(AnnotationPoweredOff, ?fmt now)] a # CNow now # ds @ hist s"
      using now patch h1 by (auto simp: Now_def PatchNode_def)
    have s2: "duty_is ns x name True (if a = None then ?fmt now else None) s2"
      using duty_patch [OF patch, where ns = ns and x = x and c = c1 and k = None] s1 None now by (auto simp: Now_def)
    have annotate: "run_state (AnnotatePoweredOffNode E (r_Cfg r) name) s1 = (a, s2)"
      using now patch assms(3) by (simp add: AnnotatePoweredOffNode_def)
    show ?thesis
    proof (cases a)
      case (Some err)
      then have "run_state ?abort s2 = (ok, t)" using assms(5) drain \<open>d = None\<close> annotate by (simp add: retire_node_def)
      from aborted [OF this s2] Some obtain c cs where "\<not> ok" "hist t = cs @ hist s2" "duty_is ns x name c None t"
        "c \<longrightarrow> cs \<noteq> [] \<and> uncordon_failed name (hd cs)" by auto
      then show ?thesis using h2
        by (intro exI [where x = "cs @ CPatchNode name [(AnnotationPoweredOff, ?fmt now)] a # CNow now # ds"]
            exI [where x = c] exI [where x = None]) auto
    next
      case marked: None
      let ?s3 = "s2\<lparr>counters := (\<lambda>m. m\<lparr>ShutdownAttempts := ShutdownAttempts m + 1\<rparr>) (counters s2)\<rparr>"
      obtain res s4 where shut: "run_state (call_Shutdown (r_Shutdowner r) name) ?s3 = (res, s4)" by fastforce
      obtain es where h4: "hist s4 = es @ hist s2" using logs_run [OF shutdown_quiet shut] by auto
      have s4: "duty_is ns x name True (?fmt now) s4"
        using tripleD [OF duty.quiet_stored [OF shutdown_quiet] shut] s2 marked by simp
      show ?thesis
      proof (cases res)
        case None
        then have "run_state (shutdown_succeeded E name) s4 = ((), t)" "ok"
          using assms(5) drain annotate shut \<open>d = None\<close> marked by (auto simp: retire_node_def split: prod.splits)
        moreover from this obtain t1 t2 where "hist t = CNow t2 # CNow t1 # hist s4"
          using run_shutdown_succeeded by blast
        ultimately show ?thesis using s4 h4 h2
          by (intro exI [where x = "CNow t2 # CNow t1 # es @ CPatchNode name [(AnnotationPoweredOff, ?fmt now)] a # CNow now # ds"]
              exI [where x = True] exI [where x = "?fmt now"]) auto
      next
        case (Some err)
        obtain p s5 where clear: "run_state (PatchNode E name [(AnnotationPoweredOff, None)]) s4 = (p, s5)" by fastforce
        have h5: "hist s5 = CPatchNode name [(AnnotationPoweredOff, None)] p # hist s4"
          using clear by (auto simp: PatchNode_def)
        have "run_state ?abort s5 = (ok, t)"
          using assms(5) drain annotate shut \<open>d = None\<close> marked Some clear
          by (auto simp: retire_node_def ClearPoweredOffAnnotation_def split: option.splits)
        from aborted [OF this duty_patch [OF clear s4]] obtain c cs where "\<not> ok" "hist t = cs @ hist s5"
          "duty_is ns x name c (if p = None then None else ?fmt now) t"
          "c \<longrightarrow> cs \<noteq> [] \<and> uncordon_failed name (hd cs)" by blast
        then show ?thesis using h2 h4 h5
          by (intro exI [where x = "cs @ CPatchNode name [(AnnotationPoweredOff, None)] p # es @
                CPatchNode name [(AnnotationPoweredOff, ?fmt now)] a # CNow now # ds"]
              exI [where x = c] exI [where x = "if p = None then None else ?fmt now"]) auto
      qed
    qed
  qed
qed

end

section \<open>Properties\<close>

text \<open>C9: retiring a node that is schedulable and not marked is all or nothing, as far as the API server lets it.
  Any write may be refused and other fields may change under way; reads show names, labels, cordons
  and marks as they are. When it succeeds the node is cordoned and marked with a time read on the way. When it
  fails, in the drain, at the annotation or in the shutdown, the cordon is gone unless the
  uncordon with which it ends failed in turn, and the mark is gone unless its removal was
  refused. All other nodes are as they were in either case.\<close>

theorem scale_down_atomic:
  assumes "client_go E" and "reads_at duty E ns" and "\<not> DryRun cfg"
    and "distinct (map node_Name (stored_nodes ns (hist s)))"
    and "n \<in> set (stored_nodes ns (hist s))" and "node_Name n = name"
    and "\<not> node_Unschedulable n" and "node_Annotations n AnnotationPoweredOff = None"
    and "run_state (retire_node E (build_reconciler E cfg opts) name) s = (ok, t)"
  shows "\<exists>cs c k. hist t = cs @ hist s \<and>
    map duty (stored_nodes ns (hist t)) = map duty (with_duty name c k (stored_nodes ns (hist s))) \<and>
    (if ok then c \<and> (\<exists>now. CNow now \<in> set cs \<and> k = Some (Format_RFC3339 now))
     else (c \<longrightarrow> cs \<noteq> [] \<and> uncordon_failed name (hd cs)) \<and>
       (k \<noteq> None \<longrightarrow> (\<exists>e. CPatchNode name [(AnnotationPoweredOff, None)] (Some e) \<in> set cs)))"
proof (rule built.retire_node_duty [OF assms(1,2) _ assms(4,9)])
  show "duty_is ns (stored_nodes ns (hist s)) name False None s"
    using with_duty_same [OF assms(4-6)] assms(7,8) by simp
qed (simp add: assms(3))

text \<open>A server that refuses to set the powered-off mark: the node drained in vain is given back.\<close>

definition markless_env :: env where
  "markless_env = (store_env sample_cluster)\<lparr>env_PatchNode := \<lambda>_ _ _. Some (ErrOther ''Forbidden'')\<rparr>"

theorem scale_down_atomic_witness:
  "let run = run_state (retire_node markless_env (build_reconciler markless_env sample_config []) ''n1'') init_sys
   in fst run = False \<and> list_ex (\<lambda>c. case c of CPatchNode _ _ (Some _) \<Rightarrow> True | _ \<Rightarrow> False) (hist (snd run)) \<and>
     map duty (stored_nodes (cl_nodes sample_cluster) (hist (snd run))) = map duty (cl_nodes sample_cluster)"
proof -
  let ?ns = "cl_nodes sample_cluster"
  let ?run = "run_state (retire_node markless_env (build_reconciler markless_env sample_config []) ''n1'') init_sys"
  have ok: "fst ?run = False" by code_simp
  have refused: "list_ex (\<lambda>c. case c of CPatchNode _ _ (Some _) \<Rightarrow> True | _ \<Rightarrow> False) (hist (snd ?run))" by code_simp
  have log: "\<not> uncordon_failed ''n1'' (hd (hist (snd ?run)))"
    "list_all (\<lambda>c. case c of CPatchNode _ p (Some _) \<Rightarrow> p \<noteq> [(AnnotationPoweredOff, None)] | _ \<Rightarrow> True) (hist (snd ?run))"
    by code_simp+
  have env: "client_go markless_env" "reads_at duty markless_env ?ns"
    using store_env_client_go [of sample_cluster] store_env_reads_at [of duty sample_cluster]
    by (simp_all add: markless_env_def client_go_def reads_at_def)
  have pre: "\<not> DryRun sample_config" "distinct (map node_Name (stored_nodes ?ns (hist init_sys)))"
    "sample_node ''n1'' \<in> set (stored_nodes ?ns (hist init_sys))" "node_Name (sample_node ''n1'') = ''n1''"
    "\<not> node_Unschedulable (sample_node ''n1'')" "node_Annotations (sample_node ''n1'') AnnotationPoweredOff = None"
    by (simp_all add: sample_config_def sample_cluster_def sample_node_def init_sys_def)
  from scale_down_atomic [OF env pre run_result [OF ok]]
  obtain cs c k where C: "hist (snd ?run) = cs @ hist init_sys"
    "map duty (stored_nodes ?ns (hist (snd ?run))) = map duty (with_duty ''n1'' c k (stored_nodes ?ns (hist init_sys)))"
    "c \<longrightarrow> cs \<noteq> [] \<and> uncordon_failed ''n1'' (hd cs)"
    "k \<noteq> None \<longrightarrow> (\<exists>e. CPatchNode ''n1'' [(AnnotationPoweredOff, None)] (Some e) \<in> set cs)"
    unfolding if_False by blast
  have "hist init_sys = []" by (simp add: init_sys_def)
  then have "c = False" "k = None" using C log by (auto simp: list_all_iff)
  then have "with_duty ''n1'' c k ?ns = ?ns"
    using with_duty_same [OF pre(2-4)] pre(5,6) by (simp add: init_sys_def)
  then have "map duty (stored_nodes ?ns (hist (snd ?run))) = map duty ?ns"
    using C(2) by (simp add: init_sys_def)
  then show ?thesis using ok refused by (simp add: Let_def)
qed

text \<open>C24: what a successful power-on leaves, when reads show names, labels, cordons, marks and boot times as they
  are and all other fields may change under way (the node becomes Ready, for one): every other node
  is as it was, and the node itself is there, schedulable again, no longer marked powered off, and carries
  as its boot time the instant read right after the controller's success.\<close>

theorem power_on_effect:
  assumes "client_go E" and "reads_at service E ns"
    and "run_state (PowerOnAndMarkBooted E w cfg (snd (NewControllersFromConfig E cfg)) False) s = (None, t)"
    and "distinct (map node_Name (stored_nodes ns (hist s)))"
  shows "\<exists>mac now as bs. hist t = bs @ CNow now # CPowerOn (w_Name w) mac None # as @ hist s \<and>
    map service (stored_nodes ns (hist t)) = map service (update_named (w_Name w)
      (\<lambda>n. n\<lparr>node_Unschedulable := False,
        node_Annotations := (node_Annotations n)(AnnotationBootedAt \<mapsto> Format_RFC3339 now, AnnotationPoweredOff := None)\<rparr>)
      (stored_nodes ns (hist s))) \<and>
    (\<exists>n \<in> set (stored_nodes ns (hist t)).
       node_Name n = w_Name w \<and> \<not> node_Unschedulable n \<and> PoweredOffSince n = None)"
proof -
  let ?ns = "stored_nodes ns" and ?x = "stored_nodes ns (hist s)"
  let ?stored = "\<lambda>y s. map service (?ns (hist s)) = map service y"
  obtain mac as now s3 s4 us t1 t2 where
    h3: "hist s3 = CPatchNode (w_Name w) [(AnnotationBootedAt, Some (Format_RFC3339 now))] None # CNow now #
        CPowerOn (w_Name w) mac None # as @ hist s" and
    lift: "run_state (UncordonNode E (w_Name w)) s3 = (None, s4)" and
    h4: "hist s4 = us @ hist s3" and
    ht: "hist t = CNow t2 # CNow t1 # CPatchNode (w_Name w) [(AnnotationPoweredOff, None)] None # hist s4" and
    as: "list_all agent_call as"
    using built.PowerOn_stages [OF assms(1), of w cfg E cfg "[]" s t] assms(3) by auto
  let ?boot = "\<lambda>n. n\<lparr>node_Annotations := (node_Annotations n)(AnnotationBootedAt \<mapsto> Format_RFC3339 now)\<rparr>"
  let ?up = "\<lambda>n. n\<lparr>node_Unschedulable := False,
        node_Annotations := (node_Annotations n)(AnnotationBootedAt \<mapsto> Format_RFC3339 now, AnnotationPoweredOff := None)\<rparr>"
  have s3: "?ns (hist s3) = update_named (w_Name w) ?boot ?x"
    by (simp add: h3 stored_agent [OF as])
  have sees: "service m = service n \<Longrightarrow> node_Unschedulable m = node_Unschedulable n" for m n
    by (simp add: service_def duty_def)
  have distinct: "distinct (map node_Name (update_named (w_Name w) ?boot ?x))"
    using assms(4) by (simp add: update_named_names)
  have s4: "?stored (update_named (w_Name w) (uncordon \<circ> ?boot) ?x) s4"
    and found: "w_Name w \<in> node_Name ` set (?ns (hist s3))"
    using tripleD [OF service.uncordon_stored [OF assms(1,2) distinct sees] lift] s3
    by (simp_all add: update_named_twice)
  have "?stored (update_named (w_Name w) ?up ?x) t"
    using service.update_cong [OF s4, of "w_Name w" "\<lambda>n. n\<lparr>node_Annotations := (node_Annotations n)(AnnotationPoweredOff := None)\<rparr>"
        "\<lambda>n. n\<lparr>node_Annotations := (node_Annotations n)(AnnotationPoweredOff := None)\<rparr>"]
    by (simp add: ht update_named_twice comp_def) (simp add: service_def duty_def)
  then have up: "map service (?ns (hist t)) = map service (update_named (w_Name w) ?up ?x)" .
  obtain m where m: "m \<in> set ?x" "node_Name m = w_Name w"
    using found unfolding s3 by (auto simp: update_named_def split: if_splits)
  have "service (?up m) \<in> service ` set (?ns (hist t))"
    using imageI [OF update_named_in [OF m, of ?up], of service] arg_cong [OF up, of set] by simp
  then obtain n where n: "n \<in> set (?ns (hist t))" "service n = service (?up m)" by auto
  then have "node_Name n = w_Name w \<and> \<not> node_Unschedulable n \<and> PoweredOffSince n = None"
    using m(2) by (simp add: service_def duty_def PoweredOffSince_None)
  moreover have "hist t = (CNow t2 # CNow t1 # CPatchNode (w_Name w) [(AnnotationPoweredOff, None)] None # us @
      [CPatchNode (w_Name w) [(AnnotationBootedAt, Some (Format_RFC3339 now))] None]) @
      CNow now # CPowerOn (w_Name w) mac None # as @ hist s"
    by (simp add: ht h4 h3)
  ultimately show ?thesis using up n(1) by blast
qed

text \<open>A cluster whose second node is off, and reports Ready once a wake request has been answered.\<close>

definition sleeping_cluster :: cluster where
  "sleeping_cluster = sample_cluster\<lparr>cl_nodes := [sample_node ''n1'', off_node ''n2'' ''1970-01-01T00:00:10Z'']\<rparr>"

definition woken :: "call list \<Rightarrow> bool" where
  "woken h = list_ex (\<lambda>c. case c of CHttp meth _ (Inr _) \<Rightarrow> meth = ''POST'' | _ \<Rightarrow> False) h"

definition waking_env :: env where
  "waking_env = (store_env sleeping_cluster)\<lparr>env_GetNode := \<lambda>h name.
     (case node_named name (stored_nodes (cl_nodes sleeping_cluster) h) of
        Inl e \<Rightarrow> Inl e
      | Inr n \<Rightarrow> Inr (if woken h then n\<lparr>node_Conditions := [(''Ready'', ''True'')]\<rparr> else n))\<rparr>"

theorem power_on_effect_witness:
  "let n2 = off_node ''n2'' ''1970-01-01T00:00:10Z'' in
   n2 \<in> set (cl_nodes sleeping_cluster) \<and> node_Unschedulable n2 \<and> PoweredOffSince n2 \<noteq> None \<and> \<not> IsNodeReady n2 \<and>
   (\<exists>n \<in> set (stored_nodes (cl_nodes sleeping_cluster) (hist (snd (run_state (PowerOnAndMarkBooted waking_env
     (NewNodeWrapper n2 None 0 \<lparr>na_MAC = []\<rparr> []) sample_config
     (snd (NewControllersFromConfig waking_env sample_config)) False) init_sys)))).
     node_Name n = ''n2'' \<and> \<not> node_Unschedulable n \<and> PoweredOffSince n = None)"
proof -
  let ?n2 = "off_node ''n2'' ''1970-01-01T00:00:10Z''" and ?ns = "cl_nodes sleeping_cluster"
  let ?w = "NewNodeWrapper ?n2 None 0 \<lparr>na_MAC = []\<rparr> []"
  let ?run = "run_state (PowerOnAndMarkBooted waking_env ?w sample_config
     (snd (NewControllersFromConfig waking_env sample_config)) False) init_sys"
  have ok: "fst ?run = None" by code_simp
  have start: "PoweredOffSince ?n2 \<noteq> None" "\<not> IsNodeReady ?n2" by code_simp+
  have names: "distinct (map node_Name (stored_nodes ?ns (hist init_sys)))" "w_Name ?w = ''n2''"
    by (simp_all add: sleeping_cluster_def sample_node_def init_sys_def)
  have go: "client_go waking_env"
    using store_env_client_go [of sleeping_cluster] by (simp add: waking_env_def client_go_def)
  have reads: "reads_at service waking_env ?ns"
    unfolding reads_at_def
  proof (intro allI impI)
    fix h name n assume "env_GetNode waking_env h name = Inr n"
    then obtain m where "node_named name (stored_nodes ?ns h) = Inr m" "service n = service m"
      by (auto simp: waking_env_def service_def duty_def split: sum.splits if_splits)
    then show "node_Name n = name \<and> service n \<in> service ` set (stored_nodes ?ns h)"
      using node_named_Inr [of name "stored_nodes ?ns h" m] service.view_name [of n m] by auto
  qed
  have "?n2 \<in> set ?ns" by (simp add: sleeping_cluster_def)
  then show ?thesis
    using power_on_effect [OF go reads run_result [OF ok] names(1)] start unfolding names(2) Let_def by auto
qed

text \<open>C25: the powered-off mark is read back as it was written: after an accepted annotation the stored
  node is off since the second in which it was annotated, for every instant from 1970 to the end
  of the year 9999.\<close>

theorem powered_off_roundtrip:
  assumes "run_state (AnnotatePoweredOffNode E cfg name) s = (None, t)" and "\<not> DryRun cfg"
    and "0 \<le> clock_floor (hist t)" and "clock_floor (hist t) < 253402300800 * Second"
    and "n \<in> set (stored_nodes ns (hist t))" and "node_Name n = name"
  shows "PoweredOffSince n = Some (clock_floor (hist t) div Second * Second)"
proof -
  obtain now where t: "hist t = CPatchNode name [(AnnotationPoweredOff, Some (Format_RFC3339 now))] None # CNow now # hist s"
    using assms(1,2) by (auto simp: AnnotatePoweredOffNode_def Now_def PatchNode_def)
  then have "Parse_RFC3339 (Format_RFC3339 now) = Some (now div Second * Second)"
    using assms(3,4) by (intro Format_Parse) simp_all
  moreover have "node_Annotations n AnnotationPoweredOff = Some (Format_RFC3339 now)"
    using assms(5) unfolding t stored_nodes.simps by (rule in_update_named [OF _ assms(6)]) (use assms(6) in auto)
  ultimately show ?thesis using t Parse_empty by (auto simp: PoweredOffSince_def)
qed

theorem powered_off_roundtrip_witness:
  "\<exists>n \<in> set (stored_nodes (cl_nodes sample_cluster) (hist (snd (run_state
      (AnnotatePoweredOffNode (store_env sample_cluster) sample_config ''n1'') init_sys)))).
    node_Name n = ''n1'' \<and> PoweredOffSince n = Some Second"
proof -
  let ?run = "run_state (AnnotatePoweredOffNode (store_env sample_cluster) sample_config ''n1'') init_sys"
  have ok: "fst ?run = None" and clock: "clock_floor (hist (snd ?run)) = Second"
    by (simp_all add: AnnotatePoweredOffNode_def Now_def PatchNode_def store_env_def init_sys_def exists_err_def
        node_named_def sample_config_def sample_cluster_def sample_node_def unix_zero_def Second_def)
  have pre: "\<not> DryRun sample_config" "0 \<le> clock_floor (hist (snd ?run))"
    "clock_floor (hist (snd ?run)) < 253402300800 * Second"
    unfolding clock by (simp_all add: sample_config_def Second_def)
  have "list_ex (\<lambda>n. node_Name n = ''n1'') (stored_nodes (cl_nodes sample_cluster) (hist (snd ?run)))" by code_simp
  then obtain n where n: "n \<in> set (stored_nodes (cl_nodes sample_cluster) (hist (snd ?run)))" "node_Name n = ''n1''"
    unfolding list_ex_iff by blast
  from powered_off_roundtrip [OF run_result [OF ok] pre n] have "PoweredOffSince n = Some Second"
    unfolding clock by (simp add: Second_def)
  then show ?thesis using n by blast
qed

end
