(* ===== verification/Load_Statistics.thy ===== *)
theory Load_Statistics
  imports Cluster_Load Store_Cluster
begin

text \<open>
  The statistics of \<^verbatim>\<open>load_average_utils.go\<close>: the percentile's indices stay in the list, the median
  of an odd number of loads is the middle one, and an aggregate is computed only from the loads of
  all nodes that count.
\<close>

section \<open>Rounding twice\<close>

lemma round_even_bound: "0 \<le> y \<Longrightarrow> y < of_int k \<Longrightarrow> 0 \<le> round_even y \<and> round_even y \<le> k"
  using round_even_ge [of 0 y] round_even_le [of y k] by simp

lemma fl_idem_pos:
  assumes "0 < x"
  shows "fl (fl x) = fl x"
proof -
  let ?e = "float_exp x" and ?m = "round_even (x / ulp x)"
  have e: "- 1074 \<le> ?e" by (simp add: float_exp_def)
  have "x < 2 powi (\<lfloor>log 2 x\<rfloor> + 1)" by (rule binade(2) [OF assms])
  also have "\<dots> \<le> 2 powi (?e + 53)" using assms by (intro power_int_increasing) (simp_all add: float_exp_def)
  also have "\<dots> = of_int (2 ^ 53) * ulp x" by (simp add: ulp_def power_int_add)
  finally have m: "0 \<le> ?m" "?m \<le> 2 ^ 53"
    using round_even_bound [of "x / ulp x" "2 ^ 53"] assms by (simp_all add: divide_less_eq)
  have flx: "fl x = of_int ?m * 2 powi ?e" using assms by (simp add: fl_def ulp_def)
  consider "?m = 0" | "0 < ?m" "?m < 2 ^ 53" | "?m = 2 ^ 53" using m by linarith
  then show ?thesis
  proof cases
    case 1
    then show ?thesis by (simp add: flx)
  next
    case 2
    then show ?thesis unfolding flx by (rule fl_exact_pos) (rule e)
  next
    case 3
    then have "fl x = of_int 1 * 2 powi (?e + 53)" unfolding flx by (simp add: power_int_add)
    then show ?thesis using fl_exact_pos [of 1 "?e + 53"] e by simp
  qed
qed

lemma fl_idem [simp]: "fl (fl x) = fl x"
proof -
  consider "x = 0" | "0 < x" | "0 < - x" by linarith
  then show ?thesis
  proof cases
    case 3
    then show ?thesis using fl_idem_pos [of "- x"] by simp
  qed (use fl_idem_pos in auto)
qed

section \<open>Positions in the sorted list\<close>

lemma percentile_pos_bounds:
  assumes "0 < n" and "n \<le> 2 ^ 53" and "0 \<le> p" and "p \<le> 1"
  shows "0 \<le> percentile_pos n p" and "percentile_pos n p \<le> of_nat (n - 1)"
proof -
  have len: "fl (of_int (int n - 1)) = of_nat (n - 1)"
    using fl_of_int [of "int n - 1"] assms(1,2) by (simp add: of_nat_diff)
  show "0 \<le> percentile_pos n p" unfolding percentile_pos_def len by (intro fl_nonneg) (simp add: assms)
  have "p * of_nat (n - 1) \<le> of_nat (n - 1)" using assms by (simp add: mult_left_le_one_le)
  then have "fl (p * of_nat (n - 1)) \<le> fl (of_nat (n - 1))" by (rule fl_mono)
  moreover have "fl (of_nat (n - 1)) = (of_nat (n - 1) :: real)" using assms by (intro fl_of_nat) simp
  ultimately show "percentile_pos n p \<le> of_nat (n - 1)" unfolding percentile_pos_def len by simp
qed

lemma median_pos:
  assumes "2 * k + 1 \<le> 2 ^ 53"
  shows "percentile_pos (2 * k + 1) (1 / 2) = of_nat k"
proof -
  have "fl (of_int (int (2 * k + 1) - 1)) = (of_int (int (2 * k + 1) - 1) :: real)"
    using assms by (intro fl_of_int) simp
  then show ?thesis using fl_of_nat [of k] assms by (simp add: percentile_pos_def)
qed

section \<open>Fetched loads\<close>

text \<open>
  The load of a node, as its agent answered: the pods were listed, a pod of that listing which runs
  on the node was asked next, and the load is what it answered by the number of CPUs.
\<close>

definition answered :: "cluster_load_utils \<Rightarrow> call list \<Rightarrow> string \<Rightarrow> real \<Rightarrow> bool" where
  "answered u cs name load \<longleftrightarrow>
     (\<exists>later earlier q pods p resp load15 cpus.
        cs = later @ CHttp ''GET'' (load_url (pod_PodIP p) (u_HTTPPort u)) (Inr resp) # CListPods q (Inr pods) # earlier \<and>
        p \<in> set pods \<and> pod_NodeName p = name \<and> pod_PodIP p \<noteq> [] \<and> resp_Status resp = 200 \<and>
        resp_load resp = Some (load15, cpus) \<and> cpus \<noteq> 0 \<and> load = fl (load15 / fl (of_int cpus)))"

lemma answered_more: "answered u cs name load \<Longrightarrow> answered u (ds @ cs @ es) name load"
  unfolding answered_def by (metis append.assoc append_Cons)

lemma FetchNormalizedLoad_pod:
  assumes "run_state (FetchNormalizedLoad E u name) s = (Inr load, t)"
  shows "\<exists>p q pods resp load15 cpus. hist t = CHttp ''GET'' (load_url (pod_PodIP p) (u_HTTPPort u)) (Inr resp) #
      CListPods q (Inr pods) # hist s \<and> p \<in> set pods \<and> pod_NodeName p = name \<and>
    env_Http E (CListPods q (Inr pods) # hist s) ''GET'' (load_url (pod_PodIP p) (u_HTTPPort u)) = Inr resp \<and>
    pod_PodIP p \<noteq> [] \<and> resp_Status resp = 200 \<and> resp_load resp = Some (load15, cpus) \<and> cpus \<noteq> 0 \<and> load = fl (load15 / fl (of_int cpus))"
proof -
  obtain p s1 where find: "run_state (findMetricsPodForNode E u name) s = (Inr p, s1)"
    using assms by (auto simp: FetchNormalizedLoad_def split: prod.splits sum.splits)
  obtain q pods where h1: "hist s1 = CListPods q (Inr pods) # hist s" and
    p: "find (\<lambda>p. pod_NodeName p = name \<and> pod_PodIP p \<noteq> []) pods = Some p"
    using find by (auto simp: findMetricsPodForNode_def ListPods_def split: sum.splits option.splits)
  have "p \<in> set pods" "pod_NodeName p = name" "pod_PodIP p \<noteq> []" using p by (auto simp: find_Some_iff)
  moreover obtain resp load15 cpus where
    "hist t = CHttp ''GET'' (load_url (pod_PodIP p) (u_HTTPPort u)) (Inr resp) # CListPods q (Inr pods) # hist s"
    "env_Http E (CListPods q (Inr pods) # hist s) ''GET'' (load_url (pod_PodIP p) (u_HTTPPort u)) = Inr resp"
    "resp_Status resp = 200" "resp_load resp = Some (load15, cpus)" "cpus \<noteq> 0" "load = fl (load15 / fl (of_int cpus))"
    using assms find h1
    by (auto simp: FetchNormalizedLoad_def Http_def split: sum.splits option.splits if_splits)
  ultimately show ?thesis by blast
qed

lemma FetchNormalizedLoad_answered:
  assumes "run_state (FetchNormalizedLoad E u name) s = (Inr load, t)"
  shows "\<exists>cs. hist t = cs @ hist s \<and> answered u cs name load"
proof -
  obtain p q pods resp load15 cpus where
    h: "hist t = [CHttp ''GET'' (load_url (pod_PodIP p) (u_HTTPPort u)) (Inr resp), CListPods q (Inr pods)] @ hist s"
    and p: "p \<in> set pods" "pod_NodeName p = name" "pod_PodIP p \<noteq> []" "resp_Status resp = 200"
      "resp_load resp = Some (load15, cpus)" "cpus \<noteq> 0" "load = fl (load15 / fl (of_int cpus))"
    using FetchNormalizedLoad_pod [OF assms] by auto
  from p have "answered u [CHttp ''GET'' (load_url (pod_PodIP p) (u_HTTPPort u)) (Inr resp), CListPods q (Inr pods)] name load"
    unfolding answered_def
    by (intro exI [where x = "[]"] exI [where x = q] exI [where x = pods] exI [where x = p] exI [where x = resp]
        exI [where x = load15] exI [where x = cpus]) simp
  with h show ?thesis by blast
qed

lemma fetch_loads_answered:
  assumes "run_state (fetch_loads E u names loads m) s = (Inr (loads', m'), t)"
  shows "\<exists>cs new. hist t = cs @ hist s \<and> loads' = loads @ new \<and> list_all2 (answered u cs) names new"
  using assms
proof (induction names arbitrary: loads m s)
  case Nil
  then show ?case by simp
next
  case (Cons name names)
  obtain load s1 where one: "run_state (FetchNormalizedLoad E u name) s = (Inr load, s1)"
    and rest: "run_state (fetch_loads E u names (loads @ [load]) (m(name \<mapsto> load))) s1 = (Inr (loads', m'), t)"
    using Cons.prems by (auto split: prod.splits sum.splits)
  obtain cs where cs: "hist s1 = cs @ hist s" "answered u cs name load"
    using FetchNormalizedLoad_answered [OF one] by blast
  obtain ds new where ds: "hist t = ds @ hist s1" "loads' = (loads @ [load]) @ new" "list_all2 (answered u ds) names new"
    using Cons.IH [OF rest] by blast
  have "answered u (ds @ cs) name load" using answered_more [OF cs(2), of ds "[]"] by simp
  moreover have "list_all2 (answered u (ds @ cs)) names new"
    using ds(3) by (rule list_all2_mono) (use answered_more [where ds = "[]"] in auto)
  ultimately show ?case using cs ds by (intro exI [where x = "ds @ cs"] exI [where x = "load # new"]) simp
qed

lemmas load_run = GetClusterAggregateLoad_def GetEligibleClusterLoads_def FetchClusterLoads_def FetchNormalizedLoad_def
  findMetricsPodForNode_def NewClusterLoadUtils_def ListNodes_def ListPods_def Http_def

section \<open>Properties\<close>

text \<open>C30: for up to \<open>2 ^ 53\<close> loads the position a percentile computes in \<^verbatim>\<open>float64\<close> is neither negative
  nor beyond the last element, so both elements it reads are in the list, and the upper one is
  read only where it exists.\<close>

theorem percentile_in_range:
  assumes "values \<noteq> []" and "length values \<le> 2 ^ 53" and "0 \<le> p" and "p \<le> 1"
  shows "let sorted_vs = sort values; lower = nat \<lfloor>percentile_pos (length sorted_vs) p\<rfloor>
    in lower < length sorted_vs \<and>
      (percentile values p = sorted_vs ! lower \<and> lower + 1 = length sorted_vs \<or>
       lower + 1 < length sorted_vs \<and>
       (\<exists>weight. percentile values p =
          fl (fl (sorted_vs ! lower * fl (1 - weight)) + fl (sorted_vs ! (lower + 1) * weight))))"
proof -
  let ?n = "length values" and ?pos = "percentile_pos (length values) p"
  have "0 < ?n" using assms(1) by simp
  note b = percentile_pos_bounds [OF this assms(2-4)]
  then have "\<lfloor>?pos\<rfloor> \<le> int (?n - 1)" by (metis floor_mono floor_of_nat)
  then have "nat \<lfloor>?pos\<rfloor> < ?n" using \<open>0 < ?n\<close> by linarith
  then show ?thesis using assms(1) by (auto simp: percentile_def Let_def)
qed

theorem percentile_in_range_witness:
  "nat \<lfloor>percentile_pos 4 (3 / 4)\<rfloor> < 4"
proof -
  let ?vs = "[1 / 2, 1 / 4, 1, 2] :: real list"
  have "nat \<lfloor>percentile_pos (length (sort ?vs)) (3 / 4)\<rfloor> < length (sort ?vs)"
    by (rule percentile_in_range [of ?vs "3 / 4", unfolded Let_def, THEN conjunct1]) simp_all
  moreover have "length (sort ?vs) = 4" by (simp only: length_sort) simp
  ultimately show ?thesis by (simp only:)
qed

text \<open>The median of an odd number of \<^verbatim>\<open>float64\<close> loads is exactly the middle one, whatever their
  order: at least half of them are no smaller and at least half no larger, itself included.\<close>

theorem median_odd:
  assumes "length values = 2 * k + 1" and "2 * k + 1 \<le> 2 ^ 53" and "\<forall>v \<in> set values. fl v = v"
  shows "median values = sort values ! k \<and>
    k + 1 \<le> length (filter (\<lambda>v. v \<le> median values) values) \<and>
    k + 1 \<le> length (filter (\<lambda>v. median values \<le> v) values)"
proof -
  let ?s = "sort values"
  have len: "length ?s = 2 * k + 1" by (simp add: assms(1))
  have "?s ! k \<in> set ?s" using len by (intro nth_mem) simp
  then have mid: "fl (?s ! k) = ?s ! k" using assms(3) by simp
  have fl1: "fl 1 = 1" using fl_of_nat [of 1] by simp
  have median: "median values = ?s ! k"
  proof (cases "k = 0")
    case True
    then show ?thesis using assms(1) median_pos [of 0] by (auto simp: median_def percentile_def Let_def)
  next
    case False
    have "fl (of_nat k) = (of_nat k :: real)" using assms(2) by (intro fl_of_nat) simp
    then show ?thesis using assms(1) median_pos [OF assms(2)] False mid fl1
      by (auto simp: median_def percentile_def Let_def)
  qed
  have "k + 1 \<le> length (filter (\<lambda>v. v \<le> ?s ! k) ?s)"
  proof -
    have "\<forall>v \<in> set (take (k + 1) ?s). v \<le> ?s ! k"
      using len by (auto simp: in_set_conv_nth intro!: sorted_nth_mono)
    then have "filter (\<lambda>v. v \<le> ?s ! k) (take (k + 1) ?s) = take (k + 1) ?s" by (intro filter_True) auto
    then have "length (filter (\<lambda>v. v \<le> ?s ! k) (take (k + 1) ?s @ drop (k + 1) ?s)) \<ge> k + 1"
      unfolding filter_append using len by simp
    then show ?thesis by simp
  qed
  moreover have "k + 1 \<le> length (filter (\<lambda>v. ?s ! k \<le> v) ?s)"
  proof -
    have "\<forall>v \<in> set (drop k ?s). ?s ! k \<le> v"
      using len by (auto simp: in_set_conv_nth intro!: sorted_nth_mono)
    then have "filter (\<lambda>v. ?s ! k \<le> v) (drop k ?s) = drop k ?s" by (intro filter_True) auto
    then have "length (filter (\<lambda>v. ?s ! k \<le> v) (take k ?s @ drop k ?s)) \<ge> k + 1"
      unfolding filter_append using len by simp
    then show ?thesis by simp
  qed
  moreover have "length (filter P ?s) = length (filter P values)" for P
    by (metis mset_filter mset_sort size_mset)
  ultimately show ?thesis using median by simp
qed

theorem median_odd_witness: "median [2, 1 / 4, 1] = 1"
proof -
  have "\<forall>v \<in> set [2, 1 / 4, 1 :: real]. fl v = v"
    using fl_exact_pos [of 1 "- 2"] fl_of_int [of 2] fl_of_int [of 1] by (simp add: power_int_minus)
  then show ?thesis using median_odd [of "[2, 1 / 4, 1]" 1] by simp
qed

text \<open>C29: an aggregate load is computed only when every listed node that counts answered: there are such
  nodes, for each of them a pod on that very node, shown by a listing of the pods, was asked for
  its load right after the listing and answered with status 200, a decodable body and a non-zero
  CPU count, and the aggregate is the configured statistic over exactly their normalised loads, in
  the order of the listing.\<close>

theorem aggregate_complete:
  assumes "run_state (GetClusterAggregateLoad E u ignore exclude None mode) s = (Inr v, t)"
  shows "\<exists>nodes loads cs. hist t = cs @ CListNodes (Inr nodes) # hist s \<and>
    loads \<noteq> [] \<and> v = EvaluateAggregate loads mode \<and>
    list_all2 (\<lambda>n. answered u cs (node_Name n))
      (filter (load_eligible ignore exclude) nodes) loads"
proof -
  obtain nodes s1 where list: "run_state (ListNodes E) s = (Inr nodes, s1)"
    using assms by (auto simp: GetClusterAggregateLoad_def GetEligibleClusterLoads_def split: prod.splits sum.splits)
  let ?names = "map node_Name (filter (load_eligible ignore exclude) nodes)"
  obtain loads m where fetch: "run_state (fetch_loads E u ?names [] Map.empty) s1 = (Inr (loads, m), t)"
    and v: "loads \<noteq> []" "v = EvaluateAggregate loads mode"
    using assms list
    by (auto simp: GetClusterAggregateLoad_def GetEligibleClusterLoads_def FetchClusterLoads_def
        split: prod.splits sum.splits if_splits)
  obtain cs where cs: "hist t = cs @ hist s1" "list_all2 (answered u cs) ?names loads"
    using fetch_loads_answered [OF fetch] by auto
  have "hist s1 = CListNodes (Inr nodes) # hist s" using list by (auto simp: ListNodes_def)
  then show ?thesis using v cs by (auto simp: list_all2_map1)
qed

theorem aggregate_complete_witness:
  "\<exists>v cs. fst (run_state (GetClusterAggregateLoad
      (constant_env [sample_node ''n1'', sample_node ''n2''] [sample_pod ''m1'' ''n1'' None, sample_pod ''m2'' ''n2'' None] ok_resp)
      (NewClusterLoadUtils ''default'' ''app=metrics'' 9100 Second) [] ''n1'' None ClusterEvalMedian) init_sys) = Inr v \<and>
    (\<exists>load. v = EvaluateAggregate [load] ClusterEvalMedian)"
proof -
  let ?ns = "[sample_node ''n1'', sample_node ''n2'']"
  let ?E = "constant_env ?ns [sample_pod ''m1'' ''n1'' None, sample_pod ''m2'' ''n2'' None] ok_resp"
  let ?run = "run_state (GetClusterAggregateLoad ?E (NewClusterLoadUtils ''default'' ''app=metrics'' 9100 Second) []
      ''n1'' None ClusterEvalMedian) init_sys"
  have eligible: "filter (load_eligible [] ''n1'') ?ns = [sample_node ''n2'']"
    by (simp add: load_eligible_def ShouldIgnoreNodeDueToLabels_def) (simp add: sample_node_def annotation_defs)
  have names: "node_Name (sample_node ''n2'') = ''n2''" by (simp add: sample_node_def)
  obtain v where v: "fst ?run = Inr v"
    by (simp add: load_run eligible names constant_env_def sample_pod_def ok_resp_def del: filter.simps)
  have hist: "\<exists>a b. hist (snd ?run) = [a, b, CListNodes (Inr ?ns)]"
    by (simp add: load_run eligible names constant_env_def sample_pod_def ok_resp_def init_sys_def del: filter.simps)
  obtain nodes loads cs where t: "hist (snd ?run) = cs @ [CListNodes (Inr nodes)]"
    and agg: "v = EvaluateAggregate loads ClusterEvalMedian"
    and len: "length (filter (load_eligible [] ''n1'') nodes) = length loads"
    using aggregate_complete [OF run_result [OF v]] by (auto simp: init_sys_def dest: list_all2_lengthD)
  have "nodes = ?ns" using t hist by auto
  then have "length loads = 1" using len eligible by simp
  then show ?thesis using v agg by (auto simp: length_Suc_conv)
qed

end
