(* ===== verification/Strategy_Facts.thy ===== *)
theory Strategy_Facts
  imports Reconciler Load_Statistics Node_Selection
begin

text \<open>
  What the strategies decide: the resource check as arithmetic on unbounded integers, the evidence
  behind an approved scale-down and behind a requested scale-up.
\<close>

section \<open>The resource check in integers\<close>

definition cpu_of :: "resource_list \<Rightarrow> int" where "cpu_of rl = sint (q_MilliValue (rl_Cpu rl))"
definition mem_of :: "resource_list \<Rightarrow> int" where "mem_of rl = sint (q_Value (rl_Memory rl))"

definition requested :: "(resource_list \<Rightarrow> int) \<Rightarrow> pod list \<Rightarrow> int" where
  "requested f pods = sum_list (map (\<lambda>p. sum_list (map (\<lambda>c. f (c_Requests c)) (pod_Containers p))) pods)"

text \<open>The capacity left without a node.\<close>

definition capacity :: "(resource_list \<Rightarrow> int) \<Rightarrow> node list \<Rightarrow> string \<Rightarrow> int" where
  "capacity f nodes name = sum_list (map (\<lambda>n. f (node_Allocatable n)) (filter (\<lambda>n. node_Name n \<noteq> name) nodes))"

definition used_on :: "(resource_list \<Rightarrow> int) \<Rightarrow> (string \<rightharpoonup> resource_list) \<Rightarrow> string \<Rightarrow> int" where
  "used_on f usage name = (case usage name of None \<Rightarrow> 0 | Some rl \<Rightarrow> f rl)"

definition used_elsewhere :: "(resource_list \<Rightarrow> int) \<Rightarrow> (string \<rightharpoonup> resource_list) \<Rightarrow> node list \<Rightarrow> string \<Rightarrow> int" where
  "used_elsewhere f usage nodes name =
     sum_list (map (\<lambda>n. used_on f usage (node_Name n)) (filter (\<lambda>n. node_Name n \<noteq> name) nodes))"

text \<open>What moves over if the node goes, and whether it fits with the configured margin.\<close>

definition fits :: "int \<Rightarrow> int \<Rightarrow> int \<Rightarrow> bool" where
  "fits load cap perc \<longleftrightarrow> load + trunc_div (cap * perc) 100 \<le> cap"

definition exact :: "int \<Rightarrow> int \<Rightarrow> int \<Rightarrow> bool" where
  "exact load cap perc \<longleftrightarrow> in_int64 cap \<and> in_int64 (cap * perc) \<and> in_int64 (load + trunc_div (cap * perc) 100)"

lemma word_of_int_sint_add:
  "word_of_int a + (w :: int64) = word_of_int (a + sint w)"
  by simp

lemma add_requests_eq:
  "foldl add_request (word_of_int a, word_of_int b) cs =
     (word_of_int (a + sum_list (map (\<lambda>c. cpu_of (c_Requests c)) cs)),
      word_of_int (b + sum_list (map (\<lambda>c. mem_of (c_Requests c)) cs)))"
  by (induction cs arbitrary: a b)
    (simp_all add: add_request_def word_of_int_sint_add cpu_of_def mem_of_def add.assoc del: of_int_add)

lemma SumRequests_eq:
  "SumRequests pods = (word_of_int (requested cpu_of pods), word_of_int (requested mem_of pods))"
proof -
  have "foldl (\<lambda>acc p. foldl add_request acc (pod_Containers p)) (word_of_int a, word_of_int b) pods =
      (word_of_int (a + requested cpu_of pods), word_of_int (b + requested mem_of pods))" for a b
    by (induction pods arbitrary: a b) (simp_all add: requested_def add_requests_eq add.assoc del: of_int_add)
  from this [of 0 0] show ?thesis by (simp add: SumRequests_def)
qed

lemma sint_of_int64: "in_int64 k \<Longrightarrow> sint (word_of_int k :: int64) = k"
  by (simp add: sint_sbintrunc' signed_take_bit_int_eq_self_iff in_int64_def min_int64_def max_int64_def)

definition used_by :: "(resource_list \<Rightarrow> int) \<Rightarrow> (string \<rightharpoonup> resource_list) \<Rightarrow> node list \<Rightarrow> string \<Rightarrow> int" where
  "used_by f usage nodes name = (if name \<in> node_Name ` set nodes then used_on f usage name else 0)"

lemma AnalyzeNodes_sums:
  shows "an_clusterCPU (AnalyzeNodes nodes usage name a) = an_clusterCPU a + word_of_int (capacity cpu_of nodes name)"
    and "an_clusterMem (AnalyzeNodes nodes usage name a) = an_clusterMem a + word_of_int (capacity mem_of nodes name)"
    and "an_totalCPUUsage (AnalyzeNodes nodes usage name a) = an_totalCPUUsage a + word_of_int (used_elsewhere cpu_of usage nodes name)"
    and "an_totalMemUsage (AnalyzeNodes nodes usage name a) = an_totalMemUsage a + word_of_int (used_elsewhere mem_of usage nodes name)"
  by (induction nodes arbitrary: a)
    (auto simp: analyze_candidate_def analyze_other_def capacity_def used_elsewhere_def used_on_def Let_def
      cpu_of_def mem_of_def split: option.split)

lemma AnalyzeNodes_used:
  shows "an_usedCPU (AnalyzeNodes nodes usage name a) = (if name \<in> node_Name ` set nodes \<and> usage name \<noteq> None
      then word_of_int (used_on cpu_of usage name) else an_usedCPU a)"
    and "an_usedMem (AnalyzeNodes nodes usage name a) = (if name \<in> node_Name ` set nodes \<and> usage name \<noteq> None
      then word_of_int (used_on mem_of usage name) else an_usedMem a)"
  by (induction nodes arbitrary: a)
    (auto simp: analyze_candidate_def analyze_other_def used_on_def Let_def cpu_of_def mem_of_def split: option.split)

lemma AnalyzeNodes_eq:
  shows "an_clusterCPU (AnalyzeNodes nodes usage name empty_analysis) = word_of_int (capacity cpu_of nodes name)"
    and "an_clusterMem (AnalyzeNodes nodes usage name empty_analysis) = word_of_int (capacity mem_of nodes name)"
    and "an_totalCPUUsage (AnalyzeNodes nodes usage name empty_analysis) + an_usedCPU (AnalyzeNodes nodes usage name empty_analysis) = word_of_int (used_elsewhere cpu_of usage nodes name + used_by cpu_of usage nodes name)"
    and "an_totalMemUsage (AnalyzeNodes nodes usage name empty_analysis) + an_usedMem (AnalyzeNodes nodes usage name empty_analysis) = word_of_int (used_elsewhere mem_of usage nodes name + used_by mem_of usage nodes name)"
  by (auto simp: AnalyzeNodes_sums AnalyzeNodes_used empty_analysis_def used_by_def used_on_def)

lemma margin_eq: "in_int64 (cap * sint perc) \<Longrightarrow> margin (word_of_int cap) perc = word_of_int (trunc_div (cap * sint perc) 100)"
proof -
  assume "in_int64 (cap * sint perc)"
  then have "sint (word_of_int cap * perc) = cap * sint perc"
    using sint_of_int64 [of "cap * sint perc"] by simp
  moreover have "sint (100 :: int64) = 100" by simp
  ultimately show ?thesis by (simp add: margin_def quot64_def)
qed

lemma fits_word:
  assumes "exact load cap (sint perc)"
  shows "word_of_int load + margin (word_of_int cap) perc \<le>s (word_of_int cap :: int64) \<longleftrightarrow> fits load cap (sint perc)"
proof -
  have "word_of_int load + margin (word_of_int cap) perc = (word_of_int (load + trunc_div (cap * sint perc) 100) :: int64)"
    using assms by (simp add: margin_eq exact_def)
  then show ?thesis using assms by (simp add: word_sle_eq sint_of_int64 exact_def fits_def del: of_int_add)
qed

section \<open>What an approval rests on\<close>

lemma resource_approved:
  assumes "run_state (ResourceAware_ShouldScaleDown E (resource_aware_of E cfg) name) s = (Inr True, t)"
  shows "\<exists>nodes pods usages.
    hist t = CListMetrics (Inr usages) # CListPods AllPods (Inr pods) # CListNodes (Inr nodes) # hist s \<and>
    (\<forall>n \<in> set nodes. usage_map usages (node_Name n) \<noteq> None) \<and> resource_check cfg nodes pods (usage_map usages) name"
  using assms
  by (auto simp: ResourceAware_ShouldScaleDown_def resource_aware_of_def node_lister_def pod_lister_def ListNodes_def
      ListPods_def ListMetrics_def Let_def list_ex_iff split: sum.splits if_splits)

lemma load_approved:
  assumes "run_state (LoadAverageDown_ShouldScaleDown E l name) s = (Inr True, t)"
  shows "\<exists>load aggregate s1. load < ld_NodeThreshold l \<and> aggregate < ld_ClusterWideThreshold l \<and>
    run_state (getNormalizedLoadForNode E l name) s = (Inr load, s1) \<and>
    run_state (getClusterAggregateLoad E l name) s1 = (Inr aggregate, t)"
  using assms
  by (auto simp: LoadAverageDown_ShouldScaleDown_def split: prod.splits sum.splits if_splits)

lemma node_load_source:
  assumes "run_state (getNormalizedLoadForNode E l name) s = (Inr load, t)"
  shows "\<exists>cs. hist t = cs @ hist s \<and> (ld_DryRunNodeLoadOverride l = Some load \<or>
    ld_DryRunNodeLoadOverride l = None \<and> answered (ld_utils l) cs name load)"
  using assms FetchNormalizedLoad_answered
  by (fastforce simp: getNormalizedLoadForNode_def split: option.splits)

lemma aggregate_source:
  assumes "run_state (getClusterAggregateLoad E l name) s = (Inr aggregate, t)"
  shows "(\<exists>cs. hist t = cs @ hist s) \<and> (ld_DryRunClusterLoadOverride l = Some aggregate \<or>
    ld_DryRunClusterLoadOverride l = None \<and>
    run_state (GetClusterAggregateLoad E (ld_utils l) (ld_exclusions l) name None (ld_ClusterEvalMode l)) s = (Inr aggregate, t))"
proof
  show "\<exists>cs. hist t = cs @ hist s"
    using reading_run(1) [OF aggregate_reading assms [unfolded getClusterAggregateLoad_def]] by auto
  show "ld_DryRunClusterLoadOverride l = Some aggregate \<or> ld_DryRunClusterLoadOverride l = None \<and>
    run_state (GetClusterAggregateLoad E (ld_utils l) (ld_exclusions l) name None (ld_ClusterEvalMode l)) s = (Inr aggregate, t)"
    using assms by (cases "ld_DryRunClusterLoadOverride l") (simp_all add: getClusterAggregateLoad_def GetClusterAggregateLoad_def)
qed

lemma load_average_down_of_simps [simp]:
  "ld_NodeThreshold (load_average_down_of cfg a b) = la_NodeThreshold (LoadAverageStrategy cfg)"
  "ld_ClusterWideThreshold (load_average_down_of cfg a b) = la_ScaleDownThreshold (LoadAverageStrategy cfg)"
  "ld_DryRunNodeLoadOverride (load_average_down_of cfg a b) = a"
  "ld_DryRunClusterLoadOverride (load_average_down_of cfg a b) = b"
  "ld_ClusterEvalMode (load_average_down_of cfg a b) = ParseClusterEvalMode (la_ClusterEval (LoadAverageStrategy cfg))"
  by (simp_all add: load_average_down_of_def Let_def)

lemma exclusions_agree: "ld_exclusions (load_average_down_of cfg a b) = BuildAggregateExclusions cfg"
  by (simp add: ld_exclusions_def BuildAggregateExclusions_def load_average_down_of_def Let_def)

section \<open>What a request rests on\<close>

lemma first_shutdown_name:
  assumes "run_state (shutdownNodeNames E cfg) s = (name # names, t)"
  shows "\<exists>nodes n. hist t = CRand # CListNodes (Inr nodes) # hist s \<and> n \<in> set nodes \<and> node_Name n = name \<and>
    managed_node (managed_filter cfg) n \<and> off_since (tracker s) n \<noteq> None \<and>
    (\<forall>m \<in> set nodes. managed_node (managed_filter cfg) m \<and> off_since (tracker s) m \<noteq> None \<longrightarrow>
       the (off_since (tracker s) n) \<le> the (off_since (tracker s) m))"
proof -
  have run: "run_state (ListShutdownNodeNames E (managed_filter cfg)) s = (Inr (name # names), t)"
    using assms by (auto simp: shutdownNodeNames_def split: prod.splits sum.splits)
  let ?key = "\<lambda>n. the (off_since (tracker s) n)"
  obtain nodes rnd where
    hist: "hist t = CRand # CListNodes (Inr nodes) # hist s" and
    sorted: "name # names = map node_Name (sort_Slice rnd ?key
       (filter (\<lambda>n. off_since (tracker s) n \<noteq> None) (filter (managed_node (managed_filter cfg)) nodes)))"
    by (rule run_ListShutdownNodeNames [OF run])
  let ?off = "filter (\<lambda>n. off_since (tracker s) n \<noteq> None) (filter (managed_node (managed_filter cfg)) nodes)"
  obtain n rest where n: "sort_Slice rnd ?key ?off = n # rest" "node_Name n = name"
    using sorted by (auto simp: Cons_eq_map_conv)
  have "n \<in> set ?off" using n(1) by (metis list.set_intros(1) set_sort_Slice)
  moreover have "?key n \<le> ?key m" if "m \<in> set ?off" for m
    using hd_sort_Slice_least [OF that, of ?key rnd] n(1) by simp
  ultimately show ?thesis using hist n(2) by (intro exI [where x = nodes] exI [where x = n]) auto
qed

lemma scale_up_stages:
  assumes "run_state (su_ShouldScaleUp (buildScaleUpStrategy E cfg override)) s = (Inr (name, True), t)"
  shows "\<exists>names s1 s2. run_state (shutdownNodeNames E cfg) s1 = (name # names, s2) \<and> reading s s1 \<and> reading s2 t \<and>
    ((\<exists>active. run_state (listActiveNodes E cfg) s = (Inr active, s1) \<and> int (length active) < MinNodes cfg) \<or>
     la_Enabled (LoadAverageStrategy cfg) \<and>
       (\<exists>aggregate. la_ScaleUpThreshold (LoadAverageStrategy cfg) \<le> aggregate \<and>
         (override = Some aggregate \<or> override = None \<and>
            run_state (GetClusterAggregateLoad E (NewClusterLoadUtils (la_Namespace (LoadAverageStrategy cfg))
              (la_PodLabel (LoadAverageStrategy cfg)) (la_Port (LoadAverageStrategy cfg)) (load_timeout cfg))
              (BuildAggregateExclusions cfg) [] None (ParseClusterEvalMode (la_ClusterEval (LoadAverageStrategy cfg)))) s2 =
            (Inr aggregate, t))))"
proof -
  let ?m = "min_node_count_of E cfg" and ?l = "load_average_up_of E cfg override"
  consider (min) "run_state (MinNodeCount_ShouldScaleUp ?m) s = (Inr (name, True), t)"
    | (load) r s0 where "la_Enabled (LoadAverageStrategy cfg)" "run_state (MinNodeCount_ShouldScaleUp ?m) s = (r, s0)"
        "run_state (LoadAverageUp_ShouldScaleUp E ?l) s0 = (Inr (name, True), t)"
    using assms
    by (auto simp: buildScaleUpStrategy_def MultiUpStrategy_def MinNodeCountScaleUp_def LoadAverageScaleUp_def
        split: if_splits prod.splits sum.splits)
  then show ?thesis
  proof cases
    case min
    then obtain active names s1 where active: "run_state (listActiveNodes E cfg) s = (Inr active, s1)"
      "int (length active) < MinNodes cfg" and names: "run_state (shutdownNodeNames E cfg) s1 = (name # names, t)"
      by (auto simp: MinNodeCount_ShouldScaleUp_def min_node_count_of_def split: prod.splits sum.splits if_splits list.splits)
    have "reading s s1" by (rule state_io_rel_run [OF list_reading(2) active(1)])
    then show ?thesis using active names reading.R_refl by blast
  next
    case load
    have "advisor (\<lambda>_ :: unit. su_ShouldScaleUp (MinNodeCountScaleUp ?m))"
      by (rule advisor_MinNodeCount) (simp_all add: min_node_count_of_def list_reading)
    then have "reading s s0"
      using state_io_rel_run [OF advisor.only_reads] load(2) by (fastforce simp: MinNodeCountScaleUp_def)
    moreover from load(3) obtain names s2 aggregate where names: "run_state (shutdownNodeNames E cfg) s0 = (name # names, s2)"
      and agg: "run_state (LoadAverageUp_aggregate E ?l) s2 = (Inr aggregate, t)"
      and ge: "la_ScaleUpThreshold (LoadAverageStrategy cfg) \<le> aggregate"
      by (auto simp: LoadAverageUp_ShouldScaleUp_def load_average_up_of_def Let_def
          split: prod.splits sum.splits if_splits list.splits)
    moreover have "reading s2 t"
      using agg by (rule state_io_rel_run [rotated]) (simp add: LoadAverageUp_aggregate_def Let_def, intro frame_intro)
    moreover have "override = Some aggregate \<or> override = None \<and>
            run_state (GetClusterAggregateLoad E (NewClusterLoadUtils (la_Namespace (LoadAverageStrategy cfg))
              (la_PodLabel (LoadAverageStrategy cfg)) (la_Port (LoadAverageStrategy cfg)) (load_timeout cfg))
              (BuildAggregateExclusions cfg) [] None (ParseClusterEvalMode (la_ClusterEval (LoadAverageStrategy cfg)))) s2 =
            (Inr aggregate, t)"
      using agg by (cases override) (auto simp: LoadAverageUp_aggregate_def load_average_up_of_def Let_def)
    ultimately show ?thesis using load(1) by blast
  qed
qed

section \<open>Properties\<close>

text \<open>C20: as long as no capacity, product with the buffer or total leaves the \<^verbatim>\<open>int64\<close> range, the
  wrapping arithmetic of the resource check decides the intended condition over the integers: the
  CPU and memory requests of all pods, and the usage of all nodes with the candidate's moved over,
  each with the buffer's share of the remaining capacity, fit into the capacity left without the
  candidate.\<close>

theorem resource_check_exact:
  assumes "exact (requested cpu_of pods) (capacity cpu_of nodes name) (sint (ResourceBufferCPUPerc cfg))"
    and "exact (requested mem_of pods) (capacity mem_of nodes name) (sint (ResourceBufferMemoryPerc cfg))"
    and "exact (used_elsewhere cpu_of usage nodes name + used_by cpu_of usage nodes name) (capacity cpu_of nodes name)
      (sint (ResourceBufferCPUPerc cfg))"
    and "exact (used_elsewhere mem_of usage nodes name + used_by mem_of usage nodes name) (capacity mem_of nodes name)
      (sint (ResourceBufferMemoryPerc cfg))"
  shows "resource_check cfg nodes pods usage name \<longleftrightarrow>
    fits (requested cpu_of pods) (capacity cpu_of nodes name) (sint (ResourceBufferCPUPerc cfg)) \<and>
    fits (requested mem_of pods) (capacity mem_of nodes name) (sint (ResourceBufferMemoryPerc cfg)) \<and>
    fits (used_elsewhere cpu_of usage nodes name + used_by cpu_of usage nodes name) (capacity cpu_of nodes name)
      (sint (ResourceBufferCPUPerc cfg)) \<and>
    fits (used_elsewhere mem_of usage nodes name + used_by mem_of usage nodes name) (capacity mem_of nodes name)
      (sint (ResourceBufferMemoryPerc cfg))"
  by (simp add: resource_check_def SumRequests_eq Let_def AnalyzeNodes_eq fits_word [OF assms(1)] fits_word [OF assms(2)]
      fits_word [OF assms(3)] fits_word [OF assms(4)] del: of_int_add)

theorem resource_check_exact_witness:
  "resource_check sample_config [sample_node ''n1'', sample_node ''n2''] [sample_pod ''web'' ''n1'' None]
     (usage_map [sample_usage ''n1'', sample_usage ''n2'']) ''n1''"
proof -
  let ?ns = "[sample_node ''n1'', sample_node ''n2'']" and ?ps = "[sample_pod ''web'' ''n1'' None]"
  let ?u = "usage_map [sample_usage ''n1'', sample_usage ''n2'']"
  have sums: "capacity cpu_of ?ns ''n1'' = 8000" "capacity mem_of ?ns ''n1'' = 16"
    "requested cpu_of ?ps = 1000" "requested mem_of ?ps = 1"
    "used_elsewhere cpu_of ?u ?ns ''n1'' + used_by cpu_of ?u ?ns ''n1'' = 2000"
    "used_elsewhere mem_of ?u ?ns ''n1'' + used_by mem_of ?u ?ns ''n1'' = 2"
    "sint (ResourceBufferCPUPerc sample_config) = 10" "sint (ResourceBufferMemoryPerc sample_config) = 10"
    by code_simp+
  show ?thesis
    using resource_check_exact [of ?ps ?ns "''n1''" sample_config ?u] unfolding sums
    by (simp add: exact_def fits_def in_int64_def trunc_div_def max_int64_def min_int64_def)
qed

text \<open>C19: the chain of the configuration approves a node only on evidence it has just read: the listed nodes
  all have metrics, the resource check over the listed nodes, pods and metrics allows it, and with
  the load strategy on, the node's load is below its threshold, as the agent on that node
  answered unless overridden, and so is the aggregate over the other nodes.\<close>

theorem approval_evidence:
  assumes "run_state (sd_ShouldScaleDown (buildScaleDownStrategy E cfg nodeLoad clusterLoad) name) s = (Inr True, t)"
  shows "\<exists>nodes pods usages cs.
    hist t = cs @ CListMetrics (Inr usages) # CListPods AllPods (Inr pods) # CListNodes (Inr nodes) # hist s \<and>
    (\<forall>n \<in> set nodes. usage_map usages (node_Name n) \<noteq> None) \<and>
    resource_check cfg nodes pods (usage_map usages) name \<and>
    (la_Enabled (LoadAverageStrategy cfg) \<longrightarrow>
      (\<exists>load aggregate.
         load < la_NodeThreshold (LoadAverageStrategy cfg) \<and>
         (nodeLoad = Some load \<or> nodeLoad = None \<and>
           answered (ld_utils (load_average_down_of cfg nodeLoad clusterLoad)) cs name load) \<and>
         aggregate < la_ScaleDownThreshold (LoadAverageStrategy cfg) \<and>
         (clusterLoad = Some aggregate \<or> clusterLoad = None \<and>
           (\<exists>s1. run_state (GetClusterAggregateLoad E (ld_utils (load_average_down_of cfg nodeLoad clusterLoad))
              (BuildAggregateExclusions cfg) name None (ParseClusterEvalMode (la_ClusterEval (LoadAverageStrategy cfg)))) s1 =
              (Inr aggregate, t)))))"
proof -
  let ?l = "load_average_down_of cfg nodeLoad clusterLoad"
  let ?e = "la_Enabled (LoadAverageStrategy cfg)"
  obtain s1 where ra: "run_state (ResourceAware_ShouldScaleDown E (resource_aware_of E cfg) name) s = (Inr True, s1)"
    and la: "if ?e then run_state (LoadAverageDown_ShouldScaleDown E ?l name) s1 = (Inr True, t) else t = s1"
    using assms
    by (auto simp: buildScaleDownStrategy_def MultiStrategy_def ResourceAwareScaleDown_def LoadAverageScaleDown_def
        split: if_splits prod.splits sum.splits)
  obtain nodes pods usages where h: "hist s1 = CListMetrics (Inr usages) # CListPods AllPods (Inr pods) # CListNodes (Inr nodes) # hist s"
    and check: "\<forall>n \<in> set nodes. usage_map usages (node_Name n) \<noteq> None" "resource_check cfg nodes pods (usage_map usages) name"
    using resource_approved [OF ra] by blast
  show ?thesis
  proof (cases ?e)
    case False
    then show ?thesis using la h check by (intro exI [where x = nodes] exI [where x = pods] exI [where x = usages] exI [where x = "[]"]) simp
  next
    case True
    then obtain load aggregate s2 where
      less: "load < la_NodeThreshold (LoadAverageStrategy cfg)" "aggregate < la_ScaleDownThreshold (LoadAverageStrategy cfg)"
      and load: "run_state (getNormalizedLoadForNode E ?l name) s1 = (Inr load, s2)"
      and aggregate: "run_state (getClusterAggregateLoad E ?l name) s2 = (Inr aggregate, t)"
      using load_approved [of E ?l name s1 t] la by auto
    obtain ds where ds: "hist s2 = ds @ hist s1" "nodeLoad = Some load \<or> nodeLoad = None \<and> answered (ld_utils ?l) ds name load"
      using node_load_source [OF load] by auto
    obtain es where es: "hist t = es @ hist s2" using aggregate_source [OF aggregate] by blast
    have "clusterLoad = Some aggregate \<or> clusterLoad = None \<and>
        (\<exists>s1. run_state (GetClusterAggregateLoad E (ld_utils ?l) (BuildAggregateExclusions cfg) name None
          (ParseClusterEvalMode (la_ClusterEval (LoadAverageStrategy cfg)))) s1 = (Inr aggregate, t))"
      using aggregate_source [OF aggregate] by (auto simp: exclusions_agree)
    moreover have "nodeLoad = Some load \<or> nodeLoad = None \<and> answered (ld_utils ?l) (es @ ds) name load"
      using ds(2) answered_more [of "ld_utils ?l" ds name load es "[]"] by auto
    moreover have "hist t = (es @ ds) @ CListMetrics (Inr usages) # CListPods AllPods (Inr pods) # CListNodes (Inr nodes) # hist s"
      using es ds(1) h by simp
    ultimately show ?thesis using less check by blast
  qed
qed

definition watching_config :: config where
  "watching_config = sample_config\<lparr>LoadAverageStrategy := (LoadAverageStrategy sample_config)\<lparr>la_Enabled := True\<rparr>\<rparr>"

theorem approval_evidence_witness:
  "\<exists>E t usages pods nodes. run_state (sd_ShouldScaleDown (buildScaleDownStrategy E watching_config None (Some (1 / 4))) ''n1'') init_sys =
     (Inr True, t) \<and> resource_check watching_config nodes pods (usage_map usages) ''n1''"
proof -
  let ?E = "store_env sample_cluster"
  let ?run = "run_state (sd_ShouldScaleDown (buildScaleDownStrategy ?E watching_config None (Some (1 / 4))) ''n1'') init_sys"
  have ok: "fst ?run = Inr True" by code_simp
  show ?thesis using approval_evidence [OF run_result [OF ok]] run_result [OF ok] by blast
qed

text \<open>C21: the chain of the configuration asks for a node only when fewer nodes than the minimum are active,
  or, with the load strategy on, when the aggregate load reaches the scale-up threshold. The node
  is a managed node of the listing on the way that is off, and none of the others that are off has
  been off longer; everything on the way only reads.\<close>

theorem scale_up_evidence:
  assumes "run_state (su_ShouldScaleUp (buildScaleUpStrategy E cfg override)) s = (Inr (name, True), t)"
  shows "\<exists>nodes n names s1 s2. reading s s1 \<and> reading s2 t \<and>
    run_state (shutdownNodeNames E cfg) s1 = (name # names, s2) \<and>
    hist s2 = CRand # CListNodes (Inr nodes) # hist s1 \<and>
    n \<in> set nodes \<and> node_Name n = name \<and> managed_node (managed_filter cfg) n \<and> off_since (tracker s) n \<noteq> None \<and>
    (\<forall>m \<in> set nodes. managed_node (managed_filter cfg) m \<and> off_since (tracker s) m \<noteq> None \<longrightarrow>
       the (off_since (tracker s) n) \<le> the (off_since (tracker s) m)) \<and>
    ((\<exists>active. run_state (listActiveNodes E cfg) s = (Inr active, s1) \<and> int (length active) < MinNodes cfg) \<or>
     la_Enabled (LoadAverageStrategy cfg) \<and>
       (\<exists>aggregate. la_ScaleUpThreshold (LoadAverageStrategy cfg) \<le> aggregate \<and>
         (override = Some aggregate \<or> override = None \<and>
            run_state (GetClusterAggregateLoad E (NewClusterLoadUtils (la_Namespace (LoadAverageStrategy cfg))
              (la_PodLabel (LoadAverageStrategy cfg)) (la_Port (LoadAverageStrategy cfg)) (load_timeout cfg))
              (BuildAggregateExclusions cfg) [] None (ParseClusterEvalMode (la_ClusterEval (LoadAverageStrategy cfg)))) s2 =
            (Inr aggregate, t))))"
proof -
  let ?e = "la_Enabled (LoadAverageStrategy cfg)"
  let ?agg = "\<lambda>aggregate s2. override = Some aggregate \<or> override = None \<and>
            run_state (GetClusterAggregateLoad E (NewClusterLoadUtils (la_Namespace (LoadAverageStrategy cfg))
              (la_PodLabel (LoadAverageStrategy cfg)) (la_Port (LoadAverageStrategy cfg)) (load_timeout cfg))
              (BuildAggregateExclusions cfg) [] None (ParseClusterEvalMode (la_ClusterEval (LoadAverageStrategy cfg)))) s2 =
            (Inr aggregate, t)"
  obtain names s1 s2 where names: "run_state (shutdownNodeNames E cfg) s1 = (name # names, s2)"
    and quiet: "reading s s1" "reading s2 t"
    and why: "(\<exists>active. run_state (listActiveNodes E cfg) s = (Inr active, s1) \<and> int (length active) < MinNodes cfg) \<or>
      ?e \<and> (\<exists>aggregate. la_ScaleUpThreshold (LoadAverageStrategy cfg) \<le> aggregate \<and> ?agg aggregate s2)"
    using scale_up_stages [OF assms] by blast
  obtain nodes n where "hist s2 = CRand # CListNodes (Inr nodes) # hist s1" "n \<in> set nodes" "node_Name n = name"
    "managed_node (managed_filter cfg) n" "off_since (tracker s1) n \<noteq> None"
    "\<forall>m \<in> set nodes. managed_node (managed_filter cfg) m \<and> off_since (tracker s1) m \<noteq> None \<longrightarrow>
       the (off_since (tracker s1) n) \<le> the (off_since (tracker s1) m)"
    using first_shutdown_name [OF names] by blast
  moreover have "tracker s1 = tracker s" using quiet(1) by (simp add: reading_def same_tracker_def)
  ultimately show ?thesis using names quiet why by metis
qed

text \<open>Two nodes that are off, of which the second has been so for longer, and none in service.\<close>

definition dark_cluster :: cluster where
  "dark_cluster = sample_cluster\<lparr>cl_nodes := [off_node ''n1'' ''1970-01-01T00:00:10Z'', off_node ''n2'' ''unknown'']\<rparr>"

theorem scale_up_evidence_witness:
  "\<exists>n nodes. node_Name n = ''n2'' \<and> n \<in> set nodes \<and>
     run_state (su_ShouldScaleUp (buildScaleUpStrategy (store_env dark_cluster) sample_config None)) init_sys =
       (Inr (node_Name n, True), snd (run_state (su_ShouldScaleUp (buildScaleUpStrategy (store_env dark_cluster) sample_config None)) init_sys)) \<and>
     list_all (\<lambda>m. the (off_since NewNodeStateTracker n) \<le> the (off_since NewNodeStateTracker m))
       (filter (\<lambda>m. managed_node (managed_filter sample_config) m \<and> off_since NewNodeStateTracker m \<noteq> None) nodes)"
proof -
  let ?run = "run_state (su_ShouldScaleUp (buildScaleUpStrategy (store_env dark_cluster) sample_config None)) init_sys"
  have ok: "fst ?run = Inr (''n2'', True)" by code_simp
  have "tracker init_sys = NewNodeStateTracker" by (simp add: init_sys_def)
  with scale_up_evidence [OF run_result [OF ok]] obtain n nodes where
    "n \<in> set nodes" "node_Name n = ''n2''"
    "\<forall>m \<in> set nodes. managed_node (managed_filter sample_config) m \<and> off_since NewNodeStateTracker m \<noteq> None \<longrightarrow>
       the (off_since NewNodeStateTracker n) \<le> the (off_since NewNodeStateTracker m)"
    by auto
  then show ?thesis using run_result [OF ok] by (auto simp: list_all_iff intro!: exI [where x = n] exI [where x = nodes])
qed

end
