(* ===== verification/Metrics_Truth.thy ===== *)
theory Metrics_Truth
  imports Reconcile_Safety
begin

text \<open>
  What the exported counters say about the run: they move exactly with the calls of the shutdown
  controller in the log. The frame relation \<open>metered\<close> is carried through every program of the
  reconciler, as \<open>keeps_safe\<close> is.
\<close>

section \<open>Counters and calls\<close>

fun is_accepted_shutdown :: "call \<Rightarrow> bool" where
  "is_accepted_shutdown (CShutdown _ None) = True"
| "is_accepted_shutdown _ = False"

abbreviation shutdown_calls :: "sys \<Rightarrow> nat" where
  "shutdown_calls s \<equiv> length (filter is_shutdown (hist s))"

abbreviation accepted_shutdowns :: "sys \<Rightarrow> nat" where
  "accepted_shutdowns s \<equiv> length (filter is_accepted_shutdown (hist s))"

lemma accepted_shutdowns_le: "length (filter is_accepted_shutdown cs) \<le> length (filter is_shutdown cs)"
proof (induction cs)
  case (Cons c cs)
  then show ?case by (cases c rule: is_accepted_shutdown.cases) auto
qed simp

definition metered :: "sys \<Rightarrow> sys \<Rightarrow> bool" where
  "metered s t \<longleftrightarrow>
     ShutdownAttempts (counters t) + shutdown_calls s = ShutdownAttempts (counters s) + shutdown_calls t \<and>
     ShutdownSuccesses (counters t) + accepted_shutdowns s =
       ShutdownSuccesses (counters s) + accepted_shutdowns t \<and>
     ScaleDowns (counters t) + accepted_shutdowns s = ScaleDowns (counters s) + accepted_shutdowns t \<and>
     EvictionFailures (counters t) = EvictionFailures (counters s) \<and>
     PowerOnAttempts (counters t) = PowerOnAttempts (counters s) \<and>
     PowerOnSuccesses (counters t) = PowerOnSuccesses (counters s)"

interpretation metered: frame_rel metered
  by unfold_locales (auto simp: metered_def)

lemmas [frame_intro] =
  metered.holds_return metered.holds_bind metered.holds_when metered.holds_for_each

lemma accepted_is_shutdown: "is_accepted_shutdown c \<Longrightarrow> is_shutdown c"
  by (cases c) auto

lemma metered_same_counters:
  assumes "logs P s t" and "\<And>c. P c \<Longrightarrow> \<not> is_shutdown c" and "counters t = counters s"
  shows "metered s t"
proof -
  obtain cs where cs: "hist t = cs @ hist s" "\<forall>c \<in> set cs. \<not> is_shutdown c"
    using assms(1,2) by (auto simp: logs_def list_all_iff)
  then have "\<forall>c \<in> set cs. \<not> is_accepted_shutdown c" using accepted_is_shutdown by blast
  then have "filter is_shutdown cs = []" "filter is_accepted_shutdown cs = []"
    using cs(2) by (simp_all add: filter_empty_conv)
  then show ?thesis using cs(1) assms(3) by (simp add: metered_def)
qed

lemma metered_perform: "(\<And>r. \<not> is_shutdown (event r)) \<Longrightarrow> state_io_rel metered (perform answer event)"
  by (rule state_io_relI, rule metered_same_counters [where P = "\<lambda>c. \<not> is_shutdown c"])
    (auto simp: logs_def intro: exI [where x = "[c]" for c])

lemma metered_write_api [frame_intro]:
  "state_io_rel metered (Now E)"
  "state_io_rel metered (ListNodes E)"
  "state_io_rel metered (GetNode E name)"
  "state_io_rel metered (UpdateNode E n)"
  "state_io_rel metered (PatchNode E name p)"
  "state_io_rel metered (PatchRaw E name body)"
  "state_io_rel metered (Evict E ns name uid)"
  unfolding api_defs by (auto intro!: metered_perform)

lemma metered_reading: "state_io_rel reading m \<Longrightarrow> state_io_rel metered m"
  by (rule state_io_relI, drule (1) state_io_rel_run)
    (auto simp: reading_def intro!: metered_same_counters [OF _ not_shutdown(1)])

lemma metered_acting: "state_io_rel acting m \<Longrightarrow> state_io_rel metered m"
  by (rule state_io_relI, drule (1) state_io_rel_run)
    (auto simp: acting_def intro!: metered_same_counters [OF _ not_shutdown(4)])

lemma metered_state [frame_intro]:
  "state_io_rel metered get_tracker"
  "state_io_rel metered (on_tracker f)"
  "state_io_rel metered (log_call (CPowerOn n m r))"
  "state_io_rel metered (on_counters (\<lambda>m. m\<lparr>Evaluations := Evaluations m + 1\<rparr>))"
  "state_io_rel metered (on_counters (\<lambda>m. m\<lparr>PoweredOffNodes := (PoweredOffNodes m)(name \<mapsto> v)\<rparr>))"
  by (auto simp: state_io_rel_def metered_def)

lemma metered_helpers [frame_intro]:
  "client_go E \<Longrightarrow> state_io_rel metered fn \<Longrightarrow> state_io_rel metered (env_OnError E retriable fn)"
  "client_go E \<Longrightarrow> (\<And>a. state_io_rel metered (cond a)) \<Longrightarrow> state_io_rel metered (env_Poll E cond acc)"
  by (auto intro!: retry_frame poll_frame metered.frame_rel_axioms simp: metered_def)

lemmas metered_queries = metered_reading [OF reading_api(3)] metered_reading [OF reading_api(4)]
  metered_reading [OF reading_api(7)] metered_reading [OF query_reading(2)] metered_reading [OF list_reading(1)] metered_reading [OF list_reading(4)]
  metered_reading [OF recently_off_reading] metered_reading [OF volumes_gone_reading]
  metered_reading [OF PickRotation_reading]

section \<open>The programs\<close>

lemma drain_pods_metered [frame_intro]: "state_io_rel metered (drain_pods E name pods accepted remaining)"
  by (induction pods arbitrary: accepted remaining) (auto intro!: frame_intro)

lemma restoring_metered [frame_intro]:
  "client_go E \<Longrightarrow> state_io_rel metered (CordonAndDrain E cfg name)"
  "client_go E \<Longrightarrow> state_io_rel metered (restoreScheduling E name)"
  "client_go E \<Longrightarrow> state_io_rel metered (UncordonNode E name)"
  "state_io_rel metered (ClearPoweredOffAnnotation E name)"
  "state_io_rel metered (AnnotatePoweredOffNode E cfg name)"
  "client_go E \<Longrightarrow> state_io_rel metered (RecoverUnexpectedlyBootedNodes E cfg dryRun)"
  "state_io_rel metered (do_MarkGlobalShutdown E)"
  "state_io_rel metered (do_MarkShutdown E name)"
  "state_io_rel metered (do_MarkBooted E name)"
  "state_io_rel metered (clear_recovered n)"
  unfolding CordonAndDrain_def cordon_body_def drain_poll_def restoreScheduling_def UncordonNode_def
    uncordon_body_def ClearPoweredOffAnnotation_def AnnotatePoweredOffNode_def RecoverUnexpectedlyBootedNodes_def
    recover_node_def recover_body_def do_MarkGlobalShutdown_def do_MarkShutdown_def do_MarkBooted_def
    clear_recovered_def
  by (intro frame_intro metered_queries; simp)+

text \<open>The attempt is counted right before the call, the success right after it.\<close>

lemma counted_shutdown:
  assumes "state_io_rel metered (shutdowner name)"
    and "\<And>e. state_io_rel metered (failed e)"
  shows "state_io_rel metered (do {
      _ \<leftarrow> on_counters (\<lambda>m. m\<lparr>ShutdownAttempts := ShutdownAttempts m + 1\<rparr>);
      s \<leftarrow> call_Shutdown shutdowner name;
      case s of Some e \<Rightarrow> failed e | None \<Rightarrow> do { _ \<leftarrow> shutdown_succeeded E name; ret True } })"
proof (rule state_io_relI)
  fix b s t
  let ?up = "\<lambda>s. s\<lparr>counters := (\<lambda>m. m\<lparr>ShutdownAttempts := ShutdownAttempts m + 1\<rparr>) (counters s)\<rparr>"
  assume run: "run_state (do {
      _ \<leftarrow> on_counters (\<lambda>m. m\<lparr>ShutdownAttempts := ShutdownAttempts m + 1\<rparr>);
      s \<leftarrow> call_Shutdown shutdowner name;
      case s of Some e \<Rightarrow> failed e | None \<Rightarrow> do { _ \<leftarrow> shutdown_succeeded E name; ret True } }) s = (b, t)"
  obtain x s1 where act: "run_state (shutdowner name) (?up s) = (x, s1)" by fastforce
  have m1: "metered (?up s) s1" using state_io_rel_run [OF assms(1) act] .
  let ?s2 = "s1\<lparr>hist := CShutdown name x # hist s1\<rparr>"
  show "metered s t"
  proof (cases x)
    case None
    have "run_state (shutdown_succeeded E name) ?s2 = ((), t)"
      using run act None by (auto simp: call_Shutdown_def split: prod.splits)
    then have "counters t = (counters s1)\<lparr>ScaleDowns := ScaleDowns (counters s1) + 1,
        ShutdownSuccesses := ShutdownSuccesses (counters s1) + 1,
        PoweredOffNodes := (PoweredOffNodes (counters s1))(name \<mapsto> 1)\<rparr> \<and>
      (\<exists>t1 t2. hist t = CNow t2 # CNow t1 # CShutdown name None # hist s1)"
      using None by (auto simp: shutdown_succeeded_def do_MarkGlobalShutdown_def do_MarkShutdown_def Now_def)
    then show ?thesis using m1 by (auto simp: metered_def)
  next
    case (Some e)
    then have "run_state (failed e) ?s2 = (b, t)" using run act by (simp add: call_Shutdown_def)
    then have "metered ?s2 t" by (rule state_io_rel_run [OF assms(2)])
    then show ?thesis using m1 Some by (simp add: metered_def)
  qed
qed

context reconciler_parts begin

lemma PowerOn_metered [frame_intro]:
  assumes "client_go E"
  shows "state_io_rel metered (PowerOnAndMarkBooted E w cfg (r_PowerOner r) dryRun)"
proof -
  have "state_io_rel metered (r_PowerOner r name mac)" for name mac
    using metered_acting [OF power_oner.only_acts [of "(name, mac)"]] by simp
  then show ?thesis unfolding PowerOnAndMarkBooted_def call_PowerOn_def
    by (intro frame_intro assms)
qed

lemma scale_down_metered [frame_intro]:
  "client_go E \<Longrightarrow> state_io_rel metered (scale_down_node E r name)"
  unfolding scale_down_node_def retire_node_def
  by (intro frame_intro counted_shutdown metered_reading [OF down.only_reads] metered_acting [OF shutdowner.only_acts])

lemma Reconcile_metered:
  "client_go E \<Longrightarrow> state_io_rel metered (Reconcile E r)"
  unfolding Reconcile_def reconcile_decide_def reconcile_loop_def MaybeScaleDown_def MaybeScaleUp_def
    MaybeRotate_def rotate_node_def ForcePowerOnAll_def force_node_def
  by (intro frame_intro metered_queries metered_reading [OF up.only_reads])

lemma run_loop_metered: "client_go E \<Longrightarrow> state_io_rel metered (run_loop n E r)"
  by (induction n) (auto intro!: frame_intro Reconcile_metered metered_reading [OF reading_api(2)] split: go.split)

end

lemma main_run_metered:
  assumes "client_go E"
  shows "state_io_rel metered (main_run n E decoded dryRunFlag opts)"
proof -
  have "state_io_rel metered (RestorePoweredOffState E cfg)" for cfg
    unfolding RestorePoweredOffState_def by (intro frame_intro metered_queries)
  then show ?thesis unfolding main_run_def controller_run_def NewReconciler_bind
    by (intro frame_intro built.run_loop_metered assms metered_reading [OF reading_api(2)])
qed

section \<open>The property\<close>

text \<open>C18: in every run of the program the exported shutdown counters are exactly the calls of the shutdown
  controller: the attempts count all of them, the successes and the scale-downs each count those
  that reported success, and so the successes never exceed the attempts. The counters of failed
  evictions and of power-ons stay at zero whatever happens.\<close>

theorem counters_count_shutdowns:
  assumes "client_go E" and "run_state (main_run n E decoded dryRunFlag opts) init_sys = (x, t)"
  shows "ShutdownAttempts (counters t) = length (filter is_shutdown (hist t)) \<and>
    ShutdownSuccesses (counters t) = length (filter is_accepted_shutdown (hist t)) \<and>
    ScaleDowns (counters t) = ShutdownSuccesses (counters t) \<and>
    ShutdownSuccesses (counters t) \<le> ShutdownAttempts (counters t) \<and>
    EvictionFailures (counters t) = 0 \<and> PowerOnAttempts (counters t) = 0 \<and> PowerOnSuccesses (counters t) = 0"
proof -
  have "metered init_sys t" by (rule state_io_rel_run [OF main_run_metered [OF assms(1)] assms(2)])
  then show ?thesis
    using accepted_shutdowns_le [of "hist t"] by (simp add: metered_def init_sys_def init_metrics_def)
qed

theorem counters_count_shutdowns_witness:
  "ShutdownAttempts (counters (snd (run_state (main_run 3 (store_env sample_cluster) (Inr sample_config) False []) init_sys))) =
   length (filter is_shutdown (hist (snd (run_state (main_run 3 (store_env sample_cluster) (Inr sample_config) False []) init_sys))))"
  using counters_count_shutdowns [OF store_env_client_go prod.collapse [symmetric]] by blast

end
