(* ===== verification/Shutdown_Rate.thy ===== *)
theory Shutdown_Rate
  imports Metrics_Truth
begin

text \<open>
  How often machines are shut down: over any number of loops the successful shutdowns are spaced
  by the cooldown, so their number is bounded by the time that has passed. The count is read off
  the counter of successes, which \<open>Metrics_Truth\<close> ties to the calls in the log.
\<close>

section \<open>Programs that count no success\<close>

abbreviation successes :: "sys \<Rightarrow> nat" where
  "successes s \<equiv> ShutdownSuccesses (counters s)"

definition steady :: "sys \<Rightarrow> sys \<Rightarrow> bool" where
  "steady s t \<longleftrightarrow> successes t = successes s"

interpretation steady: frame_rel steady
  by unfold_locales (simp_all add: steady_def)

lemmas [frame_intro] = steady.holds_return steady.holds_bind steady.holds_when steady.holds_for_each

lemma accepted_unchanged:
  assumes "logs (\<lambda>c. \<not> is_shutdown c) s t"
  shows "accepted_shutdowns t = accepted_shutdowns s"
proof -
  obtain cs where cs: "hist t = cs @ hist s" "\<forall>c \<in> set cs. \<not> is_shutdown c"
    using assms by (auto simp: logs_def list_all_iff)
  then have "filter is_accepted_shutdown cs = []"
    using accepted_is_shutdown by (auto simp: filter_empty_conv)
  then show ?thesis using cs(1) by simp
qed

lemma steady_intro:
  assumes "state_io_rel metered m" and "state_io_rel (logs (\<lambda>c. \<not> is_shutdown c)) m"
  shows "state_io_rel steady m"
proof (rule state_io_relI)
  fix x s t assume "run_state m s = (x, t)"
  with assms have "metered s t" "accepted_shutdowns t = accepted_shutdowns s"
    by (auto dest: state_io_rel_run intro: accepted_unchanged)
  then show "steady s t" by (simp add: metered_def steady_def)
qed

lemma steady_reading: "state_io_rel reading m \<Longrightarrow> state_io_rel steady m"
  by (auto simp: state_io_rel_def reading_def steady_def)

lemma steady_acting: "state_io_rel acting m \<Longrightarrow> state_io_rel steady m"
  by (auto simp: state_io_rel_def acting_def steady_def)

lemma steady_marks [frame_intro]:
  "client_go E \<Longrightarrow> state_io_rel steady (restoreScheduling E name)"
  "state_io_rel steady (ClearPoweredOffAnnotation E name)"
  "client_go E \<Longrightarrow> state_io_rel steady (CordonAndDrain E cfg name)"
  "state_io_rel steady (AnnotatePoweredOffNode E cfg name)"
  "client_go E \<Longrightarrow> state_io_rel steady (RecoverUnexpectedlyBootedNodes E cfg dryRun)"
  by (intro steady_intro frame_intro recover_logs; simp add: not_shutdown)+

lemma steady_state [frame_intro]:
  "state_io_rel steady get_tracker"
  "state_io_rel steady (on_tracker f)"
  "state_io_rel steady (log_call c)"
  "state_io_rel steady (on_counters (\<lambda>m. m\<lparr>Evaluations := Evaluations m + 1\<rparr>))"
  "state_io_rel steady (on_counters (\<lambda>m. m\<lparr>ShutdownAttempts := ShutdownAttempts m + 1\<rparr>))"
  "state_io_rel steady (on_counters (\<lambda>m. m\<lparr>PoweredOffNodes := (PoweredOffNodes m)(name \<mapsto> v)\<rparr>))"
  by (auto simp: state_io_rel_def steady_def)

section \<open>At most one success in a loop\<close>

definition adds_at_most :: "nat \<Rightarrow> 'a io \<Rightarrow> bool" where
  "adds_at_most k m \<longleftrightarrow> state_io_rel (\<lambda>s t. successes t \<le> successes s + k) m"

lemma adds_steady: "state_io_rel steady m \<Longrightarrow> adds_at_most k m"
  by (auto simp: adds_at_most_def state_io_rel_def steady_def)

lemma adds_bind:
  assumes "adds_at_most j m" and "\<And>x. adds_at_most k (f x)"
  shows "adds_at_most (j + k) (State_Monad.bind m f)"
proof -
  have "successes (snd (run_state (State_Monad.bind m f) s)) \<le> successes s + (j + k)" for s
  proof -
    obtain x s' where m: "run_state m s = (x, s')" by fastforce
    have "successes s' \<le> successes s + j"
      using state_io_rel_run [OF assms(1) [unfolded adds_at_most_def] m] .
    moreover have "successes (snd (run_state (f x) s')) \<le> successes s' + k"
      using assms(2) by (auto simp: adds_at_most_def state_io_rel_def)
    ultimately show ?thesis using m by simp
  qed
  then show ?thesis by (simp add: adds_at_most_def state_io_rel_def)
qed

lemmas adds_steady_bind = adds_bind [where j = 0, OF adds_steady, unfolded add_0]
lemmas adds_bind_steady = adds_bind [where k = 0, OF _ adds_steady, unfolded add_0_right]

lemmas adds_cases = frame_cases [where R = "\<lambda>s t. successes t \<le> successes s + k" for k, folded adds_at_most_def]

lemma adds_shutdown_succeeded: "adds_at_most 1 (shutdown_succeeded E name)"
  by (auto simp: adds_at_most_def state_io_rel_def shutdown_succeeded_def do_MarkGlobalShutdown_def
      do_MarkShutdown_def Now_def)

lemmas steady_queries = steady_reading [OF reading_api(1)] steady_reading [OF reading_api(2)]
  steady_reading [OF reading_api(6)] steady_reading [OF query_reading(2)] steady_reading [OF list_reading(1)]
  steady_reading [OF list_reading(4)] steady_reading [OF PickRotation_reading]

context reconciler_parts begin

lemma PowerOn_steady [frame_intro]:
  "client_go E \<Longrightarrow> state_io_rel steady (PowerOnAndMarkBooted E w cfg (r_PowerOner r) dryRun)"
  by (rule steady_intro) (auto intro!: PowerOn_metered PowerOn_logs simp: not_shutdown)

lemma scale_up_steady [frame_intro]:
  "client_go E \<Longrightarrow> state_io_rel steady (MaybeScaleUp E r)"
  "client_go E \<Longrightarrow> state_io_rel steady (MaybeRotate E r)"
  "client_go E \<Longrightarrow> state_io_rel steady (ForcePowerOnAll E cfg (r_PowerOner r) dryRun)"
  unfolding MaybeScaleUp_def MaybeRotate_def rotate_node_def ForcePowerOnAll_def force_node_def
  by (intro frame_intro steady_queries steady_reading [OF up.only_reads]; assumption)+

lemma retire_node_adds:
  assumes "client_go E" shows "adds_at_most 1 (retire_node E r name)"
proof -
  have shut: "state_io_rel steady (call_Shutdown (r_Shutdowner r) name)"
    unfolding call_Shutdown_def by (intro frame_intro steady_acting [OF shutdowner.only_acts])
  show ?thesis unfolding retire_node_def
    by (intro adds_steady_bind adds_bind_steady adds_cases adds_shutdown_succeeded shut
        adds_steady [where k = 1] frame_intro assms)
qed

lemma reconcile_loop_adds:
  assumes "client_go E" shows "adds_at_most 1 (reconcile_loop E r)"
proof -
  have down: "adds_at_most 1 (MaybeScaleDown E r eligible)" for eligible
    unfolding MaybeScaleDown_def scale_down_node_def
    by (intro adds_steady_bind adds_bind_steady adds_cases retire_node_adds steady_reading [OF down.only_reads]
        adds_steady [where k = 1] frame_intro assms)
  show ?thesis unfolding reconcile_loop_def
    by (intro adds_steady_bind adds_bind_steady adds_cases down steady_queries adds_steady [where k = 1]
        frame_intro assms)
qed

end

section \<open>A success moves the time of the last power action\<close>

definition paced :: "sys \<Rightarrow> sys \<Rightarrow> bool" where
  "paced s t \<longleftrightarrow> last_moves s t \<and> successes s \<le> successes t \<and>
     (successes s < successes t \<longrightarrow> clock_floor (hist s) \<le> LastShutdownTime (tracker t))"

interpretation paced: frame_rel paced
  by unfold_locales (auto simp: paced_def last_moves_def clock_le_def)

lemmas [frame_intro] = paced.holds_return paced.holds_bind paced.holds_when paced.holds_for_each

lemma paced_intro: "state_io_rel last_moves m \<Longrightarrow> state_io_rel steady m \<Longrightarrow> state_io_rel paced m"
  by (simp add: state_io_rel_def paced_def steady_def)

lemma paced_reading: "state_io_rel reading m \<Longrightarrow> state_io_rel paced m"
  by (intro paced_intro last_moves_same same_last_reading steady_reading)

lemma paced_shutdown_succeeded: "state_io_rel paced (shutdown_succeeded E name)"
  by (auto simp: state_io_rel_def paced_def last_moves_def clock_le_def shutdown_succeeded_def
      do_MarkGlobalShutdown_def do_MarkShutdown_def Now_def)

context reconciler_parts begin

lemma retire_node_paced:
  assumes "client_go E" shows "state_io_rel paced (retire_node E r name)"
proof -
  have shut: "state_io_rel paced (call_Shutdown (r_Shutdowner r) name)"
    unfolding call_Shutdown_def
    by (intro paced_intro last_moves_same same_last_intro frame_intro steady_acting [OF shutdowner.only_acts]
        shutdowner.keeps_tracker shutdowner.keeps_clock)
  have parts: "state_io_rel paced (CordonAndDrain E (r_Cfg r) name)"
    "state_io_rel paced (AnnotatePoweredOffNode E (r_Cfg r) name)"
    "state_io_rel paced (restoreScheduling E name)" "state_io_rel paced (ClearPoweredOffAnnotation E name)"
    "state_io_rel paced (on_counters (\<lambda>m. m\<lparr>ShutdownAttempts := ShutdownAttempts m + 1\<rparr>))"
    by (intro paced_intro last_moves_same frame_intro assms)+
  show ?thesis unfolding retire_node_def
    by (intro frame_intro paced_shutdown_succeeded shut parts)
qed

lemma reconcile_loop_paced:
  assumes "client_go E" shows "state_io_rel paced (reconcile_loop E r)"
proof -
  have queries: "state_io_rel paced (su_ShouldScaleUp (r_ScaleUpStrategy r))"
    "state_io_rel paced (sd_ShouldScaleDown (r_ScaleDownStrategy r) name)"
    "state_io_rel paced (Now E)" "state_io_rel paced (GetNode E name)"
    "state_io_rel paced get_tracker" "state_io_rel paced (ListManagedNodes E f)"
    "state_io_rel paced (listAllNodes E cfg)" "state_io_rel paced (filterEligibleNodes E cfg nodes)"
    "state_io_rel paced (PickRotationPoweroffCandidate E r eligible)" for name f cfg nodes eligible
    by (intro paced_reading up.only_reads down.only_reads frame_intro)+
  have marks: "state_io_rel paced (on_tracker (ClearPoweredOff name))"
    "state_io_rel paced (on_counters (\<lambda>m. m\<lparr>Evaluations := Evaluations m + 1\<rparr>))"
    "state_io_rel paced (on_counters (\<lambda>m. m\<lparr>PoweredOffNodes := (PoweredOffNodes m)(name \<mapsto> v)\<rparr>))"
    "state_io_rel paced (CordonAndDrain E (r_Cfg r) name)"
    "state_io_rel paced (PowerOnAndMarkBooted E w (r_Cfg r) (r_PowerOner r) (DryRun (r_Cfg r)))" for name v w
    by (intro paced_intro last_moves_same frame_intro assms | intro paced_intro frame_intro assms)+
  show ?thesis
    unfolding reconcile_loop_def MaybeScaleUp_def MaybeScaleDown_def scale_down_node_def MaybeRotate_def
      rotate_node_def
    by (intro frame_intro queries marks retire_node_paced assms)
qed

lemma ForcePowerOnAll_paced:
  assumes "client_go E" shows "state_io_rel paced (ForcePowerOnAll E cfg (r_PowerOner r) dryRun)"
proof -
  have node: "state_io_rel paced (PowerOnAndMarkBooted E w cfg (r_PowerOner r) dryRun)" for w
    by (intro paced_intro PowerOn_last PowerOn_steady assms)
  have "state_io_rel paced (ListManagedNodes E f)" "state_io_rel paced (Now E)" "state_io_rel paced get_tracker" for f
    by (intro paced_reading frame_intro)+
  then show ?thesis unfolding ForcePowerOnAll_def force_node_def by (intro frame_intro node)
qed

lemma reconcile_decide_adds:
  "client_go E \<Longrightarrow> adds_at_most 1 (reconcile_decide E r now)"
  unfolding reconcile_decide_def
  by (intro adds_cases adds_steady_bind reconcile_loop_adds adds_steady [where k = 1] frame_intro)

lemma reconcile_decide_forced:
  assumes "client_go E" and "run_state (reconcile_decide E r now) s = (x, t)" and "ForcePowerOnAllNodes (r_Cfg r)"
  shows "successes t = successes s"
proof -
  have "state_io_rel steady (do { _ \<leftarrow> ForcePowerOnAll E (r_Cfg r) (r_PowerOner r) (DryRun (r_Cfg r)); ret (Ret None) })"
    by (intro frame_intro assms(1))
  then show ?thesis using assms(2,3) by (auto simp: reconcile_decide_def steady_def dest: state_io_rel_run)
qed

text \<open>
  One loop: at most one more success, and then the time of the last power action has moved by at
  least the cooldown, to an instant no earlier than the loop's first reading.
\<close>

lemma Reconcile_pace:
  assumes "client_go E" and "run_state (Reconcile E r) s = (x, t)" and "0 \<le> Cooldown (r_Cfg r)"
    and "LastShutdownTime (tracker s) \<le> clock_floor (hist s)"
  shows "LastShutdownTime (tracker t) \<le> clock_floor (hist t)"
    and "successes t = successes s \<and> LastShutdownTime (tracker s) \<le> LastShutdownTime (tracker t) \<or>
      successes t = successes s + 1 \<and>
      LastShutdownTime (tracker s) + Cooldown (r_Cfg r) \<le> LastShutdownTime (tracker t) \<and>
      fst (run_state (Now E) s) \<le> LastShutdownTime (tracker t)"
proof -
  obtain now s0 where now: "run_state (Now E) s = (now, s0)" by fastforce
  obtain stop s' where pre: "run_state (reconcile_prefix E (r_Cfg r)) s0 = (stop, s')"
    and out: "s' = t \<and> x \<noteq> Panic \<or> run_state (reconcile_decide E r now) s' = (x, t)"
    by (rule Reconcile_prefix [OF assms(2) now])
  have quiet: "state_io_rel steady (reconcile_prefix E (r_Cfg r))" "state_io_rel same_last (reconcile_prefix E (r_Cfg r))"
    unfolding reconcile_prefix_def clear_recovered_def
    by (intro frame_intro steady_queries same_last_reading assms(1))+
  have s': "successes s' = successes s" "LastShutdownTime (tracker s') = LastShutdownTime (tracker s)"
      "now \<le> clock_floor (hist s')" "clock_floor (hist s) \<le> now"
    using state_io_rel_run [OF quiet(1) pre] state_io_rel_run [OF quiet(2) pre] run_Now [OF now] now
    by (auto simp: steady_def same_last_def clock_le_def Now_def)
  have dec: "state_io_rel paced (reconcile_decide E r now)"
    unfolding reconcile_decide_def
    by (intro frame_intro reconcile_loop_paced ForcePowerOnAll_paced paced_reading [OF reading_get_tracker] assms(1))
  have le: "paced s' t"
    using out state_io_rel_run [OF dec] by (auto simp: paced.R_refl)
  have one: "successes t \<le> successes s' + 1"
    using out state_io_rel_run [OF reconcile_decide_adds [OF assms(1), unfolded adds_at_most_def]] by auto
  show "LastShutdownTime (tracker t) \<le> clock_floor (hist t)"
    using le s' assms(4) by (auto simp: paced_def last_moves_def clock_le_def)
  show "successes t = successes s \<and> LastShutdownTime (tracker s) \<le> LastShutdownTime (tracker t) \<or>
      successes t = successes s + 1 \<and>
      LastShutdownTime (tracker s) + Cooldown (r_Cfg r) \<le> LastShutdownTime (tracker t) \<and>
      fst (run_state (Now E) s) \<le> LastShutdownTime (tracker t)"
  proof (cases "successes t = successes s'")
    case True
    then show ?thesis using le s' assms(4) by (auto simp: paced_def last_moves_def)
  next
    case False
    then have grew: "successes t = successes s' + 1" using le one by (simp add: paced_def)
    then have decide: "run_state (reconcile_decide E r now) s' = (x, t)" using out by auto
    have "now \<le> LastShutdownTime (tracker t)" using le grew s' by (simp add: paced_def)
    moreover have "\<not> IsGlobalCooldownActive (tracker s') now (Cooldown (r_Cfg r))"
      using reconcile_decide_cooldown [OF decide] reconcile_decide_forced [OF assms(1) decide] grew
      by (cases "ForcePowerOnAllNodes (r_Cfg r)") auto
    then have "LastShutdownTime (tracker s) + Cooldown (r_Cfg r) \<le> now"
      using s'(2) time_Sub_ge_imp [OF assms(3)] by (auto simp: IsGlobalCooldownActive_def)
    ultimately show ?thesis using grew s' now by simp
  qed
qed

text \<open>
  Any number of loops: the successes move the time of the last power action by the cooldown each,
  and all but the first of them lie after the start.
\<close>

lemma run_loop_clock: "client_go E \<Longrightarrow> state_io_rel clock_le (run_loop n E r)"
  by (induction n) (auto intro!: frame_intro Reconcile_clock split: go.split)

lemma run_loop_pace:
  assumes "client_go E" and "0 \<le> Cooldown (r_Cfg r)"
    and "run_state (run_loop n E r) s = (x, t)" and "LastShutdownTime (tracker s) \<le> clock_floor (hist s)"
  shows "LastShutdownTime (tracker t) \<le> clock_floor (hist t) \<and> successes s \<le> successes t \<and>
    LastShutdownTime (tracker s) + int (successes t - successes s) * Cooldown (r_Cfg r) \<le> LastShutdownTime (tracker t) \<and>
    (successes s < successes t \<longrightarrow>
       clock_floor (hist s) + (int (successes t - successes s) - 1) * Cooldown (r_Cfg r) \<le> LastShutdownTime (tracker t))"
  using assms(3,4)
proof (induction n arbitrary: s)
  case 0
  then show ?case by simp
next
  case (Suc n)
  obtain y s1 where rec: "run_state (Reconcile E r) s = (y, s1)" by fastforce
  note one = Reconcile_pace [OF assms(1) rec assms(2) Suc.prems(2)]
  have clock: "clock_floor (hist s) \<le> clock_floor (hist s1)"
    using state_io_rel_run [OF Reconcile_clock [OF assms(1)] rec] by (simp add: clock_le_def)
  have first: "clock_floor (hist s) \<le> fst (run_state (Now E) s)"
    by (simp add: Now_def)
  show ?case
  proof (cases y)
    case Panic
    then have "t = s1" using Suc.prems(1) rec by simp
    then show ?thesis using one first by auto
  next
    case (Ret err)
    let ?s2 = "snd (run_state (Sleep (PollInterval (r_Cfg r))) s1)"
    have s2: "successes ?s2 = successes s1" "tracker ?s2 = tracker s1"
        "clock_floor (hist s1) \<le> clock_floor (hist ?s2)"
      by (simp_all add: Sleep_def)
    have "run_state (run_loop n E r) ?s2 = (x, t)"
      using Suc.prems(1) rec Ret by (simp split: prod.splits)
    from Suc.IH [OF this] have rest:
      "LastShutdownTime (tracker t) \<le> clock_floor (hist t)" "successes s1 \<le> successes t"
      "LastShutdownTime (tracker s1) + int (successes t - successes s1) * Cooldown (r_Cfg r) \<le> LastShutdownTime (tracker t)"
      "successes s1 < successes t \<Longrightarrow>
       clock_floor (hist s1) + (int (successes t - successes s1) - 1) * Cooldown (r_Cfg r) \<le> LastShutdownTime (tracker t)"
      using s2 one(1) by auto
    show ?thesis
    proof (cases "successes s1 = successes s")
      case True
      then have "LastShutdownTime (tracker s) \<le> LastShutdownTime (tracker s1)" using one(2) by simp
      then show ?thesis using rest clock True by auto
    next
      case False
      then have grew: "successes s1 = successes s + 1"
        "LastShutdownTime (tracker s) + Cooldown (r_Cfg r) \<le> LastShutdownTime (tracker s1)"
        "clock_floor (hist s) \<le> LastShutdownTime (tracker s1)"
        using one(2) first by auto
      have count: "int (successes t - successes s) = int (successes t - successes s1) + 1"
        using rest(2) grew(1) by simp
      show ?thesis using rest(1-3) grew unfolding count by (simp add: algebra_simps)
    qed
  qed
qed

end

section \<open>The property\<close>

text \<open>C5: however long the controller runs, its successful shutdowns are rate limited by the cooldown: all of
  them but one fit, at one cooldown each, into the time between the start of the loop and the
  last clock reading. The hypothesis on the tracker holds for a new one, whose last power action is
  the zero time.\<close>

theorem shutdown_rate:
  assumes "client_go E" and "0 \<le> Cooldown cfg"
    and "run_state (run_loop n E (build_reconciler E cfg opts)) s = (x, t)"
    and "LastShutdownTime (tracker s) \<le> clock_floor (hist s)"
  shows "(int (accepted_shutdowns t) - int (accepted_shutdowns s) - 1) * Cooldown cfg
    \<le> clock_floor (hist t) - clock_floor (hist s)"
proof -
  have "metered s t" by (rule state_io_rel_run [OF built.run_loop_metered [OF assms(1)] assms(3)])
  then have "int (accepted_shutdowns t) - int (accepted_shutdowns s) = int (successes t) - int (successes s)"
    unfolding metered_def by linarith
  moreover have pace: "LastShutdownTime (tracker t) \<le> clock_floor (hist t)" "successes s \<le> successes t"
    "successes s < successes t \<Longrightarrow>
       clock_floor (hist s) + (int (successes t - successes s) - 1) * Cooldown cfg \<le> LastShutdownTime (tracker t)"
    using built.run_loop_pace [OF assms(1) _ assms(3,4)] assms(2) by simp_all
  have "(int (successes t) - int (successes s) - 1) * Cooldown cfg \<le> clock_floor (hist t) - clock_floor (hist s)"
  proof (cases "successes s < successes t")
    case True
    then show ?thesis using pace by simp
  next
    case False
    have "clock_le s t" by (rule state_io_rel_run [OF built.run_loop_clock [OF assms(1)] assms(3)])
    then show ?thesis using False pace(2) assms(2) by (simp add: clock_le_def)
  qed
  ultimately show ?thesis by simp
qed

theorem shutdown_rate_witness:
  "(int (accepted_shutdowns (snd (run_state (run_loop 3 (store_env sample_cluster)
      (build_reconciler (store_env sample_cluster) sample_config [])) init_sys))) - 1) * (5 * Minute) \<le>
   clock_floor (hist (snd (run_state (run_loop 3 (store_env sample_cluster)
      (build_reconciler (store_env sample_cluster) sample_config [])) init_sys)))"
proof -
  let ?run = "run_state (run_loop 3 (store_env sample_cluster)
      (build_reconciler (store_env sample_cluster) sample_config [])) init_sys"
  have "0 \<le> Cooldown sample_config" "Cooldown sample_config = 5 * Minute"
    "LastShutdownTime (tracker init_sys) \<le> clock_floor (hist init_sys)"
    "accepted_shutdowns init_sys = 0" "clock_floor (hist init_sys) = 0"
    by (simp_all add: sample_config_def init_sys_def NewNodeStateTracker_def zero_time_def unix_zero_def
        Minute_def Second_def)
  moreover have "(int (accepted_shutdowns (snd ?run)) - int (accepted_shutdowns init_sys) - 1) * Cooldown sample_config
      \<le> clock_floor (hist (snd ?run)) - clock_floor (hist init_sys)"
    by (rule shutdown_rate [OF store_env_client_go _ prod.collapse [symmetric]]) fact+
  ultimately show ?thesis by simp
qed

end
