(* ===== verification/Process.thy ===== *)
theory Process
  imports Shutdown_Rate Node_Actions
begin

text \<open>
  The whole process: the reconcile loop and the goroutine of the MAC updater, which \<^verbatim>\<open>main.go\<close>
  starts after the bootstrap cooldown. The two share no memory (the updater's wrappers carry no
  tracker), so what they do to each other goes through the cluster; each has its own environment,
  which answers with whatever the other's calls have made of it, and an execution of the process
  is any interleaving of the two logs.
\<close>

section \<open>Interleaved executions\<close>

definition bootstrap_wait :: "config \<Rightarrow> unit io" where
  "bootstrap_wait cfg =
     when_do (BootstrapCooldownSeconds cfg > 0) (Sleep (wrap64 (BootstrapCooldownSeconds cfg * Second)))"

definition loop_thread :: "nat \<Rightarrow> env \<Rightarrow> config \<Rightarrow> reconciler_option list \<Rightarrow> unit go io" where
  "loop_thread n E cfg opts = do { r \<leftarrow> NewReconciler E cfg opts; run_loop n E r }"

definition updater_thread :: "nat \<Rightarrow> env \<Rightarrow> config \<Rightarrow> unit io" where
  "updater_thread m E cfg = StartMACAnnotationUpdater m E (mac_updater_of cfg)"

text \<open>The calls a program makes from a state, newest first.\<close>

definition calls_of :: "'a io \<Rightarrow> sys \<Rightarrow> call list" where
  "calls_of m s = (let t = snd (run_state m s) in take (length (hist t) - length (hist s)) (hist t))"

definition process_logs ::
  "nat \<Rightarrow> nat \<Rightarrow> env \<Rightarrow> env \<Rightarrow> config \<Rightarrow> reconciler_option list \<Rightarrow> call list set" where
  "process_logs n m E E' cfg opts =
    (let s0 = snd (run_state (bootstrap_wait cfg) init_sys)
     in (\<lambda>l. l @ hist s0) `
          shuffles (calls_of (loop_thread n E cfg opts) s0) (calls_of (updater_thread m E' cfg) s0))"


lemma calls_of_logs:
  assumes "state_io_rel (logs P) m"
  shows "list_all P (calls_of m s)" and "hist (snd (run_state m s)) = calls_of m s @ hist s"
proof -
  have "logs P s (snd (run_state m s))" using assms by (auto simp: state_io_rel_def)
  then obtain cs where "hist (snd (run_state m s)) = cs @ hist s" "list_all P cs"
    by (auto simp: logs_def)
  then show "list_all P (calls_of m s)" "hist (snd (run_state m s)) = calls_of m s @ hist s"
    by (simp_all add: calls_of_def)
qed

lemma list_all_shuffles:
  "zs \<in> shuffles xs ys \<Longrightarrow> list_all P zs \<longleftrightarrow> list_all P xs \<and> list_all P ys"
  by (auto simp: list_all_iff dest: set_shuffles)

lemma shuffles_append: "xs @ ys \<in> shuffles xs ys"
  by (induction xs) (auto intro: Cons_in_shuffles_leftI)

section \<open>The updater\<close>






lemma updater_frames:
  "state_io_rel same_tracker (StartMACAnnotationUpdater m E u)"
  "state_io_rel clock_le (StartMACAnnotationUpdater m E u)"
  "mu_DryRun u \<Longrightarrow> read_only (StartMACAnnotationUpdater m E u)"
  "state_io_rel metered (StartMACAnnotationUpdater m E u)"
proof (induction m)
  case (Suc m)
  note query = reading_all [OF FetchMACFromDaemon_reading]
  { case 1 show ?case unfolding StartMACAnnotationUpdater.simps RunOnce_def update_mac_def SetDiscoveredMAC_def Let_def
      by (intro frame_intro query Suc) }
  { case 2 show ?case unfolding StartMACAnnotationUpdater.simps RunOnce_def update_mac_def SetDiscoveredMAC_def Let_def
      by (intro frame_intro query Suc) }
  { case 3 then show ?case unfolding StartMACAnnotationUpdater.simps RunOnce_def update_mac_def SetDiscoveredMAC_def Let_def
      by (simp only: if_True, intro frame_intro query Suc; simp) }
  { case 4 show ?case unfolding StartMACAnnotationUpdater.simps RunOnce_def update_mac_def SetDiscoveredMAC_def Let_def
      by (intro frame_intro metered_queries metered_reading [OF FetchMACFromDaemon_reading]
          metered_reading [OF query_reading(1)] metered_reading [OF reading_api(2)] Suc) }
qed (auto intro: frame_intro)

section \<open>The loop\<close>

text \<open>The patches of the loop are to the powered-off and boot-time annotations.\<close>

fun loop_call :: "call \<Rightarrow> bool" where
  "loop_call (CPatchNode name p r) = (fst ` set p \<subseteq> {AnnotationPoweredOff, AnnotationBootedAt})"
| "loop_call (CPatchRaw name body r) = False"
| "loop_call c = True"

lemma loop_call_intros:
  "\<not> is_write c \<Longrightarrow> loop_call c"
  "restoring_call c \<Longrightarrow> loop_call c"
  "agent_call c \<Longrightarrow> loop_call c"
  "draining_call c \<Longrightarrow> loop_call c"
  by (cases c; force simp: list_all_iff)+

lemma loop_call_reads: "loop_call (CNow t)" "loop_call (CGetNode name g)"
  by simp_all

lemma loop_call_parts:
  "state_io_rel (logs loop_call) (shutdown_succeeded E name)"
  "client_go E \<Longrightarrow> state_io_rel (logs loop_call) (restoreScheduling E name)"
  "state_io_rel (logs loop_call) (ClearPoweredOffAnnotation E name)"
  "client_go E \<Longrightarrow> state_io_rel (logs loop_call) (CordonAndDrain E cfg name)"
  "state_io_rel (logs loop_call) (AnnotatePoweredOffNode E cfg name)"
  "client_go E \<Longrightarrow> state_io_rel (logs loop_call) (RecoverUnexpectedlyBootedNodes E cfg dryRun)"
  by (intro frame_intro recover_logs; simp add: loop_call_intros)+

lemmas loop_call_queries = list_reading(1) [THEN reading_all(1), OF loop_call_intros(1)]
  list_reading(4) [THEN reading_all(1), OF loop_call_intros(1)]
  PickRotation_reading [THEN reading_all(1), OF loop_call_intros(1)]
  query_reading(2) [THEN reading_all(1), OF loop_call_intros(1)]

context reconciler_parts begin

lemma loop_call_power:
  "client_go E \<Longrightarrow> state_io_rel (logs loop_call) (PowerOnAndMarkBooted E w cfg (r_PowerOner r) dryRun)"
  "state_io_rel (logs loop_call) (call_Shutdown (r_Shutdowner r) name)"
  by (intro PowerOn_logs call_Shutdown_frames shutdowner.calls_agent; simp add: loop_call_intros)+

lemma loop_call_advice:
  "state_io_rel (logs loop_call) (su_ShouldScaleUp (r_ScaleUpStrategy r))"
  "state_io_rel (logs loop_call) (sd_ShouldScaleDown (r_ScaleDownStrategy r) name)"
  by (rule reading_all(1) [OF up.only_reads] reading_all(1) [OF down.only_reads], erule loop_call_intros)+

lemma loop_call_steps:
  assumes "client_go E"
  shows "state_io_rel (logs loop_call) (scale_down_node E r name)"
    and "state_io_rel (logs loop_call) (MaybeScaleUp E r)"
    and "state_io_rel (logs loop_call) (MaybeRotate E r)"
  unfolding scale_down_node_def retire_node_def MaybeScaleUp_def MaybeRotate_def rotate_node_def
  by (intro loop_call_parts loop_call_queries loop_call_power loop_call_advice frame_intro assms loop_call_reads)+

lemma ForcePowerOnAll_loop_call:
  assumes "client_go E"
  shows "state_io_rel (logs loop_call) (ForcePowerOnAll E cfg (r_PowerOner r) dryRun)"
  unfolding ForcePowerOnAll_def force_node_def
  by (intro loop_call_queries loop_call_power frame_intro assms loop_call_reads)

lemma Reconcile_loop_call:
  assumes "client_go E" shows "state_io_rel (logs loop_call) (Reconcile E r)"
  unfolding Reconcile_def reconcile_decide_def reconcile_loop_def MaybeScaleDown_def
    clear_recovered_def
  by (intro loop_call_parts loop_call_queries loop_call_steps ForcePowerOnAll_loop_call frame_intro assms loop_call_reads)

lemma run_loop_loop_call: "client_go E \<Longrightarrow> state_io_rel (logs loop_call) (run_loop n E r)"
  by (induction n) (auto intro!: frame_intro Reconcile_loop_call split: go.split)

end

lemma loop_thread_frames:
  "client_go E \<Longrightarrow> state_io_rel (logs loop_call) (loop_thread n E cfg opts)"
  "client_go E \<Longrightarrow> state_io_rel keeps_safe (loop_thread n E cfg opts)"
  "DryRun cfg \<Longrightarrow> read_only (loop_thread n E cfg opts)"
  unfolding loop_thread_def NewReconciler_bind
  by (intro frame_intro built.run_loop_loop_call built.run_loop_safe built.run_loop_dry
      keeps_safe_logs [OF RestorePoweredOffState_frames(1)] not_shutdown(1);
      simp add: loop_call_intros build_reconciler_simps)+

section \<open>Interference through the cluster\<close>

text \<open>A stored node up to its MAC annotation.\<close>

definition forget_mac :: "node \<Rightarrow> node" where
  "forget_mac n = n\<lparr>node_Annotations := (node_Annotations n)(AnnotationMACAuto := None)\<rparr>"

lemma apply_patch_upd:
  fixes p :: annotation_patch
  shows "a(k := v) = b(k := v) \<Longrightarrow> (apply_patch p a)(k := v) = (apply_patch p b)(k := v)"
proof (induction p arbitrary: a b)
  case (Cons q p)
  obtain k' v' where q: "q = (k', v')" by fastforce
  have eq: "(a(k' := v'))(k := v) = (b(k' := v'))(k := v)"
  proof
    fix x show "(a(k' := v', k := v)) x = (b(k' := v', k := v)) x"
      using fun_cong [OF Cons.prems, of x] by (cases "x = k") simp_all
  qed
  show ?case unfolding q apply_patch.simps by (rule Cons.IH [OF eq])
qed simp

lemma forget_mac_patch:
  assumes "forget_mac n = forget_mac m"
  shows "forget_mac (n\<lparr>node_Annotations := apply_patch p (node_Annotations n)\<rparr>) =
    forget_mac (m\<lparr>node_Annotations := apply_patch p (node_Annotations m)\<rparr>)"
  using assms apply_patch_upd [of "node_Annotations n" AnnotationMACAuto None "node_Annotations m" p]
  by (cases n; cases m) (simp add: forget_mac_def)

interpretation forget_mac: node_view forget_mac
proof
  fix m n :: node and b p assume eq: "forget_mac m = forget_mac n"
  then show "node_Name m = node_Name n"
    by (auto simp: forget_mac_def dest: arg_cong [where f = node_Name])
  show "forget_mac (m\<lparr>node_Unschedulable := b\<rparr>) = forget_mac (n\<lparr>node_Unschedulable := b\<rparr>)"
    using eq by (cases m; cases n) (simp add: forget_mac_def)
  show "forget_mac (m\<lparr>node_Annotations := apply_patch p (node_Annotations m)\<rparr>) =
      forget_mac (n\<lparr>node_Annotations := apply_patch p (node_Annotations n)\<rparr>)"
    using eq by (rule forget_mac_patch)
qed




lemma process_logs_exist: "\<exists>l. l \<in> process_logs n m E E' cfg opts"
proof -
  let ?s0 = "snd (run_state (bootstrap_wait cfg) init_sys)"
  have "(calls_of (loop_thread n E cfg opts) ?s0 @ calls_of (updater_thread m E' cfg) ?s0) @ hist ?s0
      \<in> process_logs n m E E' cfg opts"
    unfolding process_logs_def Let_def by (rule imageI) (rule shuffles_append)
  then show ?thesis by (rule exI)
qed

section \<open>The properties\<close>

lemma bootstrap_wait_frames:
  "state_io_rel reading (bootstrap_wait cfg)"
  unfolding bootstrap_wait_def by (intro frame_intro)



text \<open>In dry-run the whole process writes nothing: in no interleaving of the loop and the updater is there a
  write to the cluster, an eviction, a call of a power controller or a request other than GET.\<close>

theorem process_dry_run:
  assumes "DryRun cfg" and "l \<in> process_logs n m E E' cfg opts"
  shows "list_all (\<lambda>c. \<not> is_write c) l"
proof -
  let ?s0 = "snd (run_state (bootstrap_wait cfg) init_sys)"
  obtain zs where zs: "l = zs @ hist ?s0"
      "zs \<in> shuffles (calls_of (loop_thread n E cfg opts) ?s0) (calls_of (updater_thread m E' cfg) ?s0)"
    using assms(2) by (auto simp: process_logs_def Let_def)
  have "read_only (updater_thread m E' cfg)"
    using updater_frames(3) assms(1) by (simp add: updater_thread_def mac_updater_of_def)
  from calls_of_logs(1) [OF this] calls_of_logs(1) [OF loop_thread_frames(3) [OF assms(1)]]
  have "list_all (\<lambda>c. \<not> is_write c) zs"
    unfolding list_all_shuffles [OF zs(2)] by (rule conjI [rotated])
  moreover have "list_all (\<lambda>c. \<not> is_write c) (hist ?s0)"
    using reading_run(1) [OF bootstrap_wait_frames prod.collapse [symmetric], of cfg init_sys]
    by (auto simp: init_sys_def)
  ultimately show ?thesis using zs(1) by simp
qed

theorem process_dry_run_witness:
  "\<exists>l \<in> process_logs 2 3 (store_env bare_cluster) (store_env bare_cluster) (sample_config\<lparr>DryRun := True\<rparr>) [].
     list_all (\<lambda>c. \<not> is_write c) l"
proof -
  obtain l where l: "l \<in> process_logs 2 3 (store_env bare_cluster) (store_env bare_cluster)
      (sample_config\<lparr>DryRun := True\<rparr>) []"
    by (rule exE [OF process_logs_exist])
  have "DryRun (sample_config\<lparr>DryRun := True\<rparr>)" by simp
  from process_dry_run [OF this l] show ?thesis by (rule bexI [OF _ l])
qed

end
