(* ===== verification/Power_Facts.thy ===== *)
theory Power_Facts
  imports Power_Control
begin

text \<open>
  Bounds on what the power controllers do: the requests and polls of a wake-on-LAN, which ends
  after a bounded number of both, what its success shows, and what a successful HTTP shutdown
  has sent and received.
\<close>

section \<open>Counting the calls of a power-on\<close>

fun is_post :: "call \<Rightarrow> bool" where
  "is_post (CHttp meth _ _) = (meth \<noteq> ''GET'')"
| "is_post _ = False"

fun is_poll :: "call \<Rightarrow> bool" where
  "is_poll (CGetNode _ _) = True"
| "is_poll _ = False"

definition posts :: "call list \<Rightarrow> nat" where "posts cs = length (filter is_post cs)"
definition polls :: "call list \<Rightarrow> nat" where "polls cs = length (filter is_poll cs)"

lemma counts [simp]:
  "posts [] = 0" "posts (c # cs) = of_bool (is_post c) + posts cs" "posts (cs @ ds) = posts cs + posts ds"
  "polls [] = 0" "polls (c # cs) = of_bool (is_poll c) + polls cs" "polls (cs @ ds) = polls cs + polls ds"
  by (simp_all add: posts_def polls_def)

text \<open>The most polls that fit in a wait: one every five seconds, the first at its start.\<close>

definition poll_bound :: "wake_on_lan \<Rightarrow> int" where
  "poll_bound w = (max 0 (sint (wol_BootTimeout w)) + 5 * Second - 1) div (5 * Second)"

fun saw_ready :: "string \<Rightarrow> call list \<Rightarrow> bool" where
  "saw_ready node (CGetNode name (Inr n) # cs) = (name = node \<and> IsNodeReady n)"
| "saw_ready node _ = False"

lemma saw_ready_append: "saw_ready node cs \<Longrightarrow> saw_ready node (cs @ h)"
  by (cases "(node, cs)" rule: saw_ready.cases) auto

lemma run_checkNodeReady:
  assumes "run_state (checkNodeReady E node) s = (r, t)"
  shows "\<exists>x. hist t = CGetNode node x # hist s \<and> (r = Inr True \<longrightarrow> (\<exists>n. x = Inr n \<and> IsNodeReady n))"
  using assms by (auto simp: checkNodeReady_def GetNode_def IsNodeReady_def split: sum.splits)

text \<open>One wait: it posts nothing, polls at most as often as the time left allows, and ends ready only after seeing it.\<close>

definition waited :: "wake_on_lan \<Rightarrow> string \<Rightarrow> time \<Rightarrow> sys \<Rightarrow> boot_wait \<times> sys \<Rightarrow> bool" where
  "waited w node start s res \<longleftrightarrow> (\<exists>cs. hist (snd res) = cs @ hist s \<and> posts cs = 0 \<and>
     (polls cs = 0 \<or> (int (polls cs) - 1) * (5 * Second) < sint (wol_BootTimeout w) - (clock_floor (hist s) - start)) \<and>
     (fst res = Node_ready \<longrightarrow> saw_ready node cs))"

lemma run_CtxDone: "run_state (CtxDone E) s = (c, t) \<Longrightarrow> hist t = CCtxDone # hist s"
  by (auto simp: CtxDone_def)

lemma wait_ready_waited: "waited w node start s (wait_ready E w node start s)"
proof (rule wait_ready_induct [where E = E and node = node and start = start and w = w and P = "waited w node start"])
  have less: "now - start < sint (wol_BootTimeout w)" if "time_Sub now start < sint (wol_BootTimeout w)" for now
    using that time_Sub_less_imp [of "sint (wol_BootTimeout w)" now start] sint_in_int64 [of "wol_BootTimeout w"]
    by (simp add: in_int64_def)
  show "waited w node start s (Boot_timeout, s1)" if now: "run_state (Now E) s = (now, s1)" for s now s1
    using run_Now [OF now] unfolding waited_def by (intro exI [where x = "[CNow now]"]) simp
  show "waited w node start s (Node_ready, s2)" if now: "run_state (Now E) s = (now, s1)"
    and t: "time_Sub now start < sint (wol_BootTimeout w)"
    and check: "run_state (checkNodeReady E node) s1 = (Inr True, s2)" for s now s1 s2
  proof -
    obtain n where "hist s2 = CGetNode node (Inr n) # hist s1" "IsNodeReady n"
      using run_checkNodeReady [OF check] by auto
    then show ?thesis using run_Now [OF now] less [OF t] unfolding waited_def
      by (intro exI [where x = "[CGetNode node (Inr n), CNow now]"]) simp
  qed
  show "waited w node start s (Ctx_done err, s3)" if now: "run_state (Now E) s = (now, s1)"
    and t: "time_Sub now start < sint (wol_BootTimeout w)"
    and check: "run_state (checkNodeReady E node) s1 = (r, s2)" and ctx: "run_state (CtxDone E) s2 = (Some err, s3)"
    for s now s1 r s2 err s3
  proof -
    obtain x where "hist s2 = CGetNode node x # hist s1" using run_checkNodeReady [OF check] by auto
    then show ?thesis using run_Now [OF now] less [OF t] run_CtxDone [OF ctx] unfolding waited_def
      by (intro exI [where x = "[CCtxDone, CGetNode node x, CNow now]"]) simp
  qed
  show "waited w node start s res" if now: "run_state (Now E) s = (now, s1)"
    and t: "time_Sub now start < sint (wol_BootTimeout w)"
    and check: "run_state (checkNodeReady E node) s1 = (r, s2)" and ctx: "run_state (CtxDone E) s2 = (None, s3)"
    and sleep: "run_state (Sleep (5 * Second)) s3 = ((), s4)" and rest: "waited w node start s4 res"
    for s now s1 r s2 s3 s4 and res :: "boot_wait \<times> sys"
  proof -
    obtain x where h4: "hist s4 = CSleep (5 * Second) # CCtxDone # CGetNode node x # CNow now # hist s"
      using run_Now [OF now] run_checkNodeReady [OF check] run_CtxDone [OF ctx] sleep by (auto simp: Sleep_def)
    then have floor4: "clock_floor (hist s4) = now + 5 * Second" by (simp add: Second_def)
    obtain cs where cs: "hist (snd res) = cs @ hist s4" "posts cs = 0"
      "polls cs = 0 \<or> (int (polls cs) - 1) * (5 * Second) < sint (wol_BootTimeout w) - (now + 5 * Second - start)"
      "fst res = Node_ready \<longrightarrow> saw_ready node cs"
      using rest floor4 by (auto simp: waited_def)
    let ?cs = "cs @ [CSleep (5 * Second), CCtxDone, CGetNode node x, CNow now]"
    have "int (polls cs) * (5 * Second) < sint (wol_BootTimeout w) - (now - start)"
      using cs(3) less [OF t] by (auto simp: algebra_simps)
    then have "(int (polls ?cs) - 1) * (5 * Second) < sint (wol_BootTimeout w) - (clock_floor (hist s) - start)"
      using run_Now [OF now] by simp
    then show ?thesis unfolding waited_def
      using cs h4 saw_ready_append by (intro exI [where x = ?cs]) auto
  qed
qed

lemma polls_le_bound:
  assumes "k = 0 \<or> (int k - 1) * (5 * Second) < sint (wol_BootTimeout w)"
  shows "int k \<le> poll_bound w"
proof (cases "k = 0")
  case True
  then show ?thesis by (simp add: poll_bound_def Second_def)
next
  case False
  then have "int k * (5 * Second) \<le> max 0 (sint (wol_BootTimeout w)) + 5 * Second - 1"
    using assms by (simp add: algebra_simps)
  then have "int k * (5 * Second) div (5 * Second) \<le> poll_bound w"
    unfolding poll_bound_def by (rule zdiv_mono1) (simp add: Second_def)
  then show ?thesis by (simp add: Second_def)
qed

lemma run_wol_attempt:
  assumes "run_state (wol_attempt E w ip node mac) s = (res, t)"
  shows "\<exists>cs. hist t = cs @ hist s \<and> posts cs = 1 \<and> int (polls cs) \<le> poll_bound w \<and>
    (res = Node_ready \<longrightarrow> saw_ready node cs)"
proof -
  obtain x s1 where send: "run_state (sendWOLRequest E w ip mac) s = (x, s1)" by fastforce
  obtain start s2 where now: "run_state (Now E) s1 = (start, s2)" by fastforce
  have wait: "wait_ready E w node start s2 = (res, t)" using assms send now by (simp add: wol_attempt_def)
  obtain h where h1: "hist s1 = CHttp ''POST'' (wake_url w ip mac) h # hist s"
    using send by (auto simp: sendWOLRequest_def Http_def split: sum.splits if_splits)
  obtain cs where cs: "hist t = cs @ hist s2" "posts cs = 0"
    "polls cs = 0 \<or> (int (polls cs) - 1) * (5 * Second) < sint (wol_BootTimeout w)" "res = Node_ready \<longrightarrow> saw_ready node cs"
    using wait_ready_waited [of w node start s2 E] wait run_Now [OF now] by (auto simp: waited_def)
  have "int (polls cs) \<le> poll_bound w" using cs(3) by (rule polls_le_bound)
  then show ?thesis using cs h1 run_Now [OF now] saw_ready_append
    by (intro exI [where x = "cs @ [CNow start, CHttp ''POST'' (wake_url w ip mac) h]"]) auto
qed

lemma run_wol_attempts:
  assumes "run_state (wol_attempts k E w ip node mac) s = (r, t)"
  shows "\<exists>cs. hist t = cs @ hist s \<and> posts cs \<le> k \<and> int (polls cs) \<le> int k * poll_bound w \<and>
    (r = None \<longrightarrow> saw_ready node cs)"
  using assms
proof (induction k arbitrary: s)
  case 0
  then show ?case by auto
next
  case (Suc k)
  obtain x s1 where one: "run_state (wol_attempt E w ip node mac) s = (x, s1)" by fastforce
  obtain cs where cs: "hist s1 = cs @ hist s" "posts cs = 1" "int (polls cs) \<le> poll_bound w"
    "x = Node_ready \<longrightarrow> saw_ready node cs"
    using run_wol_attempt [OF one] by blast
  have nonneg: "0 \<le> int k * poll_bound w" by (simp add: poll_bound_def Second_def pos_imp_zdiv_nonneg_iff)
  show ?case
  proof (cases "x = Boot_timeout")
    case False
    then have "t = s1" "r = None \<longrightarrow> x = Node_ready" using Suc.prems one by (auto split: boot_wait.splits)
    moreover have "int (Suc k) * poll_bound w = poll_bound w + int k * poll_bound w" by (simp add: distrib_right)
    then have "int (polls cs) \<le> int (Suc k) * poll_bound w" using cs(3) nonneg by linarith
    ultimately show ?thesis using cs by auto
  next
    case True
    then have "run_state (wol_attempts k E w ip node mac) s1 = (r, t)" using Suc.prems one by simp
    then obtain ds where ds: "hist t = ds @ hist s1" "posts ds \<le> k" "int (polls ds) \<le> int k * poll_bound w"
      "r = None \<longrightarrow> saw_ready node ds"
      using Suc.IH by blast
    then show ?thesis using cs saw_ready_append
      by (intro exI [where x = "ds @ cs"]) (auto simp: algebra_simps)
  qed
qed

section \<open>A successful HTTP shutdown\<close>

text \<open>One POST went to the agent of the node in the listing of pods right before, and was answered with 200.\<close>

lemma http_shutdown_sent:
  assumes "run_state (ShutdownHTTP E c node) s = (None, t)" and "\<not> sh_DryRun c"
  shows "\<exists>q pods p resp. hist t =
      CHttp ''POST'' (shutdown_url (pod_PodIP p) (sh_Port c)) (Inr resp) # CListPods (PodsLabelled (sh_Namespace c) q) (Inr pods) # hist s \<and>
    p \<in> set pods \<and> pod_NodeName p = node \<and> resp_Status resp = 200 \<and>
    env_Http E (CListPods (PodsLabelled (sh_Namespace c) q) (Inr pods) # hist s) ''POST''
      (shutdown_url (pod_PodIP p) (sh_Port c)) = Inr resp"
  using assms
  by (auto simp: ShutdownHTTP_def FindShutdownPodIP_def SendShutdownRequest_def ListPods_def Http_def find_Some_iff
      split: sum.splits option.splits if_splits) (metis nth_mem)

section \<open>Properties\<close>

text \<open>C32: waking a node ends after at most as many requests to the agent as there are retries, and after at
  most one poll of the node per started five seconds of the boot timeout and retry; outside
  dry-run it succeeds only right after the API server showed the node Ready.\<close>

theorem wake_on_lan_bounded:
  assumes "run_state (WakeOnLan E w node mac) s = (r, t)"
  shows "\<exists>cs. hist t = cs @ hist s \<and> posts cs \<le> nat (wol_MaxRetries w) \<and>
    int (polls cs) \<le> int (nat (wol_MaxRetries w)) * poll_bound w \<and>
    (r = None \<longrightarrow> wol_DryRun w \<or> saw_ready node cs)"
proof (cases "wol_DryRun w")
  case True
  then show ?thesis using assms
    by (auto simp: WakeOnLan_def poll_bound_def Second_def pos_imp_zdiv_nonneg_iff intro!: exI [where x = "[]"])
next
  case False
  obtain f s1 where find: "run_state (findWOLAgentPodIP E w) s = (f, s1)" by fastforce
  obtain q l where h1: "hist s1 = CListPods q l # hist s"
    using find by (auto simp: findWOLAgentPodIP_def ListPods_def split: sum.splits list.splits)
  have nonneg: "0 \<le> int (nat (wol_MaxRetries w)) * poll_bound w"
    by (simp add: poll_bound_def Second_def pos_imp_zdiv_nonneg_iff)
  show ?thesis
  proof (cases f)
    case (Inl err)
    then show ?thesis using assms False find h1 nonneg
      by (auto simp: WakeOnLan_def intro!: exI [where x = "[CListPods q l]"])
  next
    case (Inr ip)
    then have "run_state (wol_attempts (nat (wol_MaxRetries w)) E w ip node mac) s1 = (r, t)"
      using assms False find by (simp add: WakeOnLan_def)
    from run_wol_attempts [OF this] obtain cs where
      "hist t = cs @ hist s1" "posts cs \<le> nat (wol_MaxRetries w)"
      "int (polls cs) \<le> int (nat (wol_MaxRetries w)) * poll_bound w" "r = None \<longrightarrow> saw_ready node cs"
      by blast
    then show ?thesis using h1 saw_ready_append by (intro exI [where x = "cs @ [CListPods q l]"]) auto
  qed
qed

theorem wake_on_lan_bounded_witness:
  "\<exists>cs. hist (snd (run_state (WakeOnLan (store_env sample_cluster) (wake_on_lan_of sample_config) ''n2'' ''52:54:00:12:34:56'')
      init_sys)) = cs \<and> posts cs \<le> 3 \<and> polls cs \<le> 36 \<and> saw_ready ''n2'' cs"
proof -
  let ?w = "wake_on_lan_of sample_config"
  let ?run = "run_state (WakeOnLan (store_env sample_cluster) ?w ''n2'' ''52:54:00:12:34:56'') init_sys"
  have ok: "fst ?run = None" by code_simp
  have w: "wol_MaxRetries ?w = 3" "\<not> wol_DryRun ?w" by (simp_all add: wake_on_lan_of_def sample_config_def)
  have bound: "poll_bound ?w = 12" by code_simp
  show ?thesis using wake_on_lan_bounded [OF run_result [OF ok]] unfolding w bound
    by (auto simp: init_sys_def w)
qed

end
