(* ===== verification/Agents.thy ===== *)
theory Agents
  imports Power_Facts Load_Statistics
begin

text \<open>
  The agents that run beside the controller: the shutdown and MAC endpoints of
  \<^verbatim>\<open>poweroff-daemonset/main.go\<close>, the wake-on-LAN endpoint of \<^verbatim>\<open>wol-agent/main.go\<close> and the load
  endpoint of \<^verbatim>\<open>metrics-daemonset/main.go\<close>. A handler is a function of the host it runs on, of the
  request and of its log; its answer is the same \<open>http_resp\<close> the controller's side decodes.
\<close>

unbundle bit_operations_syntax

section \<open>Text helpers of the standard library\<close>

definition newline :: char where "newline = CHR 0x0A"

text \<open>\<^verbatim>\<open>strings.Split(s, "\n")\<close> and, for ASCII text, \<^verbatim>\<open>strings.Fields\<close>.\<close>

fun Split_lines :: "string \<Rightarrow> string list" where
  "Split_lines [] = [[]]"
| "Split_lines (c # s) =
    (if c = newline then [] # Split_lines s
     else case Split_lines s of [] \<Rightarrow> [[c]] | l # ls \<Rightarrow> (c # l) # ls)"

definition is_space :: "char \<Rightarrow> bool" where
  "is_space c = (c \<in> {CHR '' '', CHR 0x09, CHR 0x0A, CHR 0x0B, CHR 0x0C, CHR 0x0D})"

function Fields :: "string \<Rightarrow> string list" where
  "Fields s =
    (let s' = dropWhile is_space s
     in if s' = [] then []
        else takeWhile (\<lambda>c. \<not> is_space c) s' # Fields (dropWhile (\<lambda>c. \<not> is_space c) s'))"
  by pat_completeness auto
termination
proof (relation "measure length")
  fix s s' :: string
  assume s': "s' = dropWhile is_space s" "s' \<noteq> []"
  then have "\<not> is_space (hd s')" by (metis hd_dropWhile)
  then have "length (dropWhile (\<lambda>c. \<not> is_space c) s') < length s'"
    using s'(2) length_dropWhile_le [of "\<lambda>c. \<not> is_space c" "tl s'"] by (cases s') (auto simp: less_Suc_eq_le)
  then show "(dropWhile (\<lambda>c. \<not> is_space c) s', s) \<in> measure length"
    using length_dropWhile_le [of is_space s] s'(1) by simp
qed simp

declare Fields.simps [simp del]

section \<open>The shutdown agent\<close>

text \<open>
  The host's socket as the agent meets it: how dialling, setting the deadline and writing end, the
  bytes the host sends back, and the error that ends the reading when they hold no newline.
\<close>

record host_socket =
  so_Dial :: "error option"
  so_SetDeadline :: "error option"
  so_Write :: "error option"
  so_Reply :: string
  so_ReadErr :: error

datatype agent_event =
    Dialled string
  | Deadline_set
  | Sent string
  | Received string
  | Udp_dialled "string option" int
  | Udp_sent "8 word list"

type_synonym 'a agent = "(agent_event list, 'a) state"

definition emit :: "agent_event \<Rightarrow> unit agent" where
  "emit e = State (\<lambda>h. ((), e # h))"

definition shutdownSocket :: string where "shutdownSocket = ''/run/cba-shutdown.sock''"

definition ReadString_newline :: "host_socket \<Rightarrow> error + string" where
  "ReadString_newline so =
    (if newline \<in> set (so_Reply so) then Inr (takeWhile (\<lambda>c. c \<noteq> newline) (so_Reply so) @ [newline])
     else Inl (so_ReadErr so))"

definition sendShutdown :: "host_socket \<Rightarrow> string \<Rightarrow> error option agent" where
  "sendShutdown so socket =
    (case so_Dial so of
       Some err \<Rightarrow> ret (Some err)
     | None \<Rightarrow> do {
         _ \<leftarrow> emit (Dialled socket);
         case so_SetDeadline so of
           Some err \<Rightarrow> ret (Some err)
         | None \<Rightarrow> do {
             _ \<leftarrow> emit Deadline_set;
             case so_Write so of
               Some err \<Rightarrow> ret (Some err)
             | None \<Rightarrow> do {
                 _ \<leftarrow> emit (Sent (''shutdown'' @ [newline]));
                 case ReadString_newline so of
                   Inl err \<Rightarrow> ret (Some err)
                 | Inr reply \<Rightarrow> do {
                     _ \<leftarrow> emit (Received reply);
                     if reply \<noteq> ''accepted'' @ [newline] then ret (Some (Msg (''shutdown rejected: '' @ reply)))
                     else ret None
                   }
               }
           }
       })"

text \<open>\<^verbatim>\<open>http.Error\<close>: the status with a line of text, which no decoder takes for JSON.\<close>

definition http_Error :: "string \<Rightarrow> int \<Rightarrow> http_resp" where
  "http_Error msg status = \<lparr>resp_Status = status, resp_load = None, resp_mac = None, resp_body = msg @ [newline]\<rparr>"

definition http_text :: "string \<Rightarrow> http_resp" where
  "http_text msg = \<lparr>resp_Status = 200, resp_load = None, resp_mac = None, resp_body = msg @ [newline]\<rparr>"

definition shutdownHandler :: "host_socket \<Rightarrow> string \<Rightarrow> http_resp agent" where
  "shutdownHandler so meth =
    (if meth \<noteq> ''POST'' then ret (http_Error ''POST required'' 405)
     else do {
       e \<leftarrow> sendShutdown so shutdownSocket;
       case e of
         Some err \<Rightarrow> ret (http_Error ''host shutdown request failed'' 503)
       | None \<Rightarrow> ret (http_text ''Host accepted shutdown'')
     })"

section \<open>MAC addresses\<close>

text \<open>\<^verbatim>\<open>net.HardwareAddr.String\<close> and \<^verbatim>\<open>net.ParseMAC\<close>.\<close>

definition hex_digit :: "nat \<Rightarrow> char" where
  "hex_digit k = ''0123456789abcdef'' ! k"

definition hex_byte :: "8 word \<Rightarrow> string" where
  "hex_byte b = [hex_digit (unat (drop_bit 4 b)), hex_digit (unat (b AND 0xF))]"

fun MAC_String :: "8 word list \<Rightarrow> string" where
  "MAC_String [] = []"
| "MAC_String [b] = hex_byte b"
| "MAC_String (b # bs) = hex_byte b @ '':'' @ MAC_String bs"

definition hex_val :: "char \<Rightarrow> int option" where
  "hex_val c =
    (let k = (of_char c :: int)
     in if 48 \<le> k \<and> k \<le> 57 then Some (k - 48)
        else if 97 \<le> k \<and> k \<le> 102 then Some (k - 97 + 10)
        else if 65 \<le> k \<and> k \<le> 70 then Some (k - 65 + 10) else None)"

text \<open>\<^verbatim>\<open>xtoi2(s, e)\<close> with the text after the two digits; \<open>e = None\<close> is the zero byte, which the code
  passes with a text of exactly two bytes.\<close>

fun xtoi2 :: "string \<Rightarrow> char option \<Rightarrow> (8 word \<times> string) option" where
  "xtoi2 (a # b # s) e =
    (if s \<noteq> [] \<and> e \<noteq> None \<and> Some (hd s) \<noteq> e then None
     else case (hex_val a, hex_val b) of
       (Some h, Some l) \<Rightarrow> Some (word_of_int (16 * h + l), s)
     | _ \<Rightarrow> None)"
| "xtoi2 _ e = None"

fun parse_pairs :: "nat \<Rightarrow> char \<Rightarrow> string \<Rightarrow> 8 word list option" where
  "parse_pairs 0 e s = Some []"
| "parse_pairs (Suc n) e s =
    (case xtoi2 s (Some e) of
       None \<Rightarrow> None
     | Some (b, s') \<Rightarrow> (case parse_pairs n e (drop 1 s') of None \<Rightarrow> None | Some bs \<Rightarrow> Some (b # bs)))"

fun parse_quads :: "nat \<Rightarrow> string \<Rightarrow> 8 word list option" where
  "parse_quads 0 s = Some []"
| "parse_quads (Suc n) s =
    (case xtoi2 s None of
       None \<Rightarrow> None
     | Some (b, s') \<Rightarrow>
         (case xtoi2 s' (Some (CHR ''.'')) of
            None \<Rightarrow> None
          | Some (b', s'') \<Rightarrow>
              (case parse_quads n (drop 1 s'') of None \<Rightarrow> None | Some bs \<Rightarrow> Some (b # b' # bs))))"

definition ParseMAC :: "string \<Rightarrow> 8 word list option" where
  "ParseMAC s =
    (if length s < 14 then None
     else if s ! 2 = CHR '':'' \<or> s ! 2 = CHR ''-'' then
       if (length s + 1) mod 3 \<noteq> 0 then None
       else let n = (length s + 1) div 3 in if n \<notin> {6, 8, 20} then None else parse_pairs n (s ! 2) s
     else if s ! 4 = CHR ''.'' then
       if (length s + 1) mod 5 \<noteq> 0 then None
       else let n = 2 * (length s + 1) div 5 in if n \<notin> {6, 8, 20} then None else parse_quads (n div 2) s
     else None)"

section \<open>The MAC endpoint\<close>

text \<open>
  The host's files and interfaces: what \<^verbatim>\<open>os.ReadFile\<close>, \<^verbatim>\<open>net.InterfaceByName\<close> (its hardware
  address, \<open>None\<close> for nil) and \<^verbatim>\<open>strconv.ParseFloat\<close> give.
\<close>

record agent_host =
  ah_ReadFile :: "string \<Rightarrow> error + string"
  ah_Interface :: "string \<Rightarrow> error + 8 word list option"
  ah_ParseFloat :: "string \<Rightarrow> error + real"

definition default_route :: "string \<Rightarrow> bool" where
  "default_route line = (let fields = Fields line in 2 \<le> length fields \<and> fields ! 1 = ''00000000'')"

text \<open>\<^verbatim>\<open>Split\<close> never returns an empty slice, so \<^verbatim>\<open>lines[1:]\<close> is \<open>tl\<close>.\<close>

definition main_interface :: "string \<Rightarrow> string" where
  "main_interface text =
    (case find default_route (tl (Split_lines text)) of Some line \<Rightarrow> Fields line ! 0 | None \<Rightarrow> [])"

definition findMainInterfaceAndMAC :: "agent_host \<Rightarrow> error + string \<times> string" where
  "findMainInterfaceAndMAC host =
    (case ah_ReadFile host ''/proc/net/route'' of
       Inl err \<Rightarrow> Inl (Wrapped ''reading route table'' err)
     | Inr text \<Rightarrow>
         let mainIface = main_interface text
         in if mainIface = [] then Inl (Msg ''could not determine main interface from /proc/net/route'')
            else case ah_Interface host mainIface of
              Inl err \<Rightarrow> Inl (Wrapped (''getting interface '' @ mainIface) err)
            | Inr None \<Rightarrow> Inl (Msg (''interface '' @ mainIface @ '' has no MAC address''))
            | Inr (Some hw) \<Rightarrow> Inr (mainIface, MAC_String hw))"

text \<open>A JSON object without a field decodes to that field's zero value.\<close>

definition macHandler :: "agent_host \<Rightarrow> http_resp" where
  "macHandler host =
    (case findMainInterfaceAndMAC host of
       Inl err \<Rightarrow> http_Error ''error'' 500
     | Inr (iface, mac) \<Rightarrow>
         \<lparr>resp_Status = 200, resp_load = Some (0, 0), resp_mac = Some mac, resp_body = []\<rparr>)"

section \<open>The wake-on-LAN agent\<close>

text \<open>
  \<^verbatim>\<open>net.ParseIP\<close> (\<open>None\<close> for nil), dialling UDP to an address and port, and writing a datagram.
\<close>

record udp_host =
  uh_ParseIP :: "string \<Rightarrow> string option"
  uh_DialUDP :: "string option \<Rightarrow> int \<Rightarrow> error option"
  uh_Write :: "8 word list \<Rightarrow> error option"

definition magic_packet :: "8 word list \<Rightarrow> 8 word list" where
  "magic_packet mac = replicate 6 0xFF @ concat (replicate 16 mac)"

definition sendMagicPacket :: "udp_host \<Rightarrow> string \<Rightarrow> string \<Rightarrow> error option agent" where
  "sendMagicPacket host macAddr broadcastAddr =
    (case ParseMAC macAddr of
       None \<Rightarrow> ret (Some (Msg ''invalid MAC address''))
     | Some mac \<Rightarrow>
         let packet = magic_packet mac; ip = uh_ParseIP host broadcastAddr
         in case uh_DialUDP host ip 9 of
              Some err \<Rightarrow> ret (Some (Wrapped ''UDP dial error'' err))
            | None \<Rightarrow> do {
                _ \<leftarrow> emit (Udp_dialled ip 9);
                case uh_Write host packet of
                  Some err \<Rightarrow> ret (Some err)
                | None \<Rightarrow> do { _ \<leftarrow> emit (Udp_sent packet); ret None }
              })"

text \<open>The handler on the two query parameters, empty when missing.\<close>

definition wakeHandler :: "udp_host \<Rightarrow> string \<Rightarrow> string \<Rightarrow> http_resp agent" where
  "wakeHandler host mac bcast =
    (if mac = [] \<or> bcast = [] then ret (http_Error ''Missing mac or broadcast parameter'' 400)
     else do {
       e \<leftarrow> sendMagicPacket host mac bcast;
       case e of
         Some err \<Rightarrow> ret (http_Error ''Failed to send packet'' 500)
       | None \<Rightarrow> ret (http_text ''WOL packet sent'')
     })"

section \<open>The load agent\<close>

definition getLoadAverage :: "agent_host \<Rightarrow> error + real" where
  "getLoadAverage host =
    (case ah_ReadFile host ''/proc/loadavg'' of
       Inl err \<Rightarrow> Inl err
     | Inr text \<Rightarrow>
         let parts = Fields text
         in if length parts < 3 then Inl (Msg ''unexpected format in /proc/loadavg'')
            else ah_ParseFloat host (parts ! 2))"

definition is_processor :: "string \<Rightarrow> bool" where
  "is_processor line = (take 9 line = ''processor'')"

definition getCPUCount :: "agent_host \<Rightarrow> error + int" where
  "getCPUCount host =
    (case ah_ReadFile host ''/proc/cpuinfo'' of
       Inl err \<Rightarrow> Inl err
     | Inr text \<Rightarrow> Inr (foldl (\<lambda>count line. if is_processor line then count + 1 else count) 0 (Split_lines text)))"

definition loadHandler :: "agent_host \<Rightarrow> http_resp" where
  "loadHandler host =
    (case getLoadAverage host of
       Inl err \<Rightarrow> http_Error ''failed to read loadavg'' 500
     | Inr load15 \<Rightarrow>
         (case getCPUCount host of
            Inl err \<Rightarrow> http_Error ''failed to read cpuinfo'' 500
          | Inr cpus \<Rightarrow>
              \<lparr>resp_Status = 200, resp_load = Some (load15, cpus), resp_mac = Some [], resp_body = []\<rparr>))"

section \<open>Printed MAC addresses\<close>

lemma hex_val_digit:
  assumes "k < 16"
  shows "hex_val (hex_digit k) = Some (int k)"
proof -
  have "\<forall>k < 16. hex_val (hex_digit k) = Some (int k)" by code_simp
  then show ?thesis using assms by blast
qed

lemma nibbles:
  fixes b :: "8 word"
  shows "unat (drop_bit 4 b) < 16" and "unat (b AND 0xF) < 16"
    and "16 * uint (drop_bit 4 b) + uint (b AND 0xF) = uint b"
proof -
  have mask: "b AND 0xF = take_bit 4 b" by (simp add: take_bit_eq_mask mask_eq_exp_minus_1)
  have lo: "uint (b AND 0xF) = uint b mod 16"
    unfolding mask unsigned_take_bit_eq by (simp add: take_bit_eq_mod)
  have hi: "uint (drop_bit 4 b) = uint b div 16"
    by (simp add: uint_div_distrib drop_bit_eq_div)
  have "uint b < 256" using uint_lt2p [of b] by simp
  then show "unat (drop_bit 4 b) < 16" and "unat (b AND 0xF) < 16"
    unfolding nat_uint_eq [symmetric] lo hi by (auto simp: nat_less_iff)
  show "16 * uint (drop_bit 4 b) + uint (b AND 0xF) = uint b" unfolding lo hi by simp
qed

lemma xtoi2_hex_byte: "s = [] \<or> e = None \<or> e = Some (hd s) \<Longrightarrow> xtoi2 (hex_byte b @ s) e = Some (b, s)"
  using nibbles [of b] by (auto simp: hex_byte_def hex_val_digit)

lemma parse_pairs_String: "bs \<noteq> [] \<Longrightarrow> parse_pairs (length bs) (CHR '':'') (MAC_String bs) = Some bs"
proof (induction bs rule: MAC_String.induct)
  case (2 b)
  then show ?case using xtoi2_hex_byte [of "[]" "Some (CHR '':'')" b] by simp
next
  case (3 b b' bs)
  then show ?case using xtoi2_hex_byte [of "CHR '':'' # MAC_String (b' # bs)" "Some (CHR '':'')" b] by simp
qed simp

lemma length_MAC_String: "bs \<noteq> [] \<Longrightarrow> length (MAC_String bs) + 1 = 3 * length bs"
  by (induction bs rule: MAC_String.induct) (simp_all add: hex_byte_def)

lemma MAC_String_colon: "2 \<le> length bs \<Longrightarrow> MAC_String bs ! 2 = CHR '':''"
  by (cases bs rule: MAC_String.cases) (simp_all add: hex_byte_def)

lemma ParseMAC_String:
  assumes "length bs \<in> {6, 8, 20}"
  shows "ParseMAC (MAC_String bs) = Some bs"
proof -
  have "bs \<noteq> []" "2 \<le> length bs" using assms by auto
  moreover have "length (MAC_String bs) + 1 = 3 * length bs" using calculation(1) by (rule length_MAC_String)
  ultimately show ?thesis
    using assms parse_pairs_String [of bs] MAC_String_colon [of bs]
    by (auto simp: ParseMAC_def Let_def)
qed

lemma take_magic_copies:
  "i < n \<Longrightarrow> take (length mac) (drop (length mac * i) (concat (replicate n mac))) = mac"
proof (induction i arbitrary: n)
  case 0
  then show ?case by (cases n) simp_all
next
  case (Suc i)
  then obtain m where "n = Suc m" "i < m" by (cases n) auto
  then show ?case using Suc.IH [of m] by simp
qed

lemma length_magic_packet: "length (magic_packet mac) = 6 + 16 * length mac"
  by (simp add: magic_packet_def length_concat sum_list_replicate)

text \<open>The host takes the request: the socket works and the first line of the reply is \<^verbatim>\<open>accepted\<close>.\<close>

definition accepts :: "host_socket \<Rightarrow> bool" where
  "accepts so \<longleftrightarrow> so_Dial so = None \<and> so_SetDeadline so = None \<and> so_Write so = None \<and>
     ReadString_newline so = Inr (''accepted'' @ [newline])"

fun is_sent :: "agent_event \<Rightarrow> bool" where
  "is_sent (Sent _) = True"
| "is_sent _ = False"

lemma shutdownHandler_status:
  "(resp_Status (fst (run_state (shutdownHandler so meth) h)) = 200) = (meth = ''POST'' \<and> accepts so)"
  by (auto simp: shutdownHandler_def sendShutdown_def accepts_def emit_def http_Error_def http_text_def
      split: option.splits sum.splits if_splits)

lemma getCPUCount_eq:
  "getCPUCount host = Inr n \<longleftrightarrow> (\<exists>text. ah_ReadFile host ''/proc/cpuinfo'' = Inr text \<and>
     n = int (length (filter is_processor (Split_lines text))))"
proof -
  have "foldl (\<lambda>count line. if is_processor line then count + 1 else count) k ls =
      k + int (length (filter is_processor ls))" for k ls
    by (induction ls arbitrary: k) simp_all
  from this [of 0] show ?thesis by (auto simp: getCPUCount_def split: sum.splits)
qed

lemma loadHandler_load:
  assumes "resp_load (loadHandler m) = Some (load15, cpus)"
  shows "\<exists>text. ah_ReadFile m ''/proc/cpuinfo'' = Inr text \<and> getLoadAverage m = Inr load15 \<and>
    cpus = int (length (filter is_processor (Split_lines text)))"
proof -
  have "getLoadAverage m = Inr load15" "getCPUCount m = Inr cpus"
    using assms by (auto simp: loadHandler_def http_Error_def split: sum.splits)
  then show ?thesis using getCPUCount_eq by auto
qed

section \<open>Properties\<close>

text \<open>The address a machine's agent reports is one the wake agent understands: for a hardware address of 6,
  8 or 20 octets, asking the wake agent for it with some broadcast address sends one datagram to
  port 9, six bytes \<open>0xFF\<close> and then sixteen copies of the hardware address, and answers 200,
  provided dialling and writing succeed.\<close>

theorem reported_mac_wakes:
  assumes "findMainInterfaceAndMAC host = Inr (iface, mac)" and "ah_Interface host iface = Inr (Some hw)"
    and "length hw \<in> {6, 8, 20}" and "bcast \<noteq> []"
    and "uh_DialUDP u (uh_ParseIP u bcast) 9 = None" and "\<And>p. uh_Write u p = None"
  shows "\<exists>p. run_state (wakeHandler u mac bcast) h =
      (http_text ''WOL packet sent'', Udp_sent p # Udp_dialled (uh_ParseIP u bcast) 9 # h) \<and>
    length p = 6 + 16 * length hw \<and> take 6 p = replicate 6 0xFF \<and>
    (\<forall>i < 16. take (length hw) (drop (6 + length hw * i) p) = hw)"
proof -
  have mac: "mac = MAC_String hw"
    using assms(1,2) by (auto simp: findMainInterfaceAndMAC_def Let_def split: sum.splits if_splits option.splits)
  have parse: "ParseMAC mac = Some hw" unfolding mac by (rule ParseMAC_String [OF assms(3)])
  have "mac \<noteq> []" using parse by (auto simp: ParseMAC_def)
  then have "run_state (wakeHandler u mac bcast) h =
      (http_text ''WOL packet sent'', Udp_sent (magic_packet hw) # Udp_dialled (uh_ParseIP u bcast) 9 # h)"
    using assms(4-6) by (simp add: wakeHandler_def sendMagicPacket_def parse Let_def emit_def)
  moreover have "take 6 (magic_packet hw) = replicate 6 0xFF" by (simp add: magic_packet_def)
  moreover have "take (length hw) (drop (6 + length hw * i) (magic_packet hw)) = hw" if "i < 16" for i
    using take_magic_copies [OF that, of hw] by (simp add: magic_packet_def)
  ultimately show ?thesis using length_magic_packet by blast
qed

theorem reported_mac_wakes_witness:
  "\<exists>p. length p = 102 \<and> take 6 p = replicate 6 0xFF \<and> snd (run_state (wakeHandler
      \<lparr>uh_ParseIP = Some, uh_DialUDP = (\<lambda>_ _. None), uh_Write = (\<lambda>_. None)\<rparr>
      ''52:54:00:12:34:5f'' ''192.168.1.255'') []) = [Udp_sent p, Udp_dialled (Some ''192.168.1.255'') 9]"
proof -
  let ?hw = "[0x52, 0x54, 0, 0x12, 0x34, 0x5f] :: 8 word list"
  let ?u = "\<lparr>uh_ParseIP = Some, uh_DialUDP = (\<lambda>_ _. None), uh_Write = (\<lambda>_. None)\<rparr>"
  let ?host = "\<lparr>ah_ReadFile = (\<lambda>_. Inr (''Iface Destination'' @ [newline] @ ''eth0 00000000 0'')),
      ah_Interface = (\<lambda>_. Inr (Some ?hw)), ah_ParseFloat = (\<lambda>_. Inr 0)\<rparr>"
  have "findMainInterfaceAndMAC ?host = Inr (''eth0'', ''52:54:00:12:34:5f'')" by code_simp
  then show ?thesis
    using reported_mac_wakes [of ?host "''eth0''" "''52:54:00:12:34:5f''" ?hw "''192.168.1.255''" ?u "[]"] by auto
qed

text \<open>The shutdown agent answers 200 exactly when the request was a POST and the host took the request
  over a working socket; towards the host it writes the one line \<^verbatim>\<open>shutdown\<close> once, if dialling,
  the deadline and the write succeed, and nothing for any other method.\<close>

theorem shutdown_agent_exact:
  "(resp_Status (fst (run_state (shutdownHandler so meth) h)) = 200) = (meth = ''POST'' \<and> accepts so) \<and>
   filter is_sent (snd (run_state (shutdownHandler so meth) h)) =
     (if meth = ''POST'' \<and> so_Dial so = None \<and> so_SetDeadline so = None \<and> so_Write so = None
      then [Sent (''shutdown'' @ [newline])] else []) @ filter is_sent h"
proof
  show "(resp_Status (fst (run_state (shutdownHandler so meth) h)) = 200) = (meth = ''POST'' \<and> accepts so)"
    by (rule shutdownHandler_status)
  show "filter is_sent (snd (run_state (shutdownHandler so meth) h)) =
     (if meth = ''POST'' \<and> so_Dial so = None \<and> so_SetDeadline so = None \<and> so_Write so = None
      then [Sent (''shutdown'' @ [newline])] else []) @ filter is_sent h"
    by (auto simp: shutdownHandler_def sendShutdown_def emit_def split: option.splits sum.splits)
qed

text \<open>When the HTTP shutdown of the controller reports success outside dry-run and the URLs it reaches are
  served by the agents, the host behind the agent pod of that node has accepted the shutdown.\<close>

theorem shutdown_end_to_end:
  assumes "run_state (ShutdownHTTP E c node) s = (None, t)" and "\<not> sh_DryRun c"
    and "\<And>h url. env_Http E h ''POST'' url = Inr (fst (run_state (shutdownHandler (so url) ''POST'') []))"
  shows "\<exists>q pods p. CListPods q (Inr pods) \<in> set (hist t) \<and> p \<in> set pods \<and> pod_NodeName p = node \<and>
    accepts (so (shutdown_url (pod_PodIP p) (sh_Port c)))"
proof -
  obtain q pods p resp where h: "hist t = CHttp ''POST'' (shutdown_url (pod_PodIP p) (sh_Port c)) (Inr resp) #
      CListPods (PodsLabelled (sh_Namespace c) q) (Inr pods) # hist s"
    and p: "p \<in> set pods" "pod_NodeName p = node" and ok: "resp_Status resp = 200"
    and resp: "env_Http E (CListPods (PodsLabelled (sh_Namespace c) q) (Inr pods) # hist s) ''POST''
      (shutdown_url (pod_PodIP p) (sh_Port c)) = Inr resp"
    using http_shutdown_sent [OF assms(1,2)] by blast
  have "accepts (so (shutdown_url (pod_PodIP p) (sh_Port c)))"
    using ok resp shutdownHandler_status unfolding assms(3) by blast
  then show ?thesis using h p by auto
qed

text \<open>When the load agents answer the controller, the normalised load it fetches for a node is the 15-minute
  average of the machine behind a metrics pod of that node, divided by the number of
  \<^verbatim>\<open>processor\<close> lines of its \<^verbatim>\<open>/proc/cpuinfo\<close>, which is not zero.\<close>

theorem load_end_to_end:
  assumes "run_state (FetchNormalizedLoad E u name) s = (Inr load, t)"
    and "\<And>h url. env_Http E h ''GET'' url = Inr (loadHandler (host url))"
  shows "\<exists>q pods p text avg. CListPods q (Inr pods) \<in> set (hist t) \<and> p \<in> set pods \<and> pod_NodeName p = name \<and>
    ah_ReadFile (host (load_url (pod_PodIP p) (u_HTTPPort u))) ''/proc/cpuinfo'' = Inr text \<and>
    filter is_processor (Split_lines text) \<noteq> [] \<and>
    getLoadAverage (host (load_url (pod_PodIP p) (u_HTTPPort u))) = Inr avg \<and>
    load = fl (avg / fl (of_nat (length (filter is_processor (Split_lines text)))))"
proof -
  obtain p q pods resp load15 cpus where h: "hist t = CHttp ''GET'' (load_url (pod_PodIP p) (u_HTTPPort u)) (Inr resp) #
      CListPods q (Inr pods) # hist s" and p: "p \<in> set pods" "pod_NodeName p = name"
    and resp: "resp = loadHandler (host (load_url (pod_PodIP p) (u_HTTPPort u)))"
    and load: "resp_load resp = Some (load15, cpus)" "cpus \<noteq> 0" "load = fl (load15 / fl (of_int cpus))"
    using FetchNormalizedLoad_pod [OF assms(1)] unfolding assms(2) by auto
  from loadHandler_load [OF load(1) [unfolded resp]] show ?thesis using h p load by fastforce
qed

definition willing_socket :: host_socket where
  "willing_socket = \<lparr>so_Dial = None, so_SetDeadline = None, so_Write = None, so_Reply = ''accepted'' @ [newline],
     so_ReadErr = Msg ''EOF''\<rparr>"

definition sample_host :: agent_host where
  "sample_host = \<lparr>ah_ReadFile = (\<lambda>path. Inr (if path = ''/proc/loadavg'' then ''0.52 0.40 0.25 1/200 99'' @ [newline]
       else ''processor : 0'' @ [newline] @ ''processor : 1'' @ [newline])),
     ah_Interface = (\<lambda>_. Inr None), ah_ParseFloat = (\<lambda>s. if s = ''0.52'' then Inr (13 / 25) else if s = ''0.40'' then Inr (2 / 5)
       else if s = ''0.25'' then Inr (1 / 4) else Inl (Msg ''invalid syntax''))\<rparr>"

text \<open>The sample cluster with every URL served by the agents.\<close>

definition agent_cluster :: cluster where
  "agent_cluster = sample_cluster\<lparr>cl_http := (\<lambda>meth url. Inr (if meth = ''GET'' then loadHandler sample_host
     else fst (run_state (shutdownHandler willing_socket meth) [])))\<rparr>"

lemma agent_cluster_http:
  "env_Http (store_env agent_cluster) h ''POST'' url = Inr (fst (run_state (shutdownHandler willing_socket ''POST'') []))"
  "env_Http (store_env agent_cluster) h ''GET'' url = Inr (loadHandler sample_host)"
  by (simp_all add: store_env_def agent_cluster_def)

theorem shutdown_end_to_end_witness:
  "fst (run_state (ShutdownHTTP (store_env agent_cluster) (shutdown_http_of sample_config) ''n1'') init_sys) = None \<and>
   accepts willing_socket"
proof -
  let ?run = "run_state (ShutdownHTTP (store_env agent_cluster) (shutdown_http_of sample_config) ''n1'') init_sys"
  have ok: "fst ?run = None" by code_simp
  have "\<not> sh_DryRun (shutdown_http_of sample_config)" by (simp add: shutdown_http_of_def sample_config_def)
  from shutdown_end_to_end [OF run_result [OF ok] this agent_cluster_http(1)] ok show ?thesis by blast
qed

theorem load_end_to_end_witness:
  "\<exists>load avg. fst (run_state (FetchNormalizedLoad (store_env agent_cluster) (NewClusterLoadUtils ''default'' ''app=metrics'' 9100 Second)
      ''n2'') init_sys) = Inr load \<and> getLoadAverage sample_host = Inr avg \<and> load = fl (avg / fl 2)"
proof -
  let ?u = "NewClusterLoadUtils ''default'' ''app=metrics'' 9100 Second"
  let ?run = "run_state (FetchNormalizedLoad (store_env agent_cluster) ?u ''n2'') init_sys"
  have "case fst ?run of Inr _ \<Rightarrow> True | Inl _ \<Rightarrow> False" by code_simp
  then obtain load where ok: "fst ?run = Inr load" by (auto split: sum.splits)
  have two: "case ah_ReadFile sample_host ''/proc/cpuinfo'' of
      Inr info \<Rightarrow> length (filter is_processor (Split_lines info)) = 2 | Inl _ \<Rightarrow> False" by code_simp
  obtain info avg where "ah_ReadFile sample_host ''/proc/cpuinfo'' = Inr info" "getLoadAverage sample_host = Inr avg"
    "load = fl (avg / fl (of_nat (length (filter is_processor (Split_lines info)))))"
    using load_end_to_end [OF run_result [OF ok] agent_cluster_http(2)] by blast
  then show ?thesis using ok two by simp
qed

end
