(* ===== verification/Agent_Servers.thy ===== *)
theory Agent_Servers
  imports Agents Node_Actions
begin

text \<open>
  The agents as HTTP servers: from the URL the controller builds, through the route the agent's
  \<^verbatim>\<open>main\<close> registers, to its handler; and what this makes of a shutdown, of a measured load and of
  a MAC address from its discovery to the magic packet.
\<close>

section \<open>URLs\<close>

text \<open>
  The parts of \<^verbatim>\<open>net/url\<close> a request goes through, for \<^verbatim>\<open>http\<close> URLs: the fragment is cut, then the
  query, then the authority; the path and the query's keys and values are unescaped.
\<close>

definition url_body :: "string \<Rightarrow> string" where
  "url_body url = drop 7 (takeWhile (\<lambda>c. c \<noteq> CHR ''#'') url)"

definition url_RawQuery :: "string \<Rightarrow> string" where
  "url_RawQuery url = drop 1 (dropWhile (\<lambda>c. c \<noteq> CHR ''?'') (url_body url))"

text \<open>\<^verbatim>\<open>unescape\<close>; \<open>query\<close> is the mode for query components, \<open>None\<close> the error of a bad escape.\<close>

fun unescape :: "bool \<Rightarrow> string \<Rightarrow> string option" where
  "unescape query [] = Some []"
| "unescape query (c # s) =
    (if c = CHR ''%'' then
       (case s of
          a # b # s' \<Rightarrow>
            (case (hex_val a, hex_val b, unescape query s') of
               (Some h, Some l, Some u) \<Rightarrow> Some (char_of (16 * h + l) # u)
             | _ \<Rightarrow> None)
        | _ \<Rightarrow> None)
     else
       (case unescape query s of
          None \<Rightarrow> None
        | Some u \<Rightarrow> Some ((if query \<and> c = CHR ''+'' then CHR '' '' else c) # u)))"

definition url_Path :: "string \<Rightarrow> string option" where
  "url_Path url =
     unescape False (dropWhile (\<lambda>c. c \<noteq> CHR ''/'') (takeWhile (\<lambda>c. c \<noteq> CHR ''?'') (url_body url)))"

text \<open>\<^verbatim>\<open>strings.Split\<close> at a character, \<^verbatim>\<open>url.ParseQuery\<close> and \<^verbatim>\<open>Values.Get\<close>.\<close>

fun Split_at :: "char \<Rightarrow> string \<Rightarrow> string list" where
  "Split_at d [] = [[]]"
| "Split_at d (c # s) =
    (if c = d then [] # Split_at d s
     else case Split_at d s of [] \<Rightarrow> [[c]] | l # ls \<Rightarrow> (c # l) # ls)"

definition query_pair :: "string \<Rightarrow> (string \<times> string) option" where
  "query_pair seg =
    (if CHR '';'' \<in> set seg \<or> seg = [] then None
     else case (unescape True (takeWhile (\<lambda>c. c \<noteq> CHR ''='') seg),
                unescape True (drop 1 (dropWhile (\<lambda>c. c \<noteq> CHR ''='') seg))) of
            (Some k, Some v) \<Rightarrow> Some (k, v)
          | _ \<Rightarrow> None)"

definition ParseQuery :: "string \<Rightarrow> (string \<times> string) list" where
  "ParseQuery q = List.map_filter query_pair (Split_at (CHR ''&'') q)"

definition Query_Get :: "string \<Rightarrow> string \<Rightarrow> string" where
  "Query_Get url key = (case map_of (ParseQuery (url_RawQuery url)) key of Some v \<Rightarrow> v | None \<Rightarrow> [])"

section \<open>The servers\<close>

text \<open>
  The default mux: the handler registered under the path. What the library itself answers to
  any other path or to a URL that does not parse is the parameter \<open>other\<close>.
\<close>

definition serve_mux :: "(string \<times> 'h) list \<Rightarrow> (string \<Rightarrow> 'h) \<Rightarrow> string \<Rightarrow> 'h" where
  "serve_mux routes other url =
    (case url_Path url of
       None \<Rightarrow> other url
     | Some path \<Rightarrow> (case map_of routes path of Some h \<Rightarrow> h | None \<Rightarrow> other url))"

type_synonym answers = "string \<Rightarrow> http_resp agent"

definition poweroff_server :: "answers \<Rightarrow> host_socket \<Rightarrow> agent_host \<Rightarrow> string \<Rightarrow> string \<Rightarrow> http_resp agent" where
  "poweroff_server other so host meth url =
     serve_mux [(''/shutdown'', shutdownHandler so meth), (''/mac'', ret (macHandler host))] other url"

definition wol_server :: "answers \<Rightarrow> udp_host \<Rightarrow> string \<Rightarrow> http_resp agent" where
  "wol_server other u url =
     serve_mux [(''/wake'', wakeHandler u (Query_Get url ''mac'') (Query_Get url ''broadcast''))] other url"

definition load_server :: "answers \<Rightarrow> agent_host \<Rightarrow> string \<Rightarrow> http_resp agent" where
  "load_server other host url = serve_mux [(''/load'', ret (loadHandler host))] other url"

section \<open>The controller's URLs\<close>

text \<open>Text that stands for itself in every part of a URL.\<close>

definition plain_char :: "char \<Rightarrow> bool" where
  "plain_char c \<longleftrightarrow> c \<notin> set ''/?#%&;=+''"

abbreviation plain :: "string \<Rightarrow> bool" where
  "plain s \<equiv> list_all plain_char s"

lemma plain_unescape: "plain s \<Longrightarrow> unescape b s = Some s"
  by (induction s) (auto simp: plain_char_def)

lemma plain_not_in:
  assumes "plain s"
  shows "CHR ''/'' \<notin> set s" "CHR ''?'' \<notin> set s" "CHR ''#'' \<notin> set s" "CHR ''&'' \<notin> set s"
    "CHR '';'' \<notin> set s" "CHR ''='' \<notin> set s"
  using assms by (auto simp: list_all_iff plain_char_def)

lemma plain_digit: "0 \<le> k \<Longrightarrow> k < 10 \<Longrightarrow> plain_char (char_of (48 + k :: int))"
proof -
  assume "0 \<le> k" "k < 10"
  then have "k \<in> set [0..9]" by simp
  moreover have "\<forall>k \<in> set [0..9]. plain_char (char_of (48 + k :: int))" by code_simp
  ultimately show ?thesis by blast
qed

lemma plain_show_pos: "0 \<le> n \<Longrightarrow> plain (show_pos n)"
proof (induction n rule: show_pos.induct)
  case (1 n)
  then show ?case by (subst show_pos.simps) (auto intro: plain_digit)
qed

lemma plain_show_int: "plain (show_int k)"
  by (auto simp: show_int_def plain_show_pos) (simp add: plain_char_def)

lemma plain_authority: "plain ip \<Longrightarrow> plain (ip @ '':'' @ show_int port)"
  using plain_show_int [of port] by (simp add: plain_char_def)

lemma agent_url:
  assumes "plain auth" and "plain path" and "rest = [] \<or> hd rest = CHR ''?''" and "CHR ''#'' \<notin> set rest"
  shows "url_Path (''http://'' @ auth @ ''/'' @ path @ rest) = Some (''/'' @ path)"
    and "url_RawQuery (''http://'' @ auth @ ''/'' @ path @ rest) = drop 1 rest"
proof -
  note no = plain_not_in [OF assms(1)] plain_not_in [OF assms(2)]
  have body: "url_body (''http://'' @ auth @ ''/'' @ path @ rest) = auth @ ''/'' @ path @ rest"
  proof -
    have "CHR ''#'' \<notin> set (''http://'' @ auth @ ''/'' @ path @ rest)" using no assms(4) by simp
    then have "takeWhile (\<lambda>c. c \<noteq> CHR ''#'') (''http://'' @ auth @ ''/'' @ path @ rest) =
        ''http://'' @ auth @ ''/'' @ path @ rest"
      by (subst takeWhile_eq_all_conv) blast
    then show ?thesis by (simp add: url_body_def)
  qed
  have cut: "takeWhile (\<lambda>c. c \<noteq> CHR ''?'') (xs @ rest) = xs" "dropWhile (\<lambda>c. c \<noteq> CHR ''?'') (xs @ rest) = rest"
    if "CHR ''?'' \<notin> set xs" for xs
    using that assms(3) by (cases rest; auto simp: takeWhile_append2 takeWhile_append dropWhile_append2 dropWhile_append)+
  have q: "CHR ''?'' \<notin> set (auth @ ''/'' @ path)" using no by simp
  have slash: "dropWhile (\<lambda>c. c \<noteq> CHR ''/'') (auth @ ''/'' @ path) = ''/'' @ path"
    using no by (subst dropWhile_append2) auto
  have "unescape False (''/'' @ path) = Some (''/'' @ path)"
    using plain_unescape [OF assms(2)] by simp
  then show "url_Path (''http://'' @ auth @ ''/'' @ path @ rest) = Some (''/'' @ path)"
    using cut(1) [OF q] slash by (simp add: url_Path_def body [simplified])
  show "url_RawQuery (''http://'' @ auth @ ''/'' @ path @ rest) = drop 1 rest"
    using cut(2) [OF q] by (simp add: url_RawQuery_def body [simplified])
qed

lemma Split_at_plain: "d \<notin> set s \<Longrightarrow> Split_at d s = [s]"
  by (induction s) auto

lemma Split_at_append: "d \<notin> set s \<Longrightarrow> Split_at d (s @ d # t) = s # Split_at d t"
  by (induction s) auto

lemma cut_at:
  "c \<notin> set s \<Longrightarrow> takeWhile (\<lambda>x. x \<noteq> c) (s @ c # t) = s"
  "c \<notin> set s \<Longrightarrow> dropWhile (\<lambda>x. x \<noteq> c) (s @ c # t) = c # t"
  by (induction s) auto

lemma query_pair_plain:
  assumes "plain k" and "plain v"
  shows "query_pair (k @ ''='' @ v) = Some (k, v)"
proof -
  note no = plain_not_in [OF assms(1)] plain_not_in [OF assms(2)]
  have "takeWhile (\<lambda>c. c \<noteq> CHR ''='') (k @ ''='' @ v) = k" "dropWhile (\<lambda>c. c \<noteq> CHR ''='') (k @ ''='' @ v) = ''='' @ v"
    using no cut_at [of "CHR ''=''" k v] by simp_all
  then show ?thesis
    using no plain_unescape [OF assms(1)] plain_unescape [OF assms(2)] by (simp add: query_pair_def)
qed

lemma wake_query:
  assumes "plain ip" and "plain mac" and "plain (wol_BroadcastAddr w)"
  shows "url_Path (wake_url w ip mac) = Some ''/wake''"
    and "Query_Get (wake_url w ip mac) ''mac'' = mac"
    and "Query_Get (wake_url w ip mac) ''broadcast'' = wol_BroadcastAddr w"
proof -
  let ?b = "wol_BroadcastAddr w"
  let ?rest = "''?mac='' @ mac @ ''&broadcast='' @ ?b"
  note no = plain_not_in [OF assms(2)] plain_not_in [OF assms(3)]
  have url: "wake_url w ip mac = ''http://'' @ ip @ '':'' @ show_int (wol_Port w) @ ''/'' @ ''wake'' @ ?rest"
    by (simp add: wake_url_def)
  have "plain ''wake''" "CHR ''#'' \<notin> set ?rest" using no by (simp_all add: plain_char_def)
  note parts = agent_url [OF plain_authority [OF assms(1), of "wol_Port w"] this(1) _ this(2)]
  show "url_Path (wake_url w ip mac) = Some ''/wake''" using parts(1) url by simp
  have "ParseQuery (url_RawQuery (wake_url w ip mac)) = [(''mac'', mac), (''broadcast'', ?b)]"
  proof -
    have split: "Split_at (CHR ''&'') (''mac='' @ mac @ ''&broadcast='' @ ?b) = [''mac='' @ mac, ''broadcast='' @ ?b]"
      using no Split_at_append [of "CHR ''&''" "''mac='' @ mac" "''broadcast='' @ ?b"]
        Split_at_plain [of "CHR ''&''" "''broadcast='' @ ?b"] by simp
    have "query_pair (''mac='' @ mac) = Some (''mac'', mac)" "query_pair (''broadcast='' @ ?b) = Some (''broadcast'', ?b)"
      using query_pair_plain [of "''mac''" mac] query_pair_plain [of "''broadcast''" ?b] assms(2,3)
      by (simp_all add: plain_char_def)
    then show ?thesis using split parts(2) url by (simp add: ParseQuery_def map_filter_simps)
  qed
  then show "Query_Get (wake_url w ip mac) ''mac'' = mac" "Query_Get (wake_url w ip mac) ''broadcast'' = ?b"
    by (simp_all add: Query_Get_def)
qed

lemma agent_paths:
  assumes "plain ip"
  shows "url_Path (shutdown_url ip port) = Some ''/shutdown''" "url_Path (load_url ip port) = Some ''/load''"
    "url_Path (mac_url ip port) = Some ''/mac''"
  using agent_url(1) [OF plain_authority [OF assms], of "''shutdown''" "[]" port]
    agent_url(1) [OF plain_authority [OF assms], of "''load''" "[]" port]
    agent_url(1) [OF plain_authority [OF assms], of "''mac''" "[]" port] agent_url(1) [OF assms, of "''mac''" "[]"]
  by (simp_all add: shutdown_url_def load_url_def mac_url_def plain_char_def)

section \<open>From the controller to the machine\<close>

text \<open>The pods of the listings made on the way have an address that is plain text.\<close>

definition plain_pods :: "call list \<Rightarrow> bool" where
  "plain_pods cs \<longleftrightarrow> (\<forall>q pods p. CListPods q (Inr pods) \<in> set cs \<longrightarrow> p \<in> set pods \<longrightarrow> plain (pod_PodIP p))"

lemma plain_podsD: "plain_pods cs \<Longrightarrow> CListPods q (Inr pods) \<in> set cs \<Longrightarrow> p \<in> set pods \<Longrightarrow> plain (pod_PodIP p)"
  by (auto simp: plain_pods_def)

lemma served:
  "plain ip \<Longrightarrow> poweroff_server other so host meth (shutdown_url ip port) = shutdownHandler so meth"
  "plain ip \<Longrightarrow> poweroff_server other so host meth (mac_url ip port) = ret (macHandler host)"
  "plain ip \<Longrightarrow> load_server other host (load_url ip port) = ret (loadHandler host)"
  "plain ip \<Longrightarrow> plain mac \<Longrightarrow> plain (wol_BroadcastAddr w) \<Longrightarrow>
     wol_server other u (wake_url w ip mac) = wakeHandler u mac (wol_BroadcastAddr w)"
  by (simp_all add: poweroff_server_def load_server_def wol_server_def serve_mux_def agent_paths wake_query)

lemma plain_hex_digit: "k < 16 \<Longrightarrow> plain_char (hex_digit k)"
proof -
  have "\<forall>k < 16. plain_char (hex_digit k)" by code_simp
  then show "k < 16 \<Longrightarrow> plain_char (hex_digit k)" by blast
qed

lemma plain_MAC_String: "plain (MAC_String bs)"
  by (induction bs rule: MAC_String.induct) (auto simp: hex_byte_def plain_hex_digit nibbles; simp add: plain_char_def)+

text \<open>
  Nor does it need escaping in JSON: the agent of the repository answers the MAC updater with
  addresses that are plain in the sense of \<open>plain_macs\<close>.
\<close>

lemma macHandler_plain:
  assumes "resp_mac (macHandler m) = Some mac"
  shows "list_all json_plain mac"
proof -
  have digit: "json_plain (hex_digit k)" if "k < 16" for k
  proof -
    have "\<forall>k < 16. json_plain (hex_digit k)" by code_simp
    then show ?thesis using that by blast
  qed
  have "list_all json_plain (MAC_String bs)" for bs
    by (induction bs rule: MAC_String.induct)
      (auto simp: hex_byte_def digit nibbles; simp add: json_plain_def byte_def)+
  moreover have "mac = [] \<or> (\<exists>hw. mac = MAC_String hw)"
    using assms by (auto simp: macHandler_def findMainInterfaceAndMAC_def http_Error_def Let_def split: sum.splits if_splits option.splits)
  ultimately show ?thesis by auto
qed

text \<open>The wake agent sends only for an address it can parse, and then the packet of that address.\<close>

lemma wakeHandler_200:
  assumes "resp_Status (fst (run_state (wakeHandler u mac bcast) h)) = 200"
  shows "\<exists>hw. ParseMAC mac = Some hw \<and> snd (run_state (wakeHandler u mac bcast) h) =
    Udp_sent (magic_packet hw) # Udp_dialled (uh_ParseIP u bcast) 9 # h"
  using assms
  by (auto simp: wakeHandler_def sendMagicPacket_def emit_def http_Error_def Let_def split: option.splits if_splits)

lemma ParseMAC_String_inverse:
  assumes "ParseMAC (MAC_String hw) = Some bs" shows "bs = hw"
proof -
  have "hw \<noteq> []" using assms by (auto simp: ParseMAC_def)
  then have len: "length (MAC_String hw) + 1 = 3 * length hw" by (rule length_MAC_String)
  have "\<not> length (MAC_String hw) < 14" using assms by (auto simp: ParseMAC_def split: if_splits)
  then have "2 \<le> length hw" using len by simp
  then have "length hw \<in> {6, 8, 20}"
    using assms len MAC_String_colon [of hw] by (auto simp: ParseMAC_def Let_def split: if_splits)
  then show ?thesis using assms ParseMAC_String by simp
qed

text \<open>C38: when the controller's HTTP shutdown reports success outside dry-run and its URLs reach the shutdown
  agents, the request has gone through the agent's route for \<^verbatim>\<open>/shutdown\<close> on a pod of that node, and the
  host behind it has accepted the shutdown.\<close>

theorem shutdown_reaches_host:
  assumes "run_state (ShutdownHTTP E c node) s = (None, t)" and "\<not> sh_DryRun c" and "plain_pods (hist t)"
    and "\<And>h url. env_Http E h ''POST'' url =
      Inr (fst (run_state (poweroff_server other (so url) (host url) ''POST'' url) []))"
  shows "\<exists>q pods p. CListPods q (Inr pods) \<in> set (hist t) \<and> p \<in> set pods \<and> pod_NodeName p = node \<and>
    accepts (so (shutdown_url (pod_PodIP p) (sh_Port c)))"
proof -
  obtain q pods p resp where h: "hist t = CHttp ''POST'' (shutdown_url (pod_PodIP p) (sh_Port c)) (Inr resp) #
      CListPods (PodsLabelled (sh_Namespace c) q) (Inr pods) # hist s"
    and p: "p \<in> set pods" "pod_NodeName p = node" and ok: "resp_Status resp = 200"
    and resp: "env_Http E (CListPods (PodsLabelled (sh_Namespace c) q) (Inr pods) # hist s) ''POST''
      (shutdown_url (pod_PodIP p) (sh_Port c)) = Inr resp"
    using http_shutdown_sent [OF assms(1,2)] by blast
  have "plain (pod_PodIP p)" using plain_podsD [OF assms(3) _ p(1)] h by auto
  then have "resp = fst (run_state (shutdownHandler (so (shutdown_url (pod_PodIP p) (sh_Port c))) ''POST'') [])"
    using resp unfolding assms(4) by (simp add: served)
  then have "accepts (so (shutdown_url (pod_PodIP p) (sh_Port c)))"
    using ok shutdownHandler_status by blast
  then show ?thesis using h p by auto
qed

text \<open>C39: a machine is woken with the address it reported. When the updater has fetched a MAC address from the agent
  on a machine and a wake request for that address succeeds, the agent's address is the hardware address of
  the machine's main interface, and the wake agent has sent one datagram to port 9 of the
  configured broadcast address: six bytes \<open>0xFF\<close> and sixteen copies of that hardware address.\<close>

theorem discovery_to_wake:
  assumes "run_state (FetchMACFromDaemon E ip port) s = (Inr mac, t)" and "plain ip"
    and "\<And>h url. env_Http E h ''GET'' url =
      Inr (fst (run_state (poweroff_server other (so url) (host url) ''GET'' url) []))"
    and "run_state (sendWOLRequest E' w wip mac) s' = (None, t')" and "plain wip" and "plain (wol_BroadcastAddr w)"
    and "\<And>h url. env_Http E' h ''POST'' url = Inr (fst (run_state (wol_server other' (u url) url) []))"
  shows "\<exists>iface hw. findMainInterfaceAndMAC (host (mac_url ip port)) = Inr (iface, mac) \<and>
    ah_Interface (host (mac_url ip port)) iface = Inr (Some hw) \<and> mac = MAC_String hw \<and>
    snd (run_state (wol_server other' (u (wake_url w wip mac)) (wake_url w wip mac)) []) =
      [Udp_sent (magic_packet hw), Udp_dialled (uh_ParseIP (u (wake_url w wip mac)) (wol_BroadcastAddr w)) 9]"
proof -
  let ?host = "host (mac_url ip port)" and ?u = "u (wake_url w wip mac)"
  obtain resp where "env_Http E (hist s) ''GET'' (mac_url ip port) = Inr resp" "resp_mac resp = Some mac"
    using assms(1)
    by (auto simp: FetchMACFromDaemon_def Http_def mac_url_def Let_def split: sum.splits option.splits if_splits)
  then have "resp_mac (macHandler ?host) = Some mac" unfolding assms(3) by (simp add: served assms(2))
  then obtain iface where found: "findMainInterfaceAndMAC ?host = Inr (iface, mac)"
    by (auto simp: macHandler_def http_Error_def split: sum.splits)
  then obtain hw where hw: "ah_Interface ?host iface = Inr (Some hw)" "mac = MAC_String hw"
    by (auto simp: findMainInterfaceAndMAC_def Let_def split: sum.splits if_splits option.splits)
  have plain: "plain mac" unfolding hw(2) by (rule plain_MAC_String)
  obtain resp' where "env_Http E' (hist s') ''POST'' (wake_url w wip mac) = Inr resp'" "resp_Status resp' = 200"
    using assms(4) by (auto simp: sendWOLRequest_def Http_def split: sum.splits if_splits)
  then have "resp_Status (fst (run_state (wakeHandler ?u mac (wol_BroadcastAddr w)) [])) = 200"
    unfolding assms(7) using served(4) [OF assms(5) plain assms(6)] by simp
  from wakeHandler_200 [OF this] obtain bs where "ParseMAC mac = Some bs"
    "snd (run_state (wakeHandler ?u mac (wol_BroadcastAddr w)) []) =
      [Udp_sent (magic_packet bs), Udp_dialled (uh_ParseIP ?u (wol_BroadcastAddr w)) 9]" by blast
  moreover have "bs = hw" using calculation(1) ParseMAC_String_inverse unfolding hw(2) by blast
  ultimately show ?thesis using found hw served(4) [OF assms(5) plain assms(6)] by simp
qed

text \<open>
  The layout of \<^verbatim>\<open>/proc/loadavg\<close>: the averages over 1, 5 and 15 minutes come first, with white space
  between them.
\<close>

definition word_text :: "string \<Rightarrow> bool" where
  "word_text s \<longleftrightarrow> s \<noteq> [] \<and> list_all (\<lambda>c. \<not> is_space c) s"

definition loadavg_text :: "string \<Rightarrow> string \<Rightarrow> string \<Rightarrow> string \<Rightarrow> bool" where
  "loadavg_text text one five fifteen \<longleftrightarrow>
     (\<exists>w0 w1 w2 rest. text = w0 @ one @ w1 @ five @ w2 @ fifteen @ rest \<and>
        word_text one \<and> word_text five \<and> word_text fifteen \<and>
        list_all is_space w0 \<and> list_all is_space w1 \<and> list_all is_space w2 \<and> w1 \<noteq> [] \<and> w2 \<noteq> [] \<and>
        (rest = [] \<or> is_space (hd rest)))"

lemma Fields_Cons:
  assumes "Fields s = x # xs"
  shows "\<exists>w rest. s = w @ x @ rest \<and> list_all is_space w \<and> word_text x \<and> (rest = [] \<or> is_space (hd rest)) \<and> Fields rest = xs"
proof -
  let ?s = "dropWhile is_space s"
  have eq: "Fields s = (if ?s = [] then [] else takeWhile (\<lambda>c. \<not> is_space c) ?s # Fields (dropWhile (\<lambda>c. \<not> is_space c) ?s))"
    by (subst Fields.simps) (simp add: Let_def)
  have ne: "?s \<noteq> []" using assms eq by (simp split: if_splits)
  then have x: "x = takeWhile (\<lambda>c. \<not> is_space c) ?s" "xs = Fields (dropWhile (\<lambda>c. \<not> is_space c) ?s)"
    using assms eq by (auto split: if_splits)
  have "s = takeWhile is_space s @ x @ dropWhile (\<lambda>c. \<not> is_space c) ?s" by (simp add: x(1))
  moreover have "list_all is_space (takeWhile is_space s)" by (auto simp: list_all_iff dest: set_takeWhileD)
  moreover have "word_text x"
    using ne hd_dropWhile [OF ne] unfolding word_text_def x(1)
    by (auto simp: list_all_iff takeWhile_eq_Nil_iff dest: set_takeWhileD)
  moreover have "dropWhile (\<lambda>c. \<not> is_space c) ?s = [] \<or> is_space (hd (dropWhile (\<lambda>c. \<not> is_space c) ?s))"
    using hd_dropWhile [of "\<lambda>c. \<not> is_space c" ?s] by blast
  ultimately show ?thesis using x(2) by blast
qed

lemma Fields_append:
  assumes "list_all is_space w" and "word_text x" and "rest = [] \<or> is_space (hd rest)"
  shows "Fields (w @ x @ rest) = x # Fields rest"
proof -
  obtain c cs where x: "x = c # cs" "\<not> is_space c" using assms(2) by (cases x) (auto simp: word_text_def)
  have "dropWhile is_space (w @ x @ rest) = x @ rest"
    using assms(1) x by (simp add: dropWhile_append2 list_all_iff)
  moreover have "takeWhile (\<lambda>c. \<not> is_space c) (x @ rest) = x" "dropWhile (\<lambda>c. \<not> is_space c) (x @ rest) = rest"
    using assms(2,3) by (cases rest; simp add: word_text_def list_all_iff takeWhile_append2 dropWhile_append2)+
  ultimately show ?thesis using x(1) by (subst Fields.simps) (simp add: Let_def)
qed

lemma loadavg_text_iff:
  "loadavg_text text one five fifteen \<longleftrightarrow> (\<exists>more. Fields text = one # five # fifteen # more)"
proof
  assume "loadavg_text text one five fifteen"
  then obtain w0 w1 w2 rest where layout: "text = w0 @ one @ w1 @ five @ w2 @ fifteen @ rest"
    and "word_text one" "word_text five" "word_text fifteen" "list_all is_space w0" "list_all is_space w1"
      "list_all is_space w2" "w1 \<noteq> []" "w2 \<noteq> []" "rest = [] \<or> is_space (hd rest)"
    unfolding loadavg_text_def by blast
  then have "Fields text = one # five # fifteen # Fields rest"
    unfolding layout by (subst Fields_append; (simp add: Fields_append hd_append list_all_iff)?)+
  then show "\<exists>more. Fields text = one # five # fifteen # more" by blast
next
  assume "\<exists>more. Fields text = one # five # fifteen # more"
  then obtain more where fields: "Fields text = one # five # fifteen # more" by blast
  obtain w0 r0 where 0: "text = w0 @ one @ r0" "list_all is_space w0" "word_text one" "r0 = [] \<or> is_space (hd r0)"
    and f0: "Fields r0 = five # fifteen # more" using Fields_Cons [OF fields] by blast
  obtain w1 r1 where 1: "r0 = w1 @ five @ r1" "list_all is_space w1" "word_text five" "r1 = [] \<or> is_space (hd r1)"
    and f1: "Fields r1 = fifteen # more" using Fields_Cons [OF f0] by blast
  obtain w2 r2 where 2: "r1 = w2 @ fifteen @ r2" "list_all is_space w2" "word_text fifteen" "r2 = [] \<or> is_space (hd r2)"
    using Fields_Cons [OF f1] by blast
  have "w1 \<noteq> []" "w2 \<noteq> []"
    using 0(4) 1 2 by (auto simp: word_text_def list_all_iff hd_append split: if_splits)
  then show "loadavg_text text one five fifteen" unfolding loadavg_text_def using 0 1 2 by blast
qed

lemma getLoadAverage_fifteen:
  assumes "getLoadAverage m = Inr avg"
  shows "\<exists>text one five fifteen. ah_ReadFile m ''/proc/loadavg'' = Inr text \<and>
    loadavg_text text one five fifteen \<and> ah_ParseFloat m fifteen = Inr avg"
proof -
  obtain averages where read: "ah_ReadFile m ''/proc/loadavg'' = Inr averages" "\<not> length (Fields averages) < 3"
    "ah_ParseFloat m (Fields averages ! 2) = Inr avg"
    using assms by (auto simp: getLoadAverage_def Let_def split: sum.splits if_splits)
  obtain one five fifteen more where "Fields averages = one # five # fifteen # more"
    using read(2) by (metis (no_types) One_nat_def Suc_le_length_iff not_less numeral_3_eq_3)
  then show ?thesis using read unfolding loadavg_text_iff by auto
qed

text \<open>C40: when the controller's URLs reach the load agents, the normalised load it fetches for a node is the
  15-minute average of the machine behind a metrics pod of that node, which is the third number of
  the text of its \<^verbatim>\<open>/proc/loadavg\<close>, divided by the number of \<^verbatim>\<open>processor\<close> lines of its
  \<^verbatim>\<open>/proc/cpuinfo\<close>, which is not zero.\<close>

theorem load_of_machine:
  assumes "run_state (FetchNormalizedLoad E u name) s = (Inr load, t)" and "plain_pods (hist t)"
    and "\<And>h url. env_Http E h ''GET'' url = Inr (fst (run_state (load_server other (host url) url) []))"
  shows "\<exists>q pods p text averages one five fifteen avg. CListPods q (Inr pods) \<in> set (hist t) \<and> p \<in> set pods \<and>
    pod_NodeName p = name \<and>
    ah_ReadFile (host (load_url (pod_PodIP p) (u_HTTPPort u))) ''/proc/cpuinfo'' = Inr text \<and>
    filter is_processor (Split_lines text) \<noteq> [] \<and>
    ah_ReadFile (host (load_url (pod_PodIP p) (u_HTTPPort u))) ''/proc/loadavg'' = Inr averages \<and>
    loadavg_text averages one five fifteen \<and>
    ah_ParseFloat (host (load_url (pod_PodIP p) (u_HTTPPort u))) fifteen = Inr avg \<and>
    load = fl (avg / fl (of_nat (length (filter is_processor (Split_lines text)))))"
proof -
  obtain p q pods resp load15 cpus where h: "hist t = CHttp ''GET'' (load_url (pod_PodIP p) (u_HTTPPort u)) (Inr resp) #
      CListPods q (Inr pods) # hist s" and p: "p \<in> set pods" "pod_NodeName p = name"
    and resp: "env_Http E (CListPods q (Inr pods) # hist s) ''GET'' (load_url (pod_PodIP p) (u_HTTPPort u)) = Inr resp"
    and load: "resp_load resp = Some (load15, cpus)" "cpus \<noteq> 0" "load = fl (load15 / fl (of_int cpus))"
    using FetchNormalizedLoad_pod [OF assms(1)] by blast
  have "plain (pod_PodIP p)" using plain_podsD [OF assms(2) _ p(1)] h by auto
  then have "resp = loadHandler (host (load_url (pod_PodIP p) (u_HTTPPort u)))"
    using resp unfolding assms(3) by (simp add: served)
  from loadHandler_load [OF load(1) [unfolded this]] obtain info where
    cpu: "ah_ReadFile (host (load_url (pod_PodIP p) (u_HTTPPort u))) ''/proc/cpuinfo'' = Inr info"
      "cpus = int (length (filter is_processor (Split_lines info)))"
    and avg: "getLoadAverage (host (load_url (pod_PodIP p) (u_HTTPPort u))) = Inr load15" by blast
  from getLoadAverage_fifteen [OF avg] obtain averages one five fifteen where
    "ah_ReadFile (host (load_url (pod_PodIP p) (u_HTTPPort u))) ''/proc/loadavg'' = Inr averages"
    "loadavg_text averages one five fifteen"
    "ah_ParseFloat (host (load_url (pod_PodIP p) (u_HTTPPort u))) fifteen = Inr load15" by blast
  moreover have "CListPods q (Inr pods) \<in> set (hist t)" using h by simp
  moreover have "filter is_processor (Split_lines info) \<noteq> []" using cpu(2) load(2) by auto
  moreover have "load = fl (load15 / fl (of_nat (length (filter is_processor (Split_lines info)))))"
    using load(3) cpu(2) by simp
  ultimately show ?thesis using p cpu(1) by blast
qed

section \<open>A served cluster\<close>

definition not_found :: answers where
  "not_found url = ret (http_Error ''404 page not found'' 404)"

definition routed_host :: agent_host where
  "routed_host = \<lparr>ah_ReadFile = (\<lambda>_. Inr (''Iface Destination'' @ [newline] @ ''eth0 00000000 0'')),
     ah_Interface = (\<lambda>_. Inr (Some [0x52, 0x54, 0, 0x12, 0x34, 0x5f])), ah_ParseFloat = (\<lambda>_. Inr 0)\<rparr>"

definition udp_sink :: udp_host where
  "udp_sink = \<lparr>uh_ParseIP = Some, uh_DialUDP = (\<lambda>_ _. None), uh_Write = (\<lambda>_. None)\<rparr>"

text \<open>The sample cluster whose URLs reach the power-off agents, or the wake agent.\<close>

definition poweroff_cluster :: cluster where
  "poweroff_cluster = sample_cluster\<lparr>cl_http :=
     (\<lambda>meth url. Inr (fst (run_state (poweroff_server not_found willing_socket routed_host meth url) [])))\<rparr>"

definition wol_cluster :: cluster where
  "wol_cluster = sample_cluster\<lparr>cl_http :=
     (\<lambda>meth url. Inr (fst (run_state (wol_server not_found udp_sink url) [])))\<rparr>"

lemma served_http:
  "env_Http (store_env poweroff_cluster) h meth url =
     Inr (fst (run_state (poweroff_server not_found willing_socket routed_host meth url) []))"
  "env_Http (store_env wol_cluster) h meth url = Inr (fst (run_state (wol_server not_found udp_sink url) []))"
  by (simp_all add: store_env_def poweroff_cluster_def wol_cluster_def)

theorem shutdown_reaches_host_witness:
  "fst (run_state (ShutdownHTTP (store_env poweroff_cluster) (shutdown_http_of sample_config) ''n1'') init_sys) = None \<and>
   accepts willing_socket"
proof -
  let ?run = "run_state (ShutdownHTTP (store_env poweroff_cluster) (shutdown_http_of sample_config) ''n1'') init_sys"
  have ok: "fst ?run = None" by code_simp
  have "list_all (\<lambda>c. case c of CListPods q (Inr pods) \<Rightarrow> list_all (\<lambda>p. plain (pod_PodIP p)) pods | _ \<Rightarrow> True) (hist (snd ?run))"
    by code_simp
  then have "plain_pods (hist (snd ?run))"
    unfolding plain_pods_def list_all_iff by force
  moreover have "\<not> sh_DryRun (shutdown_http_of sample_config)" by (simp add: shutdown_http_of_def sample_config_def)
  ultimately show ?thesis using shutdown_reaches_host [OF run_result [OF ok] _ _ served_http(1)] ok by blast
qed

theorem discovery_to_wake_witness:
  "\<exists>mac. fst (run_state (FetchMACFromDaemon (store_env poweroff_cluster) ''10.0.0.7'' 9101) init_sys) = Inr mac \<and>
     snd (run_state (wol_server not_found udp_sink (wake_url (wake_on_lan_of sample_config) ''10.0.0.8'' mac)) []) =
       [Udp_sent (magic_packet [0x52, 0x54, 0, 0x12, 0x34, 0x5f]), Udp_dialled (Some ''255.255.255.255'') 9]"
proof -
  let ?w = "wake_on_lan_of sample_config" and ?mac = "''52:54:00:12:34:5f''"
  let ?fetch = "run_state (FetchMACFromDaemon (store_env poweroff_cluster) ''10.0.0.7'' 9101) init_sys"
  let ?wake = "run_state (sendWOLRequest (store_env wol_cluster) ?w ''10.0.0.8'' ?mac) init_sys"
  have ok: "fst ?fetch = Inr ?mac" "fst ?wake = None" by code_simp+
  have bcast: "wol_BroadcastAddr ?w = ''255.255.255.255''" by (simp add: wake_on_lan_of_def sample_config_def)
  have plain: "plain ''10.0.0.7''" "plain ''10.0.0.8''" "plain (wol_BroadcastAddr ?w)"
    by (simp_all add: bcast plain_char_def)
  obtain iface hw where "ah_Interface routed_host iface = Inr (Some hw)"
    "snd (run_state (wol_server not_found udp_sink (wake_url ?w ''10.0.0.8'' ?mac)) []) =
      [Udp_sent (magic_packet hw), Udp_dialled (uh_ParseIP udp_sink (wol_BroadcastAddr ?w)) 9]"
    using discovery_to_wake [OF run_result [OF ok(1)] plain(1) served_http(1) run_result [OF ok(2)] plain(2,3) served_http(2)]
    by blast
  then show ?thesis using ok(1) bcast by (auto simp: routed_host_def udp_sink_def)
qed

definition load_cluster :: cluster where
  "load_cluster = sample_cluster\<lparr>cl_http :=
     (\<lambda>meth url. Inr (fst (run_state (load_server not_found sample_host url) [])))\<rparr>"

theorem load_of_machine_witness:
  "fst (run_state (FetchNormalizedLoad (store_env load_cluster) (NewClusterLoadUtils ''default'' ''app=metrics'' 9100 Second)
      ''n2'') init_sys) = Inr (fl (1 / 4 / fl 2))"
proof -
  let ?u = "NewClusterLoadUtils ''default'' ''app=metrics'' 9100 Second"
  let ?run = "run_state (FetchNormalizedLoad (store_env load_cluster) ?u ''n2'') init_sys"
  have "case fst ?run of Inr _ \<Rightarrow> True | Inl _ \<Rightarrow> False" by code_simp
  then obtain load where ok: "fst ?run = Inr load" by (auto split: sum.splits)
  have two: "case ah_ReadFile sample_host ''/proc/cpuinfo'' of
      Inr info \<Rightarrow> length (filter is_processor (Split_lines info)) = 2 | Inl _ \<Rightarrow> False" by code_simp
  have "list_all (\<lambda>c. case c of CListPods q (Inr pods) \<Rightarrow> list_all (\<lambda>p. plain (pod_PodIP p)) pods | _ \<Rightarrow> True) (hist (snd ?run))"
    by code_simp
  then have plain: "plain_pods (hist (snd ?run))" unfolding plain_pods_def list_all_iff by force
  have "env_Http (store_env load_cluster) h ''GET'' url =
      Inr (fst (run_state (load_server not_found sample_host url) []))" for h url
    by (simp add: store_env_def load_cluster_def)
  from load_of_machine [OF run_result [OF ok] plain this] obtain info averages one five fifteen avg where
    machine: "ah_ReadFile sample_host ''/proc/cpuinfo'' = Inr info"
      "ah_ReadFile sample_host ''/proc/loadavg'' = Inr averages" "loadavg_text averages one five fifteen"
      "ah_ParseFloat sample_host fifteen = Inr avg"
      "load = fl (avg / fl (of_nat (length (filter is_processor (Split_lines info)))))"
    by blast
  have "case ah_ReadFile sample_host ''/proc/loadavg'' of
      Inr text \<Rightarrow> take 3 (Fields text) = [''0.52'', ''0.40'', ''0.25''] | Inl _ \<Rightarrow> False" by code_simp
  then have "fifteen = ''0.25''" using machine(2,3) unfolding loadavg_text_iff by auto
  then have avg: "Inr avg = (Inr (1 / 4) :: error + real)" using machine(4) by (simp add: sample_host_def)
  have "load = fl (1 / 4 / fl 2)" using two machine(1,5) avg by (simp only: sum.inject) simp
  then show ?thesis using ok by simp
qed

end
