(* ===== verification/Startup.thy ===== *)
theory Startup
  imports Process Agent_Servers
begin

text \<open>
  How the process comes up: the command line (\<^verbatim>\<open>main.go\<close> over the package \<^verbatim>\<open>flag\<close>), tracing
  (\<^verbatim>\<open>internal/bootstrap/tracing\<close>), the Kubernetes client (\<^verbatim>\<open>pkg/kubeclient\<close>), the configuration, the
  log level and the health endpoints, in the order of \<^verbatim>\<open>main\<close>, with every exit. What the calls into
  the client libraries and the operating system answer is the record \<open>boot_env\<close>.
\<close>

section \<open>The command line\<close>

record flags =
  fl_config :: string
  fl_dry_run :: bool
  fl_node_load :: real
  fl_cluster_load_down :: real
  fl_cluster_load_up :: real

definition default_flags :: flags where
  "default_flags = \<lparr>fl_config = ''./config.yaml'', fl_dry_run = False, fl_node_load = - 1,
     fl_cluster_load_down = - 1, fl_cluster_load_up = - 1\<rparr>"

text \<open>\<^verbatim>\<open>strconv.ParseBool\<close>; \<^verbatim>\<open>ParseFloat\<close> on finite values is the parameter \<open>pf\<close>.\<close>

definition ParseBool :: "string \<Rightarrow> bool option" where
  "ParseBool s =
    (if s \<in> {''1'', ''t'', ''T'', ''TRUE'', ''true'', ''True''} then Some True
     else if s \<in> {''0'', ''f'', ''F'', ''FALSE'', ''false'', ''False''} then Some False else None)"

definition float_flags :: "(string \<times> (real \<Rightarrow> flags \<Rightarrow> flags)) list" where
  "float_flags =
     [(''dry-run-node-load'', \<lambda>v f. f\<lparr>fl_node_load := v\<rparr>),
      (''dry-run-cluster-load-down'', \<lambda>v f. f\<lparr>fl_cluster_load_down := v\<rparr>),
      (''dry-run-cluster-load-up'', \<lambda>v f. f\<lparr>fl_cluster_load_up := v\<rparr>)]"

definition set_flag :: "(string \<Rightarrow> real option) \<Rightarrow> string \<Rightarrow> string \<Rightarrow> flags \<Rightarrow> flags option" where
  "set_flag pf name v f =
    (if name = ''config'' then Some (f\<lparr>fl_config := v\<rparr>)
     else if name = ''dry-run'' then map_option (\<lambda>b. f\<lparr>fl_dry_run := b\<rparr>) (ParseBool v)
     else case map_of float_flags name of
            None \<Rightarrow> None
          | Some upd \<Rightarrow> map_option (\<lambda>r. upd r f) (pf v))"

definition defined_flag :: "string \<Rightarrow> bool" where
  "defined_flag name \<longleftrightarrow> name = ''config'' \<or> name = ''dry-run'' \<or> map_of float_flags name \<noteq> None"

text \<open>
  \<^verbatim>\<open>FlagSet.parseOne\<close> (\<open>parse_one\<close>) until it stops, under \<^verbatim>\<open>ExitOnError\<close>: the left value is the exit status, 0 after
  \<^verbatim>\<open>-h\<close> or \<^verbatim>\<open>-help\<close> and 2 for any error. The name of an argument ends at the first \<^verbatim>\<open>=\<close> that is
  not its first character.
\<close>

definition flag_name :: "string \<Rightarrow> string" where
  "flag_name body = take 1 body @ takeWhile (\<lambda>c. c \<noteq> CHR ''='') (drop 1 body)"

definition flag_value :: "string \<Rightarrow> string option" where
  "flag_value body =
    (case dropWhile (\<lambda>c. c \<noteq> CHR ''='') (drop 1 body) of [] \<Rightarrow> None | _ # v \<Rightarrow> Some v)"

definition flag_body :: "string \<Rightarrow> string option" where
  "flag_body s =
    (if length s < 2 \<or> s ! 0 \<noteq> CHR ''-'' then None
     else if s ! 1 = CHR ''-'' then (if length s = 2 then None else Some (drop 2 s))
     else Some (drop 1 s))"

datatype flag_step = Flag_stop | Flag_exit int | Flag_set flags "string list"

definition parse_value :: "(string \<Rightarrow> real option) \<Rightarrow> string \<Rightarrow> string \<Rightarrow> flags \<Rightarrow> string list \<Rightarrow> flag_step" where
  "parse_value pf name v f args =
    (case set_flag pf name v f of None \<Rightarrow> Flag_exit 2 | Some f' \<Rightarrow> Flag_set f' args)"

definition parse_one :: "(string \<Rightarrow> real option) \<Rightarrow> string \<Rightarrow> string list \<Rightarrow> flags \<Rightarrow> flag_step" where
  "parse_one pf s args f =
    (case flag_body s of
       None \<Rightarrow> Flag_stop
     | Some body \<Rightarrow>
         if body = [] \<or> hd body = CHR ''-'' \<or> hd body = CHR ''='' then Flag_exit 2
         else if \<not> defined_flag (flag_name body) then
           Flag_exit (if flag_name body \<in> {''help'', ''h''} then 0 else 2)
         else
           (case flag_value body of
              Some v \<Rightarrow> parse_value pf (flag_name body) v f args
            | None \<Rightarrow>
                if flag_name body = ''dry-run'' then Flag_set (f\<lparr>fl_dry_run := True\<rparr>) args
                else (case args of [] \<Rightarrow> Flag_exit 2 | v # args' \<Rightarrow> parse_value pf (flag_name body) v f args')))"

lemma parse_one_args:
  assumes "parse_one pf s args f = Flag_set f' args'"
  shows "length args' \<le> length args" and "set args' \<subseteq> set args"
  using assms by (auto simp: parse_one_def parse_value_def split: option.splits if_splits list.splits)

lemma parse_one_exit: "parse_one pf s args f = Flag_exit k \<Longrightarrow> k \<in> {0, 2}"
  by (auto simp: parse_one_def parse_value_def split: option.splits if_splits list.splits)

function parse_flags :: "(string \<Rightarrow> real option) \<Rightarrow> string list \<Rightarrow> flags \<Rightarrow> int + flags" where
  "parse_flags pf [] f = Inr f"
| "parse_flags pf (s # args) f =
    (case parse_one pf s args f of
       Flag_stop \<Rightarrow> Inr f
     | Flag_exit k \<Rightarrow> Inl k
     | Flag_set f' args' \<Rightarrow> parse_flags pf args' f')"
  by pat_completeness auto
termination
  by (relation "measure (\<lambda>(pf, args, f). length args)") (auto dest: parse_one_args(1))

definition flag_Parse :: "(string \<Rightarrow> real option) \<Rightarrow> string list \<Rightarrow> int + flags" where
  "flag_Parse pf args = parse_flags pf args default_flags"

section \<open>Calls made while starting\<close>

text \<open>
  The log of the start-up and what the environment answers to each call, given the calls before it
  (newest first): creating the trace exporter, \<^verbatim>\<open>rest.InClusterConfig\<close>, an environment variable,
  \<^verbatim>\<open>os.Stat\<close> (whether the file is missing), \<^verbatim>\<open>clientcmd.BuildConfigFromFlags\<close>, the two client
  constructors, reading and decoding the configuration file, and stopping the tracer provider.
\<close>

datatype boot_call =
    BExporter
  | BTracerProvider string
  | BProviderShutdown
  | BInCluster
  | BStat string
  | BBuildConfig string
  | BMetricsClient
  | BServe string
  | BReadConfig string
  | BClientset

record 'rc boot_env =
  be_Exporter :: "boot_call list \<Rightarrow> error option"
  be_InCluster :: "boot_call list \<Rightarrow> error + 'rc"
  be_Getenv :: "string \<Rightarrow> string"
  be_Missing :: "boot_call list \<Rightarrow> string \<Rightarrow> bool"
  be_BuildConfig :: "boot_call list \<Rightarrow> string \<Rightarrow> error + 'rc"
  be_MetricsClient :: "boot_call list \<Rightarrow> 'rc \<Rightarrow> error option"
  be_Clientset :: "boot_call list \<Rightarrow> 'rc \<Rightarrow> error option"
  be_ReadConfig :: "boot_call list \<Rightarrow> string \<Rightarrow> string + config"
  be_ParseFloat :: "string \<Rightarrow> real option"
  be_ProviderShutdown :: "boot_call list \<Rightarrow> error option"

type_synonym 'a boot = "(boot_call list, 'a) state"

definition boot :: "(boot_call list \<Rightarrow> 'a) \<Rightarrow> boot_call \<Rightarrow> 'a boot" where
  "boot answer c = State (\<lambda>h. (answer h, c # h))"

lemma run_boot [simp]: "run_state (boot answer c) h = (answer h, c # h)"
  by (simp add: boot_def)

section \<open>Tracing\<close>

definition tracing_Init :: "'rc boot_env \<Rightarrow> string \<Rightarrow> error option boot" where
  "tracing_Init B serviceName = do {
     e \<leftarrow> boot (be_Exporter B) BExporter;
     case e of
       Some err \<Rightarrow> ret (Some err)
     | None \<Rightarrow> do { _ \<leftarrow> boot (\<lambda>_. ()) (BTracerProvider serviceName); ret None }
   }"

text \<open>
  The provider in force is the SDK's when \<open>tracing_Init\<close> has set one, else the library's default,
  which has nothing to shut down. \<^verbatim>\<open>main\<close> defers this call and never gets to it.
\<close>

fun sets_provider :: "boot_call \<Rightarrow> bool" where
  "sets_provider (BTracerProvider serviceName) = True"
| "sets_provider c = False"

definition tracing_Shutdown :: "'rc boot_env \<Rightarrow> error option boot" where
  "tracing_Shutdown B = do {
     h \<leftarrow> State (\<lambda>h. (h, h));
     if list_ex sets_provider h then boot (be_ProviderShutdown B) BProviderShutdown
     else ret None
   }"

text \<open>After a successful \<open>tracing_Init\<close> there is one to shut down; after a failed one there is none.\<close>

lemma tracing_Init_Shutdown:
  assumes "run_state (tracing_Init B serviceName) [] = (e, h)"
  shows "BProviderShutdown \<in> set (snd (run_state (tracing_Shutdown B) h)) \<longleftrightarrow> e = None"
  using assms by (auto simp: tracing_Init_def tracing_Shutdown_def split: option.splits)

section \<open>The Kubernetes client\<close>

text \<open>\<^verbatim>\<open>filepath.Join\<close> on the slash-separated elements: empty ones are dropped, the rest is cleaned.\<close>

fun clean_parts :: "bool \<Rightarrow> string list \<Rightarrow> string list \<Rightarrow> string list" where
  "clean_parts rooted acc [] = rev acc"
| "clean_parts rooted acc (p # ps) =
    (if p = [] \<or> p = ''.'' then clean_parts rooted acc ps
     else if p = ''..'' then
       (case acc of
          [] \<Rightarrow> clean_parts rooted (if rooted then [] else [''..'']) ps
        | a # acc' \<Rightarrow> if a = ''..'' then clean_parts rooted (''..'' # acc) ps else clean_parts rooted acc' ps)
     else clean_parts rooted (p # acc) ps)"

fun join_parts :: "string list \<Rightarrow> string" where
  "join_parts [] = []"
| "join_parts [p] = p"
| "join_parts (p # ps) = p @ ''/'' @ join_parts ps"

definition path_Clean :: "string \<Rightarrow> string" where
  "path_Clean p =
    (let rooted = (p \<noteq> [] \<and> hd p = CHR ''/'');
         body = join_parts (clean_parts rooted [] (Split_at (CHR ''/'') p))
     in if rooted then ''/'' @ body else if body = [] then ''.'' else body)"

definition path_Join :: "string list \<Rightarrow> string" where
  "path_Join es = (let ps = filter (\<lambda>e. e \<noteq> []) es in if ps = [] then [] else path_Clean (join_parts ps))"

definition homeDir :: "'rc boot_env \<Rightarrow> string" where
  "homeDir B = (if be_Getenv B ''HOME'' \<noteq> [] then be_Getenv B ''HOME'' else be_Getenv B ''USERPROFILE'')"

definition kubeconfig_path :: "'rc boot_env \<Rightarrow> string" where
  "kubeconfig_path B = path_Join [homeDir B, ''.kube'', ''config'']"

text \<open>The seam and the call after it both ask for the in-cluster configuration.\<close>

definition GetRestConfig :: "'rc boot_env \<Rightarrow> (error + 'rc) boot" where
  "GetRestConfig B = do {
     c \<leftarrow> boot (be_InCluster B) BInCluster;
     case c of
       Inr cfg \<Rightarrow> ret (Inr cfg)
     | Inl _ \<Rightarrow> do {
         c' \<leftarrow> boot (be_InCluster B) BInCluster;
         case c' of
           Inr cfg \<Rightarrow> ret (Inr cfg)
         | Inl _ \<Rightarrow> do {
             missing \<leftarrow> boot (\<lambda>h. be_Missing B h (kubeconfig_path B)) (BStat (kubeconfig_path B));
             if missing then ret (Inl (Msg ''kubeconfig not found and not running in-cluster''))
             else boot (\<lambda>h. be_BuildConfig B h (kubeconfig_path B)) (BBuildConfig (kubeconfig_path B))
           }
       }
   }"

definition kubeclient_Get :: "'rc boot_env \<Rightarrow> error option boot" where
  "kubeclient_Get B = do {
     c \<leftarrow> GetRestConfig B;
     case c of
       Inl err \<Rightarrow> ret (Some err)
     | Inr config \<Rightarrow> boot (\<lambda>h. be_Clientset B h config) BClientset
   }"

section \<open>The start of the process\<close>

text \<open>Both servers run in goroutines over the default mux; their start is one entry of the log.\<close>

definition metrics_Init :: "unit boot" where
  "metrics_Init = boot (\<lambda>_. ()) (BServe '':9090'')"

definition startHealthEndpoints :: "unit boot" where
  "startHealthEndpoints = boot (\<lambda>_. ()) (BServe '':8080'')"

lemmas serve_defs [simp] = metrics_Init_def startHealthEndpoints_def

datatype log_level = LevelDebug | LevelInfo | LevelWarn | LevelError

definition log_level_of :: "string \<Rightarrow> log_level" where
  "log_level_of s =
    (if s = ''debug'' then LevelDebug else if s = ''warn'' then LevelWarn
     else if s = ''error'' then LevelError else LevelInfo)"

datatype started = Exit int | Started config "reconciler_option list" log_level

text \<open>\<^verbatim>\<open>main\<close> up to the bootstrap cooldown.\<close>

definition main_start :: "'rc boot_env \<Rightarrow> string list \<Rightarrow> started boot" where
  "main_start B args =
    (case flag_Parse (be_ParseFloat B) args of
       Inl status \<Rightarrow> ret (Exit status)
     | Inr f \<Rightarrow> do {
         t \<leftarrow> tracing_Init B ''cluster-bare-autoscaler'';
         case t of
           Some err \<Rightarrow> ret (Exit 1)
         | None \<Rightarrow> do {
             rc \<leftarrow> GetRestConfig B;
             case rc of
               Inl err \<Rightarrow> ret (Exit 1)
             | Inr restConfig \<Rightarrow> do {
                 m \<leftarrow> boot (\<lambda>h. be_MetricsClient B h restConfig) BMetricsClient;
                 case m of
                   Some err \<Rightarrow> ret (Exit 1)
                 | None \<Rightarrow> do {
                     _ \<leftarrow> metrics_Init;
                     d \<leftarrow> boot (\<lambda>h. be_ReadConfig B h (fl_config f)) (BReadConfig (fl_config f));
                     case Load d of
                       Inl err \<Rightarrow> ret (Exit 1)
                     | Inr cfg0 \<Rightarrow> do {
                         let cfg = (if fl_dry_run f then cfg0\<lparr>DryRun := True\<rparr> else cfg0);
                         k \<leftarrow> kubeclient_Get B;
                         case k of
                           Some err \<Rightarrow> ret (Exit 1)
                         | None \<Rightarrow> do {
                             _ \<leftarrow> startHealthEndpoints;
                             ret (Started cfg
                               (override_options (fl_node_load f) (fl_cluster_load_down f) (fl_cluster_load_up f))
                               (log_level_of (LogLevel cfg)))
                           }
                       }
                   }
               }
           }
       })"

section \<open>The health endpoints\<close>

definition health_server :: "answers \<Rightarrow> string \<Rightarrow> http_resp agent" where
  "health_server other url =
    (let ok = ret \<lparr>resp_Status = 200, resp_load = None, resp_mac = None, resp_body = ''ok''\<rparr>
     in serve_mux [(''/readyz'', ok), (''/livez'', ok)] other url)"

section \<open>What the command line can do\<close>

lemma parse_flags_status: "parse_flags pf args f = Inl k \<Longrightarrow> k \<in> {0, 2}"
proof (induction pf args f rule: parse_flags.induct)
  case (2 pf s args f)
  then show ?case by (cases "parse_one pf s args f") (auto dest: parse_one_exit)
qed simp

text \<open>An argument that sets the dry-run flag to a value of its own.\<close>

definition sets_dry_run :: "string \<Rightarrow> bool" where
  "sets_dry_run s =
    (case flag_body s of None \<Rightarrow> False | Some body \<Rightarrow> flag_name body = ''dry-run'' \<and> flag_value body \<noteq> None)"

lemma set_flag_dry_run:
  "set_flag pf name v f = Some f' \<Longrightarrow> name \<noteq> ''dry-run'' \<Longrightarrow> fl_dry_run f' = fl_dry_run f"
  by (auto simp: set_flag_def float_flags_def split: option.splits if_splits)

lemma parse_one_dry_run:
  assumes "parse_one pf s args f = Flag_set f' args'" and "fl_dry_run f" and "\<not> sets_dry_run s"
  shows "fl_dry_run f'"
  using assms
  by (auto simp: parse_one_def parse_value_def sets_dry_run_def set_flag_dry_run
      split: option.splits if_splits list.splits)

lemma parse_flags_dry_run:
  assumes "parse_flags pf args f = Inr f'" and "fl_dry_run f" and "\<forall>s \<in> set args. \<not> sets_dry_run s"
  shows "fl_dry_run f'"
  using assms
proof (induction pf args f rule: parse_flags.induct)
  case (2 pf s args f)
  show ?case
  proof (cases "parse_one pf s args f")
    case (Flag_set g args')
    have "fl_dry_run g" using parse_one_dry_run [OF Flag_set] 2(3,4) by simp
    then show ?thesis using 2 Flag_set parse_one_args(2) [OF Flag_set] by auto
  qed (use 2 in simp_all)
qed simp

lemma flag_Parse_dry_run:
  assumes "flag_Parse pf (''-dry-run'' # rest) = Inr f" and "\<forall>s \<in> set rest. \<not> sets_dry_run s"
  shows "fl_dry_run f"
proof -
  have "flag_body ''-dry-run'' = Some ''dry-run''" "flag_name ''dry-run'' = ''dry-run''"
    "flag_value ''dry-run'' = None" "defined_flag ''dry-run''"
    by (simp_all add: flag_body_def flag_name_def flag_value_def defined_flag_def)
  then have "parse_flags pf rest (default_flags\<lparr>fl_dry_run := True\<rparr>) = Inr f"
    using assms(1) by (simp add: flag_Parse_def parse_one_def)
  then show ?thesis by (rule parse_flags_dry_run) (simp_all add: assms(2))
qed

section \<open>How the start ends\<close>

lemma GetRestConfig_calls:
  assumes "run_state (GetRestConfig B) h = (r, h')"
  shows "\<exists>cs. h' = cs @ h \<and> set cs \<subseteq> {BInCluster, BStat (kubeconfig_path B), BBuildConfig (kubeconfig_path B)}"
  using assms by (auto simp: GetRestConfig_def split: sum.splits if_splits prod.splits)

lemma GetRestConfig_fails:
  "fst (run_state (GetRestConfig B) h) = Inl e \<longleftrightarrow>
     (\<exists>e1 e2. be_InCluster B h = Inl e1 \<and> be_InCluster B (BInCluster # h) = Inl e2) \<and>
     (let h2 = BInCluster # BInCluster # h in
        if be_Missing B h2 (kubeconfig_path B) then e = Msg ''kubeconfig not found and not running in-cluster''
        else be_BuildConfig B (BStat (kubeconfig_path B) # h2) (kubeconfig_path B) = Inl e)"
  by (auto simp: GetRestConfig_def Let_def split: sum.splits if_splits)

lemma kubeclient_Get_calls:
  assumes "run_state (kubeclient_Get B) h = (r, h')"
  shows "\<exists>cs. h' = cs @ h \<and>
    set cs \<subseteq> {BInCluster, BStat (kubeconfig_path B), BBuildConfig (kubeconfig_path B), BClientset} \<and>
    (r = None \<longrightarrow> cs \<noteq> [] \<and> hd cs = BClientset)"
proof -
  obtain c h1 where rest: "run_state (GetRestConfig B) h = (c, h1)" by fastforce
  obtain cs where "h1 = cs @ h" "set cs \<subseteq> {BInCluster, BStat (kubeconfig_path B), BBuildConfig (kubeconfig_path B)}"
    using GetRestConfig_calls [OF rest] by blast
  note cs = this
  show ?thesis
  proof (cases c)
    case (Inl err)
    then show ?thesis using assms rest cs by (auto simp: kubeclient_Get_def intro!: exI [where x = cs])
  next
    case (Inr config)
    then show ?thesis using assms rest cs
      by (auto simp: kubeclient_Get_def intro!: exI [where x = "BClientset # cs"])
  qed
qed

text \<open>
  The calls of a start that succeeds, newest first: \<open>rs\<close> are the calls that found the rest
  configuration, \<open>ks\<close> those of the second time, and \<open>before\<close> the log when the file was read.
\<close>

definition start_log :: "string \<Rightarrow> boot_call list \<Rightarrow> boot_call list \<Rightarrow> boot_call list" where
  "start_log path ks rs = BServe '':8080'' # BClientset # ks @ BReadConfig path # BServe '':9090'' #
     BMetricsClient # rs @ [BTracerProvider ''cluster-bare-autoscaler'', BExporter]"

lemma kubeclient_Get_succeeds:
  assumes "run_state (kubeclient_Get B) h = (None, h')"
  shows "\<exists>ks. h' = BClientset # ks @ h"
  using kubeclient_Get_calls [OF assms] by (metis append_Cons list.collapse)

lemma main_start_flags:
  "flag_Parse (be_ParseFloat B) args = Inl k \<Longrightarrow> run_state (main_start B args) h = (Exit k, h)"
  by (simp add: main_start_def)

lemma no_serve:
  "run_state (GetRestConfig B) h = (r, h') \<Longrightarrow> BServe p \<notin> set h \<Longrightarrow> BServe p \<notin> set h'"
  "run_state (kubeclient_Get B) h = (k, h') \<Longrightarrow> BServe p \<notin> set h \<Longrightarrow> BServe p \<notin> set h'"
  using GetRestConfig_calls [of B h r h'] kubeclient_Get_calls [of B h k h'] by auto

lemma main_start_cases:
  assumes "flag_Parse (be_ParseFloat B) args = Inr f" and "run_state (main_start B args) [] = (x, h)"
  shows "x = Exit 1 \<and> BServe '':8080'' \<notin> set h \<or>
    (\<exists>cfg0 ks rs. Load (be_ReadConfig B (BServe '':9090'' # BMetricsClient # rs @
         [BTracerProvider ''cluster-bare-autoscaler'', BExporter]) (fl_config f)) = Inr cfg0 \<and>
      h = start_log (fl_config f) ks rs \<and>
      x = Started (if fl_dry_run f then cfg0\<lparr>DryRun := True\<rparr> else cfg0)
        (override_options (fl_node_load f) (fl_cluster_load_down f) (fl_cluster_load_up f))
        (log_level_of (LogLevel cfg0)))"
proof -
  let ?h1 = "[BTracerProvider ''cluster-bare-autoscaler'', BExporter]"
  let ?cfg = "\<lambda>cfg0. if fl_dry_run f then cfg0\<lparr>DryRun := True\<rparr> else cfg0"
  obtain rc h2 where rest: "run_state (GetRestConfig B) ?h1 = (rc, h2)" by fastforce
  obtain rs where rs: "h2 = rs @ ?h1" using GetRestConfig_calls [OF rest] by blast
  let ?h3 = "BServe '':9090'' # BMetricsClient # h2"
  let ?d = "Load (be_ReadConfig B ?h3 (fl_config f))"
  obtain k h4 where get: "run_state (kubeclient_Get B) (BReadConfig (fl_config f) # ?h3) = (k, h4)" by fastforce
  note clean = no_serve(1) [OF rest, of "'':8080''"] no_serve(2) [OF get, of "'':8080''"]
  have level: "LogLevel (?cfg cfg0) = LogLevel cfg0" for cfg0 by simp
  consider (fail) "be_Exporter B [] \<noteq> None \<or> (\<exists>e. rc = Inl e) \<or>
      (\<exists>c. rc = Inr c \<and> be_MetricsClient B h2 c \<noteq> None)"
    | (config) c e where "be_Exporter B [] = None" "rc = Inr c" "be_MetricsClient B h2 c = None" "?d = Inl e"
    | (client) c cfg0 where "be_Exporter B [] = None" "rc = Inr c" "be_MetricsClient B h2 c = None" "?d = Inr cfg0"
    by (cases rc; cases ?d) auto
  then show ?thesis
  proof cases
    case fail
    then show ?thesis using assms rest clean
      by (cases "be_Exporter B []"; cases rc) (auto simp: main_start_def tracing_Init_def split: option.splits)
  next
    case config
    then show ?thesis using assms rest clean by (auto simp: main_start_def tracing_Init_def)
  next
    case client
    show ?thesis
    proof (cases k)
      case None
      obtain ks where "h4 = BClientset # ks @ BReadConfig (fl_config f) # ?h3"
        using kubeclient_Get_succeeds get None by blast
      then show ?thesis using assms rest get client None rs
        by (intro disjI2 exI [where x = cfg0] exI [where x = ks] exI [where x = rs])
          (auto simp: main_start_def tracing_Init_def Let_def start_log_def level)
    next
      case (Some e)
      then show ?thesis using assms rest get client clean by (auto simp: main_start_def tracing_Init_def Let_def)
    qed
  qed
qed

text \<open>After a start that succeeds the program is \<open>main_run\<close> on the configuration file's contents.\<close>

lemma main_run_started:
  assumes "flag_Parse (be_ParseFloat B) args = Inr f" and "run_state (main_start B args) [] = (Started cfg opts lvl, h)"
  shows "\<exists>d. main_run n E d (fl_dry_run f) opts = do { x \<leftarrow> controller_run n E cfg opts; ret (Some x) }"
proof -
  obtain d cfg0 where "Load d = Inr cfg0" "cfg = (if fl_dry_run f then cfg0\<lparr>DryRun := True\<rparr> else cfg0)"
    using main_start_cases [OF assms] by blast
  then show ?thesis by (intro exI [where x = d]) (simp add: main_run_def Let_def)
qed

section \<open>The properties\<close>

text \<open>C37: how the process starts. A command line that does not parse ends it with status 0 (help) or 2 before
  anything is called; any other failure, of the exporter, the client configuration, a client or the
  configuration file, ends it with status 1 before the health endpoints are up; otherwise all steps were made
  once each in the order of the code, the configuration is a valid one read from the path on the command line,
  with dry-run switched on if asked for, and the overrides are those of the command line.\<close>

theorem startup_outcome:
  "case run_state (main_start B args) [] of
     (Exit k, h) \<Rightarrow> flag_Parse (be_ParseFloat B) args = Inl k \<and> k \<in> {0, 2} \<and> h = [] \<or>
       k = 1 \<and> BServe '':8080'' \<notin> set h
   | (Started cfg opts lvl, h) \<Rightarrow> \<exists>f cfg0 ks rs.
       flag_Parse (be_ParseFloat B) args = Inr f \<and> h = start_log (fl_config f) ks rs \<and> valid_config cfg \<and>
       Load (be_ReadConfig B (BServe '':9090'' # BMetricsClient # rs @
         [BTracerProvider ''cluster-bare-autoscaler'', BExporter]) (fl_config f)) = Inr cfg0 \<and>
       cfg = (if fl_dry_run f then cfg0\<lparr>DryRun := True\<rparr> else cfg0) \<and>
       opts = override_options (fl_node_load f) (fl_cluster_load_down f) (fl_cluster_load_up f) \<and>
       lvl = log_level_of (LogLevel cfg0)"
proof (cases "flag_Parse (be_ParseFloat B) args")
  case (Inl k)
  then show ?thesis using parse_flags_status by (auto simp: main_start_flags flag_Parse_def)
next
  case (Inr f)
  obtain x h where run: "run_state (main_start B args) [] = (x, h)" by fastforce
  have valid: "valid_config (if b then cfg0\<lparr>DryRun := True\<rparr> else cfg0)" if "Load d = Inr cfg0" for d cfg0 b
    using that validate_accepts by (auto simp: Load_def valid_config_def split: sum.splits prod.splits option.splits)
  from main_start_cases [OF Inr run] show ?thesis
  proof
    assume "x = Exit 1 \<and> BServe '':8080'' \<notin> set h"
    then show ?thesis using run by simp
  next
    let ?opts = "override_options (fl_node_load f) (fl_cluster_load_down f) (fl_cluster_load_up f)"
    assume "\<exists>cfg0 ks rs. Load (be_ReadConfig B (BServe '':9090'' # BMetricsClient # rs @
         [BTracerProvider ''cluster-bare-autoscaler'', BExporter]) (fl_config f)) = Inr cfg0 \<and>
      h = start_log (fl_config f) ks rs \<and>
      x = Started (if fl_dry_run f then cfg0\<lparr>DryRun := True\<rparr> else cfg0) ?opts (log_level_of (LogLevel cfg0))"
    then obtain cfg0 ks rs where started:
      "Load (be_ReadConfig B (BServe '':9090'' # BMetricsClient # rs @
         [BTracerProvider ''cluster-bare-autoscaler'', BExporter]) (fl_config f)) = Inr cfg0"
      "h = start_log (fl_config f) ks rs"
      "x = Started (if fl_dry_run f then cfg0\<lparr>DryRun := True\<rparr> else cfg0) ?opts (log_level_of (LogLevel cfg0))"
      by blast
    show ?thesis unfolding run started(3) prod.case started.case
      using Inr started(1,2) valid [OF started(1)] by blast
  qed
qed

text \<open>C4: the dry-run flag on the command line holds for the whole process: started with \<^verbatim>\<open>-dry-run\<close> first and no later
  argument that gives the flag a value, neither the loop nor the MAC updater, in any interleaving,
  writes to the cluster, evicts, calls a power controller or sends a request other than GET.\<close>

theorem command_line_dry_run:
  assumes "fst (run_state (main_start B (''-dry-run'' # rest)) []) = Started cfg opts lvl"
    and "\<forall>s \<in> set rest. \<not> sets_dry_run s" and "l \<in> process_logs n m E E' cfg opts"
  shows "list_all (\<lambda>c. \<not> is_write c) l"
proof -
  obtain f where f: "flag_Parse (be_ParseFloat B) (''-dry-run'' # rest) = Inr f"
    using assms(1) main_start_flags [of B "''-dry-run'' # rest"]
    by (cases "flag_Parse (be_ParseFloat B) (''-dry-run'' # rest)") auto
  have "fl_dry_run f" by (rule flag_Parse_dry_run [OF f assms(2)])
  then have "DryRun cfg" using main_start_cases [OF f prod.collapse [symmetric]] assms(1) by auto
  then show ?thesis using assms(3) by (rule process_dry_run)
qed

text \<open>A machine outside the cluster with a kubeconfig, where every step works.\<close>

definition sample_boot :: "unit boot_env" where
  "sample_boot = \<lparr>be_Exporter = (\<lambda>_. None), be_InCluster = (\<lambda>_. Inl (Msg ''not in cluster'')),
     be_Getenv = (\<lambda>v. if v = ''HOME'' then ''/root/'' else []), be_Missing = (\<lambda>_ p. p \<noteq> ''/root/.kube/config''),
     be_BuildConfig = (\<lambda>_ _. Inr ()), be_MetricsClient = (\<lambda>_ _. None), be_Clientset = (\<lambda>_ _. None),
     be_ReadConfig = (\<lambda>_ _. Inr sample_config), be_ParseFloat = (\<lambda>_. None), be_ProviderShutdown = (\<lambda>_. None)\<rparr>"

theorem command_line_dry_run_witness:
  "\<exists>cfg lvl. fst (run_state (main_start sample_boot [''-dry-run'', ''--config=x.yaml'']) []) = Started cfg [] lvl \<and>
    (\<exists>l \<in> process_logs 2 3 (store_env bare_cluster) (store_env bare_cluster) cfg []. list_all (\<lambda>c. \<not> is_write c) l)"
proof -
  let ?run = "run_state (main_start sample_boot [''-dry-run'', ''--config=x.yaml'']) []"
  have ok: "fst ?run = Started (sample_config\<lparr>DryRun := True\<rparr>) [] LevelInfo"
    by code_simp
  have none: "\<forall>s \<in> set [''--config=x.yaml'']. \<not> sets_dry_run s"
    by (simp add: sets_dry_run_def flag_body_def flag_name_def)
  obtain l where l: "l \<in> process_logs 2 3 (store_env bare_cluster) (store_env bare_cluster)
      (sample_config\<lparr>DryRun := True\<rparr>) []"
    by (rule exE [OF process_logs_exist])
  from command_line_dry_run [OF ok none l] ok l show ?thesis by blast
qed

end
