(* ===== verification/Scope.thy ===== *)
theory Scope
  imports Process Rotation
begin

text \<open>
  Which machines the process touches. Everything it writes, evicts, shuts down or powers on goes
  back to a listing of the managed nodes: the calls stay within the names and the pods those
  listings can show, whatever else the cluster holds.
\<close>

section \<open>Calls within a set of nodes\<close>

text \<open>\<open>M\<close> are names of nodes, \<open>K\<close> are pods by namespace, name and UID.\<close>

type_synonym pod_id = "string \<times> string \<times> string"

fun confined :: "string set \<Rightarrow> pod_id set \<Rightarrow> call \<Rightarrow> bool" where
  "confined M K (CUpdateNode n r) = (node_Name n \<in> M)"
| "confined M K (CPatchNode name p r) = (name \<in> M)"
| "confined M K (CPatchRaw name body r) = (name \<in> M)"
| "confined M K (CEvict ns name uid r) = ((ns, name, uid) \<in> K)"
| "confined M K (CPowerOn name mac r) = (name \<in> M)"
| "confined M K (CShutdown name r) = (name \<in> M)"
| "confined M K c = True"

lemma confined_reads: "\<not> is_write c \<Longrightarrow> confined M K c"
  by (cases c) auto

lemma confined_agent: "agent_call c \<Longrightarrow> confined M K c"
  by (cases c) auto

text \<open>
  The managed nodes of every listing are among \<open>M\<close>, the API server returns the object asked for,
  and the pods it lists on nodes of \<open>M\<close> are among \<open>K\<close>.
\<close>

definition shows_only :: "env \<Rightarrow> managed_node_filter \<Rightarrow> string set \<Rightarrow> pod_id set \<Rightarrow> bool" where
  "shows_only E f M K \<longleftrightarrow>
     (\<forall>h nodes. env_ListNodes E h = Inr nodes \<longrightarrow> (\<forall>n \<in> set nodes. managed_node f n \<longrightarrow> node_Name n \<in> M)) \<and>
     (\<forall>h name n. env_GetNode E h name = Inr n \<longrightarrow> node_Name n = name) \<and>
     (\<forall>h q pods. env_ListPods E h q = Inr pods \<longrightarrow>
        (\<forall>p \<in> set pods. pod_NodeName p \<in> M \<longrightarrow> (pod_Namespace p, pod_Name p, pod_UID p) \<in> K))"

lemma listed_managed:
  assumes "shows_only E f M K" and "run_state (ListManagedNodes E f) s = (Inr nodes, t)" and "n \<in> set nodes"
  shows "node_Name n \<in> M"
  using assms by (auto simp: ListManagedNodes_def ListNodes_def shows_only_def split: sum.splits)

lemma got_named: "shows_only E f M K \<Longrightarrow> run_state (GetNode E name) s = (Inr n, t) \<Longrightarrow> node_Name n = name"
  by (auto simp: GetNode_def shows_only_def)

lemma listed_pod:
  "shows_only E f M K \<Longrightarrow> run_state (ListPods E q) s = (Inr pods, t) \<Longrightarrow> p \<in> set pods \<Longrightarrow> pod_NodeName p \<in> M \<Longrightarrow>
   (pod_Namespace p, pod_Name p, pod_UID p) \<in> K"
  by (auto simp: ListPods_def shows_only_def)

abbreviation stays :: "string set \<Rightarrow> pod_id set \<Rightarrow> 'a io \<Rightarrow> bool" where
  "stays M K \<equiv> state_io_rel (logs (confined M K))"

lemma stays_reading: "state_io_rel reading m \<Longrightarrow> stays M K m"
  by (rule reading_all(1)) (simp_all add: confined_reads)

section \<open>The actions on a node\<close>

lemma stays_bodies:
  assumes "shows_only E f M K" and "name \<in> M"
  shows "stays M K (uncordon_body E name)" and "stays M K (cordon_body E name)" and "stays M K (recover_body E name)"
  unfolding uncordon_body_def cordon_body_def recover_body_def
  by (rule logs.holds_bind_result, intro frame_intro, simp,
      intro frame_intro; use assms got_named in \<open>fastforce\<close>)+

lemma stays_actions:
  assumes "client_go E" and "shows_only E f M K" and "name \<in> M"
  shows "stays M K (UncordonNode E name)"
    and "stays M K (restoreScheduling E name)"
    and "stays M K (ClearPoweredOffAnnotation E name)"
    and "stays M K (AnnotatePoweredOffNode E cfg name)"
proof -
  show uncordon: "stays M K (UncordonNode E name)"
    unfolding UncordonNode_def by (intro frame_intro stays_bodies [OF assms(2,3)] assms(1)) simp
  show "stays M K (restoreScheduling E name)"
    unfolding restoreScheduling_def by (intro frame_intro uncordon)
  show "stays M K (ClearPoweredOffAnnotation E name)"
    unfolding ClearPoweredOffAnnotation_def by (intro frame_intro) (simp_all add: assms(3))
  show "stays M K (AnnotatePoweredOffNode E cfg name)"
    unfolding AnnotatePoweredOffNode_def by (intro frame_intro) (simp_all add: assms(3))
qed

lemma drain_pods_stays:
  assumes "\<forall>p \<in> set pods. pod_NodeName p = name \<longrightarrow> (pod_Namespace p, pod_Name p, pod_UID p) \<in> K"
  shows "stays M K (drain_pods E name pods accepted remaining)"
  using assms
proof (induction pods arbitrary: accepted remaining)
  case (Cons p ps)
  then have rest: "stays M K (drain_pods E name ps accepted' remaining')" for accepted' remaining' by simp
  show ?case using Cons.prems unfolding drain_pods.simps
    by (intro rest frame_intro; simp)
qed (simp add: frame_intro)

lemma CordonAndDrain_stays:
  assumes "client_go E" and "shows_only E f M K" and "name \<in> M"
  shows "stays M K (CordonAndDrain E cfg name)"
proof -
  have poll: "stays M K (drain_poll E name a)" for a
    unfolding drain_poll_def
  proof (rule logs.holds_bind_result, intro frame_intro, simp)
    fix r s t assume "run_state (ListPods E (PodsOnNode name)) s = (r, t)"
    then have "\<forall>p \<in> set pods. pod_NodeName p = name \<longrightarrow> (pod_Namespace p, pod_Name p, pod_UID p) \<in> K" if "r = Inr pods" for pods
      using listed_pod [OF assms(2)] assms(3) that by blast
    then show "stays M K (case r of Inl err \<Rightarrow> ret (Inl err, a)
        | Inr pods \<Rightarrow> do {
            (d, accepted') \<leftarrow> drain_pods E name pods a 0;
            case d of Inl err \<Rightarrow> ret (Inl err, accepted')
            | Inr remaining \<Rightarrow> if remaining > 0 then ret (Inr False, accepted')
                else do { v \<leftarrow> volumes_gone E name; ret (v, accepted') }})"
      by (intro drain_pods_stays frame_intro; simp add: confined_reads)
  qed
  show ?thesis unfolding CordonAndDrain_def
    by (intro frame_intro poll stays_bodies [OF assms(2,3)] assms(1); simp)
qed

context reconciler_parts begin

lemma stays_parts:
  "stays M K (r_Shutdowner r name)"
  "name \<in> M \<Longrightarrow> stays M K (call_Shutdown (r_Shutdowner r) name)"
  "stays M K (r_PowerOner r name mac)"
  "name \<in> M \<Longrightarrow> stays M K (call_PowerOn (r_PowerOner r) name mac)"
proof -
  show shut: "stays M K (r_Shutdowner r name)"
    by (rule shutdowner.calls_agent) (rule confined_agent)
  show on: "stays M K (r_PowerOner r name mac)"
    using power_oner.calls_agent [of "confined M K" "(name, mac)"] confined_agent by simp
  show "name \<in> M \<Longrightarrow> stays M K (call_Shutdown (r_Shutdowner r) name)"
    by (intro call_Shutdown_frames shut) simp
  show "name \<in> M \<Longrightarrow> stays M K (call_PowerOn (r_PowerOner r) name mac)"
    by (intro call_PowerOn_frames on) simp_all
qed

lemma PowerOn_stays:
  assumes "client_go E" and "shows_only E f M K" and "w_Name w \<in> M"
  shows "stays M K (PowerOnAndMarkBooted E w cfg (r_PowerOner r) dryRun)"
  unfolding PowerOnAndMarkBooted_def
  by (intro frame_intro stays_parts stays_actions [OF assms] assms(3); simp add: assms(3))

lemma scale_down_stays:
  assumes "client_go E" and "shows_only E f M K" and "name \<in> M"
  shows "stays M K (scale_down_node E r name)"
  unfolding scale_down_node_def retire_node_def
  by (intro frame_intro stays_reading [OF down.only_reads] CordonAndDrain_stays [OF assms] stays_actions [OF assms]
      stays_parts assms(3); simp add: confined_reads)

end

section \<open>The steps of a loop\<close>

lemma eligible_listed:
  assumes "run_state (filterEligibleNodes E cfg nodes) s = (ws, t)" and "w \<in> set ws"
  shows "w_Node w \<in> set nodes"
proof -
  obtain now s1 where "run_state (FilterShutdownEligibleNodes E nodes now (eligibility_of cfg)) s1 = (ws, t)"
    using assms(1) by (auto simp: filterEligibleNodes_def split: prod.splits)
  then have "mset (map w_Node ws) = mset (filter (may_stop (tracker s1) now (eligibility_of cfg)) nodes)"
    using eligible_nodes [of E nodes now "eligibility_of cfg" s1] by simp
  then have "w_Node ` set ws = set (filter (may_stop (tracker s1) now (eligibility_of cfg)) nodes)"
    by (metis list.set_map mset_eq_setD)
  then show ?thesis using assms(2) by auto
qed

lemma overdue_listed: "find_overdue cfg now nodes None = Some (n, t) \<Longrightarrow> n \<in> set nodes"
  using find_overdue_inv [of None cfg now "[]" nodes] by (auto split: option.splits)

lemma listAllNodes_managed: "listAllNodes E cfg = ListManagedNodes E (managed_filter cfg)"
  by (auto simp: listAllNodes_def fun_eq_iff split: prod.split sum.split intro!: state.expand)

lemma recover_node_stays:
  assumes "client_go E" and "shows_only E f M K" and "node_Name n \<in> M"
  shows "stays M K (recover_node E cfg dryRun n)"
  unfolding recover_node_def
  by (intro frame_intro stays_bodies [OF assms(2,3)] stays_reading [OF recently_off_reading] assms(1); simp add: assms(3))

lemma RecoverUnexpectedlyBootedNodes_stays:
  assumes "client_go E" and "shows_only E (managed_filter cfg) M K"
  shows "stays M K (RecoverUnexpectedlyBootedNodes E cfg dryRun)"
  unfolding RecoverUnexpectedlyBootedNodes_def
  by (rule logs.holds_bind_result, rule stays_reading, intro frame_intro,
      intro recover_node_stays [OF assms] frame_intro, rule listed_managed [OF assms(2)], simp_all)

context reconciler_parts begin

lemma ForcePowerOnAll_stays:
  assumes "client_go E" and "shows_only E (managed_filter cfg) M K"
  shows "stays M K (ForcePowerOnAll E cfg (r_PowerOner r) dryRun)"
  unfolding ForcePowerOnAll_def force_node_def
  by (rule logs.holds_bind_result, rule stays_reading, intro frame_intro,
      intro PowerOn_stays [OF assms] frame_intro; simp add: listed_managed [OF assms(2)])

lemma MaybeScaleUp_stays:
  assumes "client_go E" and "shows_only E f M K"
    and "\<And>s name t. run_state (su_ShouldScaleUp (r_ScaleUpStrategy r)) s = (Inr (name, True), t) \<Longrightarrow> name \<in> M"
  shows "stays M K (MaybeScaleUp E r)"
  unfolding MaybeScaleUp_def
proof (rule logs.holds_bind_result [OF stays_reading [OF up.only_reads]], intro state_io_rel_sum state_io_rel_prod state_io_rel_if logs.holds_return)
  fix u s t p name shouldScale
  assume "run_state (su_ShouldScaleUp (r_ScaleUpStrategy r)) s = (u, t)" "u = Inr p" "p = (name, shouldScale)" "\<not> \<not> shouldScale"
  then have name: "name \<in> M" using assms(3) by simp
  show "stays M K (do {
      g \<leftarrow> GetNode E name;
      case g of
        Inl err \<Rightarrow> ret False
      | Inr n \<Rightarrow> do {
          now \<leftarrow> Now E;
          tr \<leftarrow> get_tracker;
          p \<leftarrow> PowerOnAndMarkBooted E
                (NewNodeWrapper n (Some tr) now
                  \<lparr>na_MAC = na_MAC (NodeAnnotations (r_Cfg r))\<rparr> (IgnoreLabels (r_Cfg r)))
                (r_Cfg r) (r_PowerOner r) (DryRun (r_Cfg r));
          case p of
            Some err \<Rightarrow> ret False
          | None \<Rightarrow> do {
              _ \<leftarrow> on_tracker (ClearPoweredOff name);
              _ \<leftarrow> on_counters (\<lambda>m. m\<lparr>PoweredOffNodes := (PoweredOffNodes m)(name \<mapsto> 0)\<rparr>);
              ret True
            }
        }
    })"
    by (rule logs.holds_bind_result, rule stays_reading, intro frame_intro,
        intro PowerOn_stays [OF assms(1,2)] frame_intro; use got_named [OF assms(2)] name in fastforce)
qed

text \<open>Rotation powers on a node of the listing it searched.\<close>

lemma rotate_node_stays:
  assumes "client_go E" and "shows_only E f M K" and "node_Name overdue \<in> M"
  shows "stays M K (rotate_node E r now overdue)"
  unfolding rotate_node_def by (intro PowerOn_stays [OF assms(1,2)] frame_intro; simp add: assms(3))

lemma MaybeRotate_stays:
  assumes "client_go E" and "shows_only E (managed_filter (r_Cfg r)) M K"
  shows "stays M K (MaybeRotate E r)"
proof (cases "rot_Enabled (Rotation (r_Cfg r)) \<and> 0 < rot_MaxPoweredOffDuration (Rotation (r_Cfg r))")
  case False
  then have "MaybeRotate E r = ret ()" by (auto simp: MaybeRotate_def)
  then show ?thesis by (simp add: frame_intro)
next
  case True
  show ?thesis
  proof (rule state_io_relI)
    fix x s t assume run: "run_state (MaybeRotate E r) s = (x, t)"
    obtain found s1 where search: "run_state (rotation_search E r) s = (found, s1)" by fastforce
    have quiet: "logs (confined M K) s s1"
      by (rule state_io_rel_run [OF stays_reading [OF rotation_search_reading] search])
    show "logs (confined M K) s t"
    proof (cases found)
      case None
      then show ?thesis using run search MaybeRotate_search [of r E s] True quiet by simp
    next
      case (Some p)
      obtain now overdue where p: "p = (now, overdue)" by fastforce
      have rotated: "run_state (rotate_node E r now overdue) s1 = (x, t)"
        using run search MaybeRotate_search [of r E s] True Some p by simp
      obtain s0 nodes since where "fst (run_state (ListManagedNodes E (managed_filter (r_Cfg r))) s0) = Inr nodes"
          "find_overdue (r_Cfg r) now nodes None = Some (overdue, since)"
        using rotation_search_Some search Some p by (metis fst_conv)
      then have "node_Name overdue \<in> M"
        using listed_managed [OF assms(2) run_result] overdue_listed by blast
      then have "logs (confined M K) s1 t"
        by (rule state_io_rel_run [OF rotate_node_stays [OF assms] rotated])
      then show ?thesis using quiet by (rule logs.R_trans [rotated])
    qed
  qed
qed

lemma MaybeScaleDown_stays:
  assumes "client_go E" and "shows_only E f M K" and "\<forall>w \<in> set eligible. w_Name w \<in> M"
  shows "stays M K (MaybeScaleDown E r eligible)"
proof (cases "MinNodes (r_Cfg r) < int (length eligible) \<and> eligible \<noteq> []")
  case True
  then have "w_Name (last eligible) \<in> M" using assms(3) by simp
  then have "stays M K (scale_down_node E r (w_Name (last eligible)))" by (rule scale_down_stays [OF assms(1,2)])
  then show ?thesis using True by (simp add: MaybeScaleDown_def PickScaleDownCandidate_cases frame_intro)
next
  case False
  then show ?thesis by (auto simp: MaybeScaleDown_def PickScaleDownCandidate_cases intro: logs.holds_return)
qed

lemma scale_down_step_stays:
  assumes "client_go E" and "shows_only E (managed_filter (r_Cfg r)) M K"
    and "\<And>down. stays M K (k down)"
    and "run_state (listAllNodes E (r_Cfg r)) s = (Inr nodes, t)"
  shows "stays M K (do { eligible \<leftarrow> filterEligibleNodes E (r_Cfg r) nodes; d \<leftarrow> MaybeScaleDown E r eligible; k d })"
proof (rule logs.holds_bind_result)
  show "stays M K (filterEligibleNodes E (r_Cfg r) nodes)" by (rule stays_reading [OF list_reading(4)])
  fix eligible s t assume e: "run_state (filterEligibleNodes E (r_Cfg r) nodes) s = (eligible, t)"
  have "\<forall>w \<in> set eligible. w_Name w \<in> M"
    using eligible_listed [OF e] listed_managed [OF assms(2)] assms(4) by (auto simp: listAllNodes_managed)
  then show "stays M K (do { d \<leftarrow> MaybeScaleDown E r eligible; k d })"
    by (intro logs.holds_bind MaybeScaleDown_stays [OF assms(1,2)] assms(3))
qed

lemma Reconcile_stays:
  assumes "client_go E" and "shows_only E (managed_filter (r_Cfg r)) M K"
    and "\<And>s name t. run_state (su_ShouldScaleUp (r_ScaleUpStrategy r)) s = (Inr (name, True), t) \<Longrightarrow> name \<in> M"
  shows "stays M K (Reconcile E r)"
proof -
  have "stays M K (case a of Inl err \<Rightarrow> ret (Ret (Some err)) | Inr nodes \<Rightarrow> do {
           eligible \<leftarrow> filterEligibleNodes E (r_Cfg r) nodes;
           d \<leftarrow> MaybeScaleDown E r eligible;
           case d of Panic \<Rightarrow> ret Panic
           | Ret down \<Rightarrow> if down then ret (Ret None) else do { _ \<leftarrow> MaybeRotate E r; ret (Ret None) } })"
    if "run_state (listAllNodes E (r_Cfg r)) s = (a, t)" for s a t
    using that by (cases a)
      (auto intro!: frame_intro MaybeRotate_stays [OF assms(1,2)] scale_down_step_stays [OF assms(1,2)] split: go.split)
  note decided = logs.holds_bind_result [OF stays_reading [OF list_reading(1)] this]
  have tail: "stays M K (reconcile_loop E r)"
    unfolding reconcile_loop_def by (intro decided MaybeScaleUp_stays [OF assms] frame_intro)
  show ?thesis
    unfolding Reconcile_def reconcile_decide_def clear_recovered_def
    by (intro tail ForcePowerOnAll_stays [OF assms(1,2)] RecoverUnexpectedlyBootedNodes_stays [OF assms(1,2)] frame_intro;
        simp add: confined_reads)
qed

lemma run_loop_stays:
  assumes "client_go E" and "shows_only E (managed_filter (r_Cfg r)) M K"
    and "\<And>s name t. run_state (su_ShouldScaleUp (r_ScaleUpStrategy r)) s = (Inr (name, True), t) \<Longrightarrow> name \<in> M"
  shows "stays M K (run_loop n E r)"
  by (induction n) (auto intro!: Reconcile_stays [OF assms] frame_intro split: go.split)

end

section \<open>The two threads\<close>

lemma shutdownNodeNames_listed:
  assumes "shows_only E (managed_filter cfg) M K" and "run_state (shutdownNodeNames E cfg) s = (names, t)" and "name \<in> set names"
  shows "name \<in> M"
proof -
  have "run_state (ListShutdownNodeNames E (managed_filter cfg)) s = (Inr names, t)"
    using assms(2,3) by (auto simp: shutdownNodeNames_def split: prod.splits sum.splits)
  then obtain nodes s1 where "run_state (ListManagedNodes E (managed_filter cfg)) s = (Inr nodes, s1)"
      "set names \<subseteq> node_Name ` set nodes"
    by (fastforce simp: ListShutdownNodeNames_def shutdown_items_eq split: prod.splits sum.splits)
  then show ?thesis using listed_managed [OF assms(1)] assms(3) by blast
qed

lemma scale_up_listed:
  assumes "shows_only E (managed_filter cfg) M K"
    and "run_state (su_ShouldScaleUp (buildScaleUpStrategy E cfg override)) s = (Inr (name, True), t)"
  shows "name \<in> M"
proof -
  have "\<exists>s1 names s2. run_state (shutdownNodeNames E cfg) s1 = (name # names, s2)"
    using assms(2)
    by (fastforce simp: buildScaleUpStrategy_def MultiUpStrategy_def MinNodeCountScaleUp_def LoadAverageScaleUp_def
        MinNodeCount_ShouldScaleUp_def min_node_count_of_def LoadAverageUp_ShouldScaleUp_def load_average_up_of_def Let_def
        split: if_splits prod.splits sum.splits list.splits)
  then show ?thesis using shutdownNodeNames_listed [OF assms(1)] by fastforce
qed

lemma loop_thread_stays:
  assumes "client_go E" and "shows_only E (managed_filter cfg) M K"
  shows "stays M K (loop_thread n E cfg opts)"
proof -
  have "name \<in> M"
    if "run_state (su_ShouldScaleUp (r_ScaleUpStrategy (build_reconciler E cfg opts))) s = (Inr (name, True), t)" for s name t
    using that build_reconciler_chains(2) [of E cfg opts] scale_up_listed [OF assms(2)] by metis
  then have "stays M K (run_loop n E (build_reconciler E cfg opts))"
    by (intro built.run_loop_stays [OF assms(1)]) (simp_all add: assms(2))
  then show ?thesis unfolding loop_thread_def NewReconciler_bind
    by (intro logs.holds_bind RestorePoweredOffState_frames(1)) (rule confined_reads)
qed

lemma updater_thread_stays:
  assumes "shows_only E (managed_filter cfg) M K"
  shows "stays M K (updater_thread m E cfg)"
proof -
  let ?u = "mac_updater_of cfg"
  have "stays M K (update_mac E ?u now n)" if "node_Name n \<in> M" for now n
    using that unfolding update_mac_def SetDiscoveredMAC_def Let_def
    by (intro frame_intro stays_reading [OF FetchMACFromDaemon_reading]; simp add: confined_reads)
  moreover have "node_Name n \<in> M"
    if "run_state (ListManagedNodes E \<lparr>mf_ManagedLabel = mu_ManagedLabel ?u, mf_DisabledLabel = mu_DisabledLabel ?u,
          mf_IgnoreLabels = mu_IgnoreLabels ?u\<rparr>) s = (Inr nodes, t)" "n \<in> set nodes" for s nodes t n
    using listed_managed [OF assms, of s nodes t n] that by (simp add: managed_filter_def mac_updater_of_def)
  ultimately have "stays M K (RunOnce E ?u)"
    unfolding RunOnce_def
    by (intro logs.holds_bind_result [OF stays_reading [OF query_reading(2)]] state_io_rel_sum logs.holds_return
        logs.holds_bind logs.holds_for_each logs_api(1)) auto
  then show ?thesis unfolding updater_thread_def
    by (induction m) (auto intro!: frame_intro)
qed

section \<open>Properties\<close>

text \<open>C3: the process never touches a machine it does not manage. When the nodes that listings show as
  managed (labelled so, not disabled, without an ignored label) have names in a set and their pods
  are in another, then in every interleaving of the reconcile loop and the MAC updater every
  update, patch, power-on and shutdown is of a node of that set, and every eviction of one of
  those pods.\<close>

theorem only_managed_touched:
  assumes "client_go E" and "shows_only E (managed_filter cfg) M K" and "shows_only E' (managed_filter cfg) M K"
    and "l \<in> process_logs n m E E' cfg opts"
  shows "list_all (confined M K) l"
proof -
  let ?s0 = "snd (run_state (bootstrap_wait cfg) init_sys)"
  obtain zs where zs: "l = zs @ hist ?s0"
      "zs \<in> shuffles (calls_of (loop_thread n E cfg opts) ?s0) (calls_of (updater_thread m E' cfg) ?s0)"
    using assms(4) by (auto simp: process_logs_def Let_def)
  have "list_all (confined M K) zs"
    unfolding list_all_shuffles [OF zs(2)]
    by (intro conjI calls_of_logs(1) loop_thread_stays updater_thread_stays assms(1-3))
  moreover have "list_all (confined M K) (hist ?s0)"
    using calls_of_logs(1) [OF stays_reading [OF bootstrap_wait_frames], of M K cfg init_sys]
      calls_of_logs(2) [OF stays_reading [OF bootstrap_wait_frames], of cfg init_sys] by (simp add: init_sys_def)
  ultimately show ?thesis using zs(1) by simp
qed

text \<open>A managed node with a pod beside a node and a pod of somebody else.\<close>

definition shared_env :: env where
  "shared_env = constant_env [sample_node ''n1'', (sample_node ''db'')\<lparr>node_Labels := Map.empty\<rparr>]
     [sample_pod ''web'' ''n1'' (Some ''ReplicaSet''), sample_pod ''store'' ''db'' (Some ''StatefulSet'')] ok_resp"

theorem only_managed_touched_witness:
  "\<exists>l \<in> process_logs 2 3 shared_env shared_env (sample_config\<lparr>MinNodes := 0\<rparr>) [].
     list_all (confined {''n1''} {(''default'', ''web'', ''uid-web'')}) l"
proof -
  let ?cfg = "sample_config\<lparr>MinNodes := 0\<rparr>"
  have only: "shows_only shared_env (managed_filter ?cfg) {''n1''} {(''default'', ''web'', ''uid-web'')}"
    by (auto simp: shows_only_def shared_env_def constant_env_def sample_node_def sample_pod_def managed_filter_def
        sample_config_def managed_node_def map_get_def node_named_def split: if_splits)
  obtain l where l: "l \<in> process_logs 2 3 shared_env shared_env ?cfg []"
    by (rule exE [OF process_logs_exist])
  have "client_go shared_env" by (simp add: shared_env_def constant_env_client_go)
  from only_managed_touched [OF this only only l] show ?thesis by (rule bexI [OF _ l])
qed

end
