(* ===== verification/Capacity.thy ===== *)
theory Capacity
  imports Node_Store "HOL-Library.Sublist"
begin

text \<open>
  The minimum number of nodes. On a cluster where nobody else cordons, marks or relabels nodes, the
  managed nodes that are schedulable and unmarked never become fewer than the configured minimum,
  at no point of a run and whatever fails on the way. The state of the cluster at a point is what
  the accepted writes up to there have made of the stored objects.
\<close>

section \<open>Nodes in service\<close>

definition serves :: "node \<Rightarrow> bool" where
  "serves n \<longleftrightarrow> \<not> node_Unschedulable n \<and> node_Annotations n AnnotationPoweredOff = None"

definition capacity :: "config \<Rightarrow> node list \<Rightarrow> nat" where
  "capacity cfg ns = length (filter (\<lambda>n. managed_node (managed_filter cfg) n \<and> serves n) ns)"

text \<open>\<open>duty\<close> is the part of a node that the reads must show as it is; everything else may change under way.\<close>

definition current_reads :: "env \<Rightarrow> node list \<Rightarrow> bool" where
  "current_reads E ns \<longleftrightarrow>
     (\<forall>h xs. env_ListNodes E h = Inr xs \<longrightarrow> map duty xs = map duty (stored_nodes ns h)) \<and>
     (\<forall>h name n. env_GetNode E h name = Inr n \<longrightarrow>
        node_Name n = name \<and> duty n \<in> duty ` set (stored_nodes ns h))"

lemma duty_eq:
  "duty m = duty n \<longleftrightarrow> node_Name m = node_Name n \<and> node_Labels m = node_Labels n \<and>
     node_Unschedulable m = node_Unschedulable n \<and>
     node_Annotations m AnnotationPoweredOff = node_Annotations n AnnotationPoweredOff"
  by (simp add: duty_def)

lemma managed_labels: "node_Labels m = node_Labels n \<Longrightarrow> managed_node f m = managed_node f n"
  by (simp add: managed_node_def)

lemma capacity_duty: "map duty xs = map duty ys \<Longrightarrow> capacity cfg xs = capacity cfg ys"
proof (induction xs arbitrary: ys)
  case (Cons x xs)
  then obtain y zs where ys: "ys = y # zs" "duty x = duty y" "map duty xs = map duty zs" by (cases ys) auto
  then have "managed_node (managed_filter cfg) x = managed_node (managed_filter cfg) y" "serves x = serves y"
    using managed_labels [of x y] by (simp_all add: duty_eq serves_def)
  then show ?case using Cons.IH [OF ys(3)] ys(1) by (simp add: capacity_def)
qed simp

lemma store_env_current_reads: "current_reads (store_env c) (cl_nodes c)"
  by (auto simp: current_reads_def store_env_def dest: node_named_Inr)

section \<open>Orders on stored nodes\<close>

text \<open>
  A relation between a node before and after, and what it means for a program: every point it
  passes through is related, node by node, to where it started.
\<close>

definition along :: "(node \<Rightarrow> node \<Rightarrow> bool) \<Rightarrow> node list \<Rightarrow> sys \<Rightarrow> sys \<Rightarrow> bool" where
  "along le ns s t \<longleftrightarrow>
     (distinct (map node_Name (stored_nodes ns (hist s))) \<longrightarrow>
        list_all2 le (stored_nodes ns (hist s)) (stored_nodes ns (hist t)) \<and>
        (\<forall>h. suffix h (hist t) \<longrightarrow>
           suffix h (hist s) \<or> list_all2 le (stored_nodes ns (hist s)) (stored_nodes ns h)))"

locale node_order =
  fixes le :: "node \<Rightarrow> node \<Rightarrow> bool"
  assumes le_refl: "le m m"
    and le_trans: "le m n \<Longrightarrow> le n o' \<Longrightarrow> le m o'"
    and le_name: "le m n \<Longrightarrow> node_Name n = node_Name m"
begin

lemma names: "list_all2 le xs ys \<Longrightarrow> map node_Name ys = map node_Name xs"
  by (induction rule: list_all2_induct) (simp_all add: le_name)

lemma all_refl: "list_all2 le xs xs"
  by (simp add: list_all2_same le_refl)

lemma all_trans: "list_all2 le xs ys \<Longrightarrow> list_all2 le ys zs \<Longrightarrow> list_all2 le xs zs"
  by (rule list_all2_trans [where ?P1.0 = le and ?P2.0 = le]) (auto intro: le_trans)

end

sublocale node_order \<subseteq> frame: frame_rel "along le ns" for ns
proof
  fix s t u
  show "along le ns s s" by (simp add: along_def all_refl)
  assume st: "along le ns s t" and tu: "along le ns t u"
  show "along le ns s u"
    unfolding along_def
  proof (intro impI)
    assume "distinct (map node_Name (stored_nodes ns (hist s)))"
    with st have to_t: "list_all2 le (stored_nodes ns (hist s)) (stored_nodes ns (hist t))"
      and points: "\<And>h. suffix h (hist t) \<Longrightarrow>
        suffix h (hist s) \<or> list_all2 le (stored_nodes ns (hist s)) (stored_nodes ns h)"
      by (simp_all add: along_def)
    have "distinct (map node_Name (stored_nodes ns (hist t)))"
      using names [OF to_t] \<open>distinct _\<close> by simp
    with tu have to_u: "list_all2 le (stored_nodes ns (hist t)) (stored_nodes ns (hist u))"
      and later: "\<And>h. suffix h (hist u) \<Longrightarrow>
        suffix h (hist t) \<or> list_all2 le (stored_nodes ns (hist t)) (stored_nodes ns h)"
      by (simp_all add: along_def)
    show "list_all2 le (stored_nodes ns (hist s)) (stored_nodes ns (hist u)) \<and>
        (\<forall>h. suffix h (hist u) \<longrightarrow>
           suffix h (hist s) \<or> list_all2 le (stored_nodes ns (hist s)) (stored_nodes ns h))"
      using all_trans [OF to_t] to_u points later by blast
  qed
qed

context node_order begin

lemma quiet:
  assumes "state_io_rel (logs node_quiet) m" shows "state_io_rel (along le ns) m"
proof (rule state_io_relI)
  fix x s t assume "run_state m s = (x, t)"
  then obtain cs where t: "hist t = cs @ hist s" and cs: "list_all node_quiet cs"
    using logs_run [OF assms] by blast
  have "stored_nodes ns h = stored_nodes ns (hist s)" if "h = ds @ hist s" "suffix ds cs" for h ds
    using that cs stored_quiet [of ds ns "hist s"] by (auto simp: suffix_def)
  then show "along le ns s t" by (auto simp: along_def t suffix_append all_refl stored_quiet [OF cs])
qed

lemma one_call:
  assumes "hist t = c # hist s"
    and "distinct (map node_Name (stored_nodes ns (hist s))) \<Longrightarrow>
      list_all2 le (stored_nodes ns (hist s)) (stored_nodes ns (hist t))"
  shows "along le ns s t"
  using assms by (auto simp: along_def suffix_Cons)

lemma updates: "(\<And>m. m \<in> set xs \<Longrightarrow> node_Name m = name \<Longrightarrow> le m (f m)) \<Longrightarrow> list_all2 le xs (update_named name f xs)"
  unfolding update_named_def list_all2_map2 list_all2_same by (simp add: le_refl)

lemma patch:
  assumes "\<And>m. node_Name m = name \<Longrightarrow> le m (m\<lparr>node_Annotations := apply_patch p (node_Annotations m)\<rparr>)"
  shows "state_io_rel (along le ns) (PatchNode E name p)"
proof (rule state_io_relI)
  fix r s t assume "run_state (PatchNode E name p) s = (r, t)"
  then have t: "hist t = CPatchNode name p r # hist s" by (auto simp: PatchNode_def)
  have "list_all2 le (stored_nodes ns (hist s)) (stored_nodes ns (hist t))"
    by (cases r) (simp_all add: t all_refl updates assms)
  then show "along le ns s t" using t by (intro one_call)
qed

text \<open>Reading a node and writing it back changed by \<open>f\<close>.\<close>

lemma get_update:
  assumes "current_reads E ns" and "\<And>m n. duty m = duty n \<Longrightarrow> node_Name n = name \<Longrightarrow> le m (f n)"
    and "\<And>n. node_Name (f n) = node_Name n"
    and "\<And>err s. snd (run_state (k (Inl err)) s) = s"
    and "\<And>n s. snd (run_state (k (Inr n)) s) = s \<or>
      snd (run_state (k (Inr n)) s) = snd (run_state (UpdateNode E (f n)) s)"
  shows "state_io_rel (along le ns) (do { g \<leftarrow> GetNode E name; k g })"
proof (rule state_io_relI)
  fix x s t assume run: "run_state (do { g \<leftarrow> GetNode E name; k g }) s = (x, t)"
  obtain g s1 where get: "run_state (GetNode E name) s = (g, s1)" by fastforce
  have first: "along le ns s s1"
    by (rule state_io_rel_run [OF quiet get]) (intro frame_intro; simp)
  have s1: "hist s1 = CGetNode name g # hist s" "g = env_GetNode E (hist s) name"
    using get by (auto simp: GetNode_def)
  have rest: "run_state (k g) s1 = (x, t)" using run get by simp
  show "along le ns s t"
  proof (cases "t = s1")
    case True
    then show ?thesis using first by simp
  next
    case False
    have after: "snd (run_state (k g) s1) = t" using rest by simp
    obtain n where g: "g = Inr n"
    proof (cases g)
      case (Inl err)
      then show ?thesis using after False assms(4) [of err s1] by simp
    qed
    then obtain u where u: "run_state (UpdateNode E (f n)) s1 = (u, t)"
      using after False assms(5) [of n s1] by (auto simp: UpdateNode_def)
    have n: "node_Name n = name" "duty n \<in> duty ` set (stored_nodes ns (hist s))"
      using s1(2) g assms(1) by (auto simp: current_reads_def dest: sym)
    have "list_all2 le (stored_nodes ns (hist s)) (stored_nodes ns (hist t))"
      if distinct: "distinct (map node_Name (stored_nodes ns (hist s)))"
    proof -
      obtain m0 where m0: "m0 \<in> set (stored_nodes ns (hist s))" "duty n = duty m0" using n(2) by auto
      have "m = m0" if "m \<in> set (stored_nodes ns (hist s))" "node_Name m = name" for m
        using that distinct m0 n(1) by (auto simp: distinct_map duty_eq dest: inj_onD)
      then have "le m (f n)" if "m \<in> set (stored_nodes ns (hist s))" "node_Name m = name" for m
        using that m0(2) assms(2) [OF _ n(1)] by metis
      then show ?thesis
        using u s1(1) n(1) by (cases u) (auto simp: UpdateNode_def assms(3) all_refl intro!: updates)
    qed
    then have "along le ns s1 t"
      using u s1(1) by (intro one_call [where c = "CUpdateNode (f n) u"]) (auto simp: UpdateNode_def)
    then show ?thesis by (rule frame.R_trans [OF first])
  qed
qed

end

section \<open>Programs that spare the others\<close>

text \<open>No node outside \<open>X\<close> is taken out of service, and no node changes its name or labels.\<close>

definition spares :: "string set \<Rightarrow> node \<Rightarrow> node \<Rightarrow> bool" where
  "spares X m n \<longleftrightarrow> node_Name n = node_Name m \<and> node_Labels n = node_Labels m \<and>
     (node_Name m \<notin> X \<longrightarrow> serves m \<longrightarrow> serves n)"

interpretation spares: node_order "spares X" for X
  by unfold_locales (auto simp: spares_def)

lemmas [frame_intro] = spares.frame.holds_return spares.frame.holds_bind spares.frame.holds_when spares.frame.holds_for_each

abbreviation sparing :: "string set \<Rightarrow> node list \<Rightarrow> 'a io \<Rightarrow> bool" where
  "sparing X ns \<equiv> state_io_rel (along (spares X) ns)"

lemma sparing_reading: "state_io_rel reading m \<Longrightarrow> sparing X ns m"
  by (rule spares.quiet) (rule reading_all(1), assumption, erule node_quiet_intros(1))

lemma sparing_state [frame_intro]:
  "sparing X ns (on_tracker g)" "sparing X ns (on_counters h)" "sparing X ns get_tracker"
  by (rule spares.quiet, intro frame_intro)+

lemma sparing_helpers:
  "client_go E \<Longrightarrow> sparing X ns fn \<Longrightarrow> sparing X ns (env_OnError E retriable fn)"
  "client_go E \<Longrightarrow> (\<And>a. sparing X ns (cond a)) \<Longrightarrow> sparing X ns (env_Poll E cond acc)"
proof -
  have "along (spares X) ns s (wait_tick s)" for s
    by (rule spares.one_call) (simp_all add: spares.all_refl)
  then show "client_go E \<Longrightarrow> sparing X ns fn \<Longrightarrow> sparing X ns (env_OnError E retriable fn)"
    "client_go E \<Longrightarrow> (\<And>a. sparing X ns (cond a)) \<Longrightarrow> sparing X ns (env_Poll E cond acc)"
    by (auto intro!: retry_frame poll_frame spares.frame.frame_rel_axioms)
qed

lemma sparing_patch:
  assumes "name \<in> X \<or> list_all (\<lambda>(k, v). k = AnnotationPoweredOff \<longrightarrow> v = None) p"
  shows "sparing X ns (PatchNode E name p)"
proof (rule spares.patch)
  fix m :: node assume "node_Name m = name"
  have "apply_patch p a AnnotationPoweredOff = None"
    if "list_all (\<lambda>(k, v). k = AnnotationPoweredOff \<longrightarrow> v = None) p" "a AnnotationPoweredOff = None" for a
    using that by (induction p a rule: apply_patch.induct) auto
  then show "spares X m (m\<lparr>node_Annotations := apply_patch p (node_Annotations m)\<rparr>)"
    using assms \<open>node_Name m = name\<close> by (auto simp: spares_def serves_def)
qed

lemma sparing_bodies:
  assumes "current_reads E ns"
  shows "sparing X ns (uncordon_body E name)" and "sparing X ns (recover_body E name)"
    and "name \<in> X \<Longrightarrow> sparing X ns (cordon_body E name)"
proof -
  show "sparing X ns (uncordon_body E name)" "sparing X ns (recover_body E name)"
    unfolding uncordon_body_def recover_body_def
    by (rule spares.get_update [OF assms, where f = uncordon];
        auto simp: spares_def serves_def duty_eq UpdateNode_def split: option.split)+
  show "name \<in> X \<Longrightarrow> sparing X ns (cordon_body E name)"
    unfolding cordon_body_def
    by (rule spares.get_update [OF assms, where f = cordon]) (auto simp: spares_def duty_eq)
qed

lemmas sparing_queries [frame_intro] =
  sparing_reading [OF reading_api(1)] sparing_reading [OF reading_api(2)] sparing_reading [OF reading_api(6)]
  sparing_reading [OF reading_api(7)] sparing_reading [OF query_reading(2)] sparing_reading [OF list_reading(1)]
  sparing_reading [OF list_reading(4)] sparing_reading [OF recently_off_reading] sparing_reading [OF volumes_gone_reading]
  sparing_reading [OF PickRotation_reading]

section \<open>The actions\<close>

lemma sparing_marks [frame_intro]:
  "sparing X ns (do_MarkGlobalShutdown E)" "sparing X ns (do_MarkShutdown E name)" "sparing X ns (do_MarkBooted E name)"
  "sparing X ns (shutdown_succeeded E name)" "sparing X ns (clear_recovered n)"
  unfolding do_MarkGlobalShutdown_def do_MarkShutdown_def do_MarkBooted_def shutdown_succeeded_def clear_recovered_def
  by (intro frame_intro)+

lemma sparing_actions:
  assumes "client_go E" and "current_reads E ns"
  shows "sparing X ns (UncordonNode E name)"
    and "sparing X ns (restoreScheduling E name)"
    and "sparing X ns (ClearPoweredOffAnnotation E name)"
    and "sparing X ns (RecoverUnexpectedlyBootedNodes E cfg dryRun)"
proof -
  show uncordon: "sparing X ns (UncordonNode E name)"
    unfolding UncordonNode_def by (intro sparing_helpers sparing_bodies assms)
  show "sparing X ns (restoreScheduling E name)"
    unfolding restoreScheduling_def by (intro frame_intro uncordon)
  show "sparing X ns (ClearPoweredOffAnnotation E name)"
    unfolding ClearPoweredOffAnnotation_def by (intro frame_intro sparing_patch) simp
  show "sparing X ns (RecoverUnexpectedlyBootedNodes E cfg dryRun)"
    unfolding RecoverUnexpectedlyBootedNodes_def recover_node_def
    by (intro frame_intro sparing_patch sparing_helpers sparing_bodies assms) simp
qed

lemma sparing_retiring:
  assumes "client_go E" and "current_reads E ns" and "name \<in> X"
  shows "sparing X ns (CordonAndDrain E cfg name)" and "sparing X ns (AnnotatePoweredOffNode E cfg name)"
proof -
  show "sparing X ns (CordonAndDrain E cfg name)"
    unfolding CordonAndDrain_def
    by (intro frame_intro sparing_helpers sparing_bodies spares.quiet [OF drain_poll_quiet] assms)
  show "sparing X ns (AnnotatePoweredOffNode E cfg name)"
    unfolding AnnotatePoweredOffNode_def by (intro frame_intro sparing_patch) (simp add: assms(3))
qed

context reconciler_parts begin

lemma sparing_calls:
  "sparing X ns (call_Shutdown (r_Shutdowner r) name)" "sparing X ns (call_PowerOn (r_PowerOner r) name mac)"
proof -
  show "sparing X ns (call_Shutdown (r_Shutdowner r) name)"
    by (intro spares.quiet call_Shutdown_frames shutdowner.calls_agent) (simp_all add: node_quiet_intros)
  show "sparing X ns (call_PowerOn (r_PowerOner r) name mac)"
    using power_oner.calls_agent [of node_quiet "(name, mac)"]
    by (intro spares.quiet call_PowerOn_frames) (simp_all add: node_quiet_intros)
qed

lemma sparing_power_on:
  assumes "client_go E" and "current_reads E ns"
  shows "sparing X ns (PowerOnAndMarkBooted E w cfg (r_PowerOner r) dryRun)"
  unfolding PowerOnAndMarkBooted_def
  by (intro frame_intro sparing_calls sparing_actions sparing_patch assms) simp

lemma sparing_loop:
  assumes "client_go E" and "current_reads E ns"
  shows "sparing X ns (ForcePowerOnAll E cfg (r_PowerOner r) dryRun)"
    and "sparing X ns (MaybeScaleUp E r)"
    and "sparing X ns (MaybeRotate E r)"
  unfolding ForcePowerOnAll_def force_node_def MaybeScaleUp_def MaybeRotate_def rotate_node_def
  by (intro frame_intro sparing_power_on sparing_reading [OF up.only_reads] assms)+

lemma sparing_scale_down:
  assumes "client_go E" and "current_reads E ns" and "name \<in> X"
  shows "sparing X ns (scale_down_node E r name)"
  unfolding scale_down_node_def retire_node_def
  by (intro frame_intro sparing_reading [OF down.only_reads] sparing_retiring sparing_actions sparing_calls assms)

end

section \<open>The floor\<close>

lemma capacity_spares:
  "list_all2 (spares X) xs ys \<Longrightarrow> capacity cfg xs \<le> capacity cfg ys + length (filter (\<lambda>n. node_Name n \<in> X) xs)"
proof (induction rule: list_all2_induct)
  case (Cons x xs y ys)
  then have m: "managed_node (managed_filter cfg) x = managed_node (managed_filter cfg) y"
    using managed_labels [of x y] by (simp add: spares_def)
  have "serves x \<Longrightarrow> node_Name x \<in> X \<or> serves y" using Cons.hyps by (auto simp: spares_def)
  then show ?case using Cons.IH m unfolding capacity_def
    by (cases "node_Name x \<in> X"; cases "serves x"; cases "serves y") simp_all
qed (simp add: capacity_def)

lemma distinct_named: "distinct (map node_Name xs) \<Longrightarrow> length (filter (\<lambda>n. node_Name n = name) xs) \<le> 1"
  by (induction xs) (auto simp: filter_empty_conv image_iff intro: Suc_leI)

text \<open>At every point so far at least \<open>k\<close> nodes were in service.\<close>

definition floor_held :: "config \<Rightarrow> int \<Rightarrow> node list \<Rightarrow> sys \<Rightarrow> bool" where
  "floor_held cfg k ns s \<longleftrightarrow> distinct (map node_Name (stored_nodes ns (hist s))) \<and>
     (\<forall>h. suffix h (hist s) \<longrightarrow> k \<le> int (capacity cfg (stored_nodes ns h)))"

definition holds_floor :: "config \<Rightarrow> int \<Rightarrow> node list \<Rightarrow> sys \<Rightarrow> sys \<Rightarrow> bool" where
  "holds_floor cfg k ns s t \<longleftrightarrow> (floor_held cfg k ns s \<longrightarrow> floor_held cfg k ns t)"

interpretation floor_frame: frame_rel "holds_floor cfg k ns" for cfg k ns
  by unfold_locales (auto simp: holds_floor_def)

lemmas [frame_intro] = floor_frame.holds_return floor_frame.holds_bind floor_frame.holds_when floor_frame.holds_for_each

lemma floor_sparing:
  assumes "along (spares X) ns s t" and "floor_held cfg k ns s"
    and "k + int (length (filter (\<lambda>n. node_Name n \<in> X) (stored_nodes ns (hist s)))) \<le> int (capacity cfg (stored_nodes ns (hist s)))"
  shows "floor_held cfg k ns t"
proof -
  have end_point: "list_all2 (spares X) (stored_nodes ns (hist s)) (stored_nodes ns (hist t))"
    and points: "\<And>h. suffix h (hist t) \<Longrightarrow>
      suffix h (hist s) \<or> list_all2 (spares X) (stored_nodes ns (hist s)) (stored_nodes ns h)"
    using assms(1,2) by (simp_all add: along_def floor_held_def)
  have "k \<le> int (capacity cfg (stored_nodes ns h))" if "suffix h (hist t)" for h
    using points [OF that] assms(2,3) capacity_spares [of X "stored_nodes ns (hist s)" "stored_nodes ns h" cfg]
    by (auto simp: floor_held_def)
  then show ?thesis using spares.names [OF end_point] assms(2) by (simp add: floor_held_def)
qed

lemma floor_sparing_none: "sparing {} ns m \<Longrightarrow> state_io_rel (holds_floor cfg k ns) m"
proof (rule state_io_relI)
  fix x s t assume "sparing {} ns m" "run_state m s = (x, t)"
  then have "along (spares {}) ns s t" by (rule state_io_rel_run)
  moreover have "k \<le> int (capacity cfg (stored_nodes ns (hist s)))" if "floor_held cfg k ns s"
    using that by (simp add: floor_held_def)
  ultimately show "holds_floor cfg k ns s t"
    unfolding holds_floor_def using floor_sparing [of "{}" ns s t cfg k] by simp
qed

text \<open>The eligible nodes of a listing are in service.\<close>

lemma may_stop_serves: "may_stop tr now cfg n \<Longrightarrow> serves n"
  by (auto simp: may_stop_def serves_def)

lemma eligible_in_service:
  assumes "current_reads E ns" and "run_state (listAllNodes E cfg) s = (Inr nodes, s1)"
    and "run_state (filterEligibleNodes E cfg nodes) s1 = (ws, s2)"
  shows "length ws \<le> capacity cfg (stored_nodes ns (hist s))" and "stored_nodes ns (hist s2) = stored_nodes ns (hist s)"
    and "along (spares {}) ns s s2"
proof -
  obtain xs where nodes: "nodes = filter (managed_node (managed_filter cfg)) xs" "env_ListNodes E (hist s) = Inr xs"
    using assms(2) by (auto simp: listAllNodes_def ListManagedNodes_def ListNodes_def split: prod.splits sum.splits)
  obtain now s1' where "run_state (FilterShutdownEligibleNodes E nodes now (eligibility_of cfg)) s1' = (ws, s2)"
    using assms(3) by (auto simp: filterEligibleNodes_def split: prod.splits)
  then have "mset (map w_Node ws) = mset (filter (may_stop (tracker s1') now (eligibility_of cfg)) nodes)"
    using eligible_nodes [of E nodes now "eligibility_of cfg" s1'] by simp
  then have "length ws = length (filter (may_stop (tracker s1') now (eligibility_of cfg)) nodes)"
    by (metis length_map mset_eq_length)
  also have "\<dots> \<le> capacity cfg xs"
    unfolding nodes(1) capacity_def filter_filter
    by (induction xs) (auto dest: may_stop_serves)
  also have "\<dots> = capacity cfg (stored_nodes ns (hist s))"
    using assms(1) nodes(2) by (intro capacity_duty) (simp add: current_reads_def)
  finally show "length ws \<le> capacity cfg (stored_nodes ns (hist s))" .
  have reads: "state_io_rel reading (listAllNodes E cfg)" "state_io_rel reading (filterEligibleNodes E cfg nodes)"
    by (intro frame_intro)+
  note quiet = reads [THEN reading_all(1), of node_quiet, OF node_quiet_intros(1)]
  show "stored_nodes ns (hist s2) = stored_nodes ns (hist s)"
    using stored_quiet_run [OF quiet(1) assms(2)] stored_quiet_run [OF quiet(2) assms(3)] by simp
  show "along (spares {}) ns s s2"
    using state_io_rel_run [OF spares.quiet [OF quiet(1)] assms(2)] state_io_rel_run [OF spares.quiet [OF quiet(2)] assms(3)]
    by (rule spares.frame.R_trans)
qed

context reconciler_parts begin

lemma MaybeScaleDown_floor:
  assumes "client_go E" and "current_reads E ns" and "run_state (MaybeScaleDown E r ws) s = (d, t)"
    and "floor_held (r_Cfg r) k ns s" and "k \<le> MinNodes (r_Cfg r)"
    and "length ws \<le> capacity (r_Cfg r) (stored_nodes ns (hist s))"
  shows "floor_held (r_Cfg r) k ns t"
proof (cases "MinNodes (r_Cfg r) < int (length ws) \<and> ws \<noteq> []")
  case False
  then have "t = s" using assms(3) by (auto simp: MaybeScaleDown_def PickScaleDownCandidate_cases split: if_splits)
  then show ?thesis using assms(4) by simp
next
  case True
  let ?name = "w_Name (last ws)"
  obtain b where "run_state (scale_down_node E r ?name) s = (b, t)"
    using assms(3) True by (auto simp: MaybeScaleDown_def PickScaleDownCandidate_cases split: prod.splits)
  then have "along (spares {?name}) ns s t"
    by (rule state_io_rel_run [OF sparing_scale_down [OF assms(1,2)], rotated]) simp
  moreover have "length (filter (\<lambda>n. node_Name n \<in> {?name}) (stored_nodes ns (hist s))) \<le> 1"
    using distinct_named [of "stored_nodes ns (hist s)" ?name] assms(4) by (simp add: floor_held_def)
  ultimately show ?thesis
    using floor_sparing [OF _ assms(4), of "{?name}" t] True assms(5,6) by linarith
qed

lemma scale_down_step_floor:
  assumes "client_go E" and "current_reads E ns" and "k \<le> MinNodes (r_Cfg r)"
    and "\<And>d. state_io_rel (holds_floor (r_Cfg r) k ns) (c d)"
  shows "state_io_rel (holds_floor (r_Cfg r) k ns) (do {
      a \<leftarrow> listAllNodes E (r_Cfg r);
      case a of
        Inl err \<Rightarrow> ret (Ret (Some err))
      | Inr nodes \<Rightarrow> do { ws \<leftarrow> filterEligibleNodes E (r_Cfg r) nodes; d \<leftarrow> MaybeScaleDown E r ws; c d }
    })" (is "state_io_rel _ ?m")
proof (rule state_io_relI)
  fix x s t assume run: "run_state ?m s = (x, t)"
  obtain a s1 where list: "run_state (listAllNodes E (r_Cfg r)) s = (a, s1)" by fastforce
  show "holds_floor (r_Cfg r) k ns s t"
  proof (cases a)
    case (Inl err)
    then have "run_state (listAllNodes E (r_Cfg r)) s = (a, t)" using run list by simp
    then show ?thesis
      by (rule state_io_rel_run [OF floor_sparing_none [OF sparing_reading [OF list_reading(1)]]])
  next
    case (Inr nodes)
    obtain ws s2 where filt: "run_state (filterEligibleNodes E (r_Cfg r) nodes) s1 = (ws, s2)" by fastforce
    obtain d s3 where down: "run_state (MaybeScaleDown E r ws) s2 = (d, s3)" by fastforce
    have rest: "run_state (c d) s3 = (x, t)" using run list Inr filt down by simp
    note service = eligible_in_service [OF assms(2) list [unfolded Inr] filt]
    have "floor_held (r_Cfg r) k ns t" if held: "floor_held (r_Cfg r) k ns s"
    proof -
      have "k \<le> int (capacity (r_Cfg r) (stored_nodes ns (hist s)))" using held by (simp add: floor_held_def)
      then have "floor_held (r_Cfg r) k ns s2" using floor_sparing [OF service(3) held] by simp
      then have "floor_held (r_Cfg r) k ns s3"
        using MaybeScaleDown_floor [OF assms(1,2) down _ assms(3)] service(1,2) by simp
      then show ?thesis using state_io_rel_run [OF assms(4) rest] by (simp add: holds_floor_def)
    qed
    then show ?thesis by (simp add: holds_floor_def)
  qed
qed

lemma Reconcile_floor:
  assumes "client_go E" and "current_reads E ns" and "k \<le> MinNodes (r_Cfg r)"
  shows "state_io_rel (holds_floor (r_Cfg r) k ns) (Reconcile E r)"
proof -
  note spare = floor_sparing_none [OF sparing_loop(1) [OF assms(1,2)]] floor_sparing_none [OF sparing_loop(2) [OF assms(1,2)]]
    floor_sparing_none [OF sparing_loop(3) [OF assms(1,2)]] floor_sparing_none [OF sparing_actions(4) [OF assms(1,2)]]
    floor_sparing_none [OF sparing_queries(1)] floor_sparing_none [OF sparing_queries(6)]
    floor_sparing_none [OF sparing_marks(5)] floor_sparing_none [OF sparing_state(2)] floor_sparing_none [OF sparing_state(3)]
  show ?thesis
    unfolding Reconcile_def reconcile_decide_def reconcile_loop_def
    by (intro scale_down_step_floor [OF assms] spare frame_intro)
qed

lemma run_loop_floor:
  assumes "client_go E" and "current_reads E ns" and "k \<le> MinNodes (r_Cfg r)"
  shows "state_io_rel (holds_floor (r_Cfg r) k ns) (run_loop n E r)"
  by (induction n)
    (auto intro!: frame_intro Reconcile_floor [OF assms] floor_sparing_none [OF sparing_queries(2)] split: go.split)

end

section \<open>Properties\<close>

text \<open>C2: the autoscaler never takes the cluster below its minimum. Let the names of the nodes be unique and
  the reads show who is in service; anything else of the nodes may change and every write may fail.
  Then at every point of every run at least as many managed nodes are schedulable and unmarked as the
  configured minimum asks for, or as there were at the start if these were fewer.\<close>

theorem minimum_kept:
  assumes "client_go E" and "current_reads E ns" and "distinct (map node_Name ns)"
    and "Load decoded = Inr cfg" and "run_state (main_run n E decoded dryRunFlag opts) init_sys = (x, t)"
    and "suffix h (hist t)"
  shows "min (MinNodes cfg) (int (capacity cfg ns)) \<le> int (capacity cfg (stored_nodes ns h))"
proof -
  let ?k = "min (MinNodes cfg) (int (capacity cfg ns))"
  let ?cfg = "if dryRunFlag then cfg\<lparr>DryRun := True\<rparr> else cfg"
  have same: "capacity ?cfg = capacity cfg" "MinNodes ?cfg = MinNodes cfg"
    by (simp_all add: fun_eq_iff capacity_def managed_filter_def)
  have "?k \<le> MinNodes (r_Cfg (build_reconciler E ?cfg opts))" by (simp add: build_reconciler_simps)
  from built.run_loop_floor [OF assms(1,2) this]
  have "state_io_rel (holds_floor ?cfg ?k ns) (controller_run n E ?cfg opts)"
    unfolding controller_run_def NewReconciler_bind
    by (intro frame_intro floor_sparing_none [OF sparing_queries(2)]
        floor_sparing_none [OF spares.quiet [OF RestorePoweredOffState_frames(1)]] node_quiet_intros(1))
      (simp_all add: build_reconciler_simps)
  moreover obtain y where "run_state (controller_run n E ?cfg opts) init_sys = (y, t)"
    using assms(4,5) by (auto simp: main_run_def Let_def split: prod.splits)
  moreover have "floor_held ?cfg ?k ns init_sys"
    using assms(3) by (simp add: floor_held_def init_sys_def same)
  ultimately have "floor_held ?cfg ?k ns t"
    by (auto simp: holds_floor_def dest: state_io_rel_run)
  then show ?thesis using assms(6) by (simp add: floor_held_def same)
qed

theorem minimum_kept_witness:
  "list_all (\<lambda>h. 1 \<le> capacity sample_config (stored_nodes (cl_nodes sample_cluster) h))
     (suffixes (hist (snd (run_state (main_run 3 (store_env sample_cluster) (Inr sample_config) False []) init_sys))))"
  unfolding list_all_iff
proof
  let ?run = "run_state (main_run 3 (store_env sample_cluster) (Inr sample_config) False []) init_sys"
  fix h assume "h \<in> set (suffixes (hist (snd ?run)))"
  then have h: "suffix h (hist (snd ?run))" by simp
  have "distinct (map node_Name (cl_nodes sample_cluster))" by (simp add: sample_cluster_def sample_node_def)
  moreover have "Load (Inr sample_config) = Inr sample_config" by code_simp
  moreover have "capacity sample_config (cl_nodes sample_cluster) = 2" by code_simp
  ultimately show "1 \<le> capacity sample_config (stored_nodes (cl_nodes sample_cluster) h)"
    using minimum_kept [OF store_env_client_go store_env_current_reads _ _ prod.collapse [symmetric] h]
    by (simp add: sample_config_def)
qed

end
