(* ===== verification/Forced_Mode.thy ===== *)
theory Forced_Mode
  imports Reconcile_Safety Node_Selection
begin

text \<open>
  The forced power-on (\<^verbatim>\<open>ForcePowerOnAllNodes\<close>): what a loop in that mode may do, and that it tries
  every managed node that is not ready; and the restoring of the powered-off set at the start.
\<close>

section \<open>What a loop in forced mode may do\<close>

text \<open>Reading, requests to agents, giving nodes back to the scheduler, and powering on.\<close>

fun waking_call :: "call \<Rightarrow> bool" where
  "waking_call (CPowerOn name mac r) = True"
| "waking_call c = (agent_call c \<or> restoring_call c)"

lemma waking_call_intros:
  "agent_call c \<Longrightarrow> waking_call c" "restoring_call c \<Longrightarrow> waking_call c" "\<not> is_write c \<Longrightarrow> waking_call c"
  by (cases c; simp)+

lemma waking_call_cases: "waking_call c \<Longrightarrow> agent_call c \<or> restoring_call c \<or> (\<exists>name mac r. c = CPowerOn name mac r)"
  by (cases c) auto

context reconciler_parts begin

lemma force_node_logs:
  assumes "client_go E"
  shows "state_io_rel (logs waking_call) (force_node E cfg (r_PowerOner r) dryRun now n)"
  unfolding force_node_def
  by (intro frame_intro PowerOn_logs assms) (simp_all add: waking_call_intros)

lemma ForcePowerOnAll_logs:
  assumes "client_go E"
  shows "state_io_rel (logs waking_call) (ForcePowerOnAll E cfg (r_PowerOner r) dryRun)"
  unfolding ForcePowerOnAll_def
  by (intro frame_intro force_node_logs assms) (simp_all add: waking_call_intros)

lemma Reconcile_forced_logs:
  assumes "client_go E" and "ForcePowerOnAllNodes (r_Cfg r)"
  shows "state_io_rel (logs waking_call) (Reconcile E r)"
proof -
  have decide: "state_io_rel (logs waking_call) (reconcile_decide E r now)" for now
    unfolding reconcile_decide_def using assms(2)
    by (simp, intro frame_intro ForcePowerOnAll_logs assms(1))
  show ?thesis unfolding Reconcile_def
    by (intro frame_intro recover_logs decide assms(1)) (simp_all add: waking_call_intros)
qed

end

section \<open>Every node is tried\<close>

text \<open>A loop whose turns each log something leaves all of it in the log.\<close>

lemma for_each_evidence:
  assumes "run_state (for_each f xs) s = ((), t)"
    and "\<And>x s t. x \<in> set xs \<Longrightarrow> run_state (f x) s = ((), t) \<Longrightarrow> \<exists>cs. hist t = cs @ hist s \<and> Q x cs"
    and "\<And>x cs a b. Q x cs \<Longrightarrow> Q x (a @ cs @ b)"
  shows "\<exists>cs. hist t = cs @ hist s \<and> (\<forall>x \<in> set xs. Q x cs)"
  using assms(1,2)
proof (induction xs arbitrary: s)
  case Nil
  then show ?case by simp
next
  case (Cons x xs)
  obtain u where one: "run_state (f x) s = ((), u)" and rest: "run_state (for_each f xs) u = ((), t)"
    using Cons.prems(1) by (auto split: prod.splits)
  obtain cs where cs: "hist u = cs @ hist s" "Q x cs" using Cons.prems(2) [OF _ one] by auto
  obtain ds where ds: "hist t = ds @ hist u" "\<forall>y \<in> set xs. Q y ds" using Cons.IH [OF rest] Cons.prems(2) by auto
  have "Q x (ds @ cs)" using assms(3) [of x cs ds "[]"] cs(2) by simp
  moreover have "\<forall>y \<in> set xs. Q y (ds @ cs)" using assms(3) [of _ ds "[]" cs] ds(2) by simp
  ultimately show ?case using cs(1) ds(1) by auto
qed

definition wants_power :: "config \<Rightarrow> node \<Rightarrow> bool" where
  "wants_power cfg n \<longleftrightarrow> managed_node (managed_filter cfg) n \<and> \<not> IsNodeReady n \<and>
     GetMACAddressFromNode n \<lparr>na_MAC = na_MAC (NodeAnnotations cfg)\<rparr> \<noteq> []"

definition tried :: "config \<Rightarrow> node \<Rightarrow> call list \<Rightarrow> bool" where
  "tried cfg n cs \<longleftrightarrow> (\<exists>r. CPowerOn (node_Name n)
     (GetMACAddressFromNode n \<lparr>na_MAC = na_MAC (NodeAnnotations cfg)\<rparr>) r \<in> set cs)"

text \<open>With a MAC address, the call of the controller comes first.\<close>

lemma PowerOn_after_call:
  assumes "client_go E" and "GetMACAddressFromNode (w_Node w) \<lparr>na_MAC = na_MAC (NodeAnnotations cfg)\<rparr> \<noteq> []"
  shows "\<exists>rest. PowerOnAndMarkBooted E w cfg powerOner False =
      State_Monad.bind (call_PowerOn powerOner (w_Name w)
        (GetMACAddressFromNode (w_Node w) \<lparr>na_MAC = na_MAC (NodeAnnotations cfg)\<rparr>)) rest \<and>
    (\<forall>x. state_io_rel (logs (\<lambda>_. True)) (rest x))"
  unfolding PowerOnAndMarkBooted_def Let_def if_False if_not_P [OF assms(2)]
  by (intro exI conjI, rule refl) (intro allI frame_intro assms(1); simp)

context reconciler_parts begin

lemma PowerOn_tries:
  assumes "client_go E" and "run_state (PowerOnAndMarkBooted E w cfg (r_PowerOner r) False) s = (x, t)"
    and "GetMACAddressFromNode (w_Node w) \<lparr>na_MAC = na_MAC (NodeAnnotations cfg)\<rparr> \<noteq> []"
  shows "\<exists>cs. hist t = cs @ hist s \<and> tried cfg (w_Node w) cs"
proof -
  let ?mac = "GetMACAddressFromNode (w_Node w) \<lparr>na_MAC = na_MAC (NodeAnnotations cfg)\<rparr>"
  obtain p s1 where act: "run_state (r_PowerOner r (w_Name w) ?mac) s = (p, s1)" by fastforce
  let ?s1 = "s1\<lparr>hist := CPowerOn (w_Name w) ?mac p # hist s1\<rparr>"
  obtain rest where "PowerOnAndMarkBooted E w cfg (r_PowerOner r) False =
      State_Monad.bind (call_PowerOn (r_PowerOner r) (w_Name w) ?mac) rest"
    and rest: "\<And>x. state_io_rel (logs (\<lambda>_. True)) (rest x)"
    using PowerOn_after_call [OF assms(1), of w cfg "r_PowerOner r"] assms(3) by auto
  then have "run_state (rest p) ?s1 = (x, t)" using assms(2) act by (simp add: call_PowerOn_def)
  then obtain ds where "hist t = ds @ hist ?s1" using logs_run [OF rest] by blast
  moreover have "state_io_rel (logs (\<lambda>_. True)) (r_PowerOner r (w_Name w) ?mac)"
    using power_oner.calls_agent [of "\<lambda>_. True" "(w_Name w, ?mac)"] by simp
  then obtain as where "hist s1 = as @ hist s" using logs_run [OF _ act] by blast
  ultimately show ?thesis by (auto simp: tried_def intro!: exI [where x = "ds @ CPowerOn (w_Name w) ?mac p # as"])
qed

lemma force_node_tries:
  assumes "client_go E" and "run_state (force_node E cfg (r_PowerOner r) False now n) s = ((), t)"
  shows "\<exists>cs. hist t = cs @ hist s \<and> (wants_power cfg n \<longrightarrow> tried cfg n cs)"
proof (cases "wants_power cfg n")
  case False
  then show ?thesis using logs_run [OF force_node_logs [OF assms(1)] assms(2)] by auto
next
  case True
  let ?w = "NewNodeWrapper n (Some (tracker s)) now \<lparr>na_MAC = na_MAC (NodeAnnotations cfg)\<rparr> (IgnoreLabels cfg)"
  obtain x where "run_state (PowerOnAndMarkBooted E ?w cfg (r_PowerOner r) False) s = (x, t)"
    using assms(2) True by (auto simp: force_node_def wants_power_def split: prod.splits)
  from PowerOn_tries [OF assms(1) this] show ?thesis using True by (simp add: wants_power_def)
qed

lemma ForcePowerOnAll_tries:
  assumes "client_go E" and "run_state (ForcePowerOnAll E cfg (r_PowerOner r) False) s = (None, t)"
  shows "\<exists>nodes cs. hist t = cs @ CListNodes (Inr nodes) # hist s \<and>
    (\<forall>n \<in> set nodes. wants_power cfg n \<longrightarrow> tried cfg n cs)"
proof -
  obtain ns s1 where list: "run_state (ListManagedNodes E (managed_filter cfg)) s = (Inr ns, s1)"
    using assms(2) by (auto simp: ForcePowerOnAll_def split: prod.splits sum.splits)
  obtain nodes where nodes: "hist s1 = CListNodes (Inr nodes) # hist s" "ns = filter (managed_node (managed_filter cfg)) nodes"
    using run_ListManagedNodes [OF list] by auto
  obtain now s2 where now: "run_state (Now E) s1 = (now, s2)" by fastforce
  have loop: "run_state (for_each (force_node E cfg (r_PowerOner r) False now) ns) s2 = ((), t)"
    using assms(2) list now by (auto simp: ForcePowerOnAll_def split: prod.splits)
  have "\<exists>cs. hist t = cs @ hist s2 \<and> (\<forall>n \<in> set ns. wants_power cfg n \<longrightarrow> tried cfg n cs)"
    by (rule for_each_evidence [OF loop]) (use force_node_tries [OF assms(1)] nodes(2) in \<open>auto simp: tried_def\<close>)
  then obtain cs where cs: "hist t = cs @ hist s2" "\<forall>n \<in> set ns. wants_power cfg n \<longrightarrow> tried cfg n cs" by blast
  have "hist t = (cs @ [CNow now]) @ CListNodes (Inr nodes) # hist s" using cs(1) run_Now [OF now] nodes(1) by simp
  moreover have "\<forall>n \<in> set nodes. wants_power cfg n \<longrightarrow> tried cfg n (cs @ [CNow now])"
    using cs(2) nodes(2) by (auto simp: wants_power_def tried_def)
  ultimately show ?thesis by blast
qed

end

section \<open>Properties\<close>

text \<open>C33: a loop in forced mode never evicts a pod, never shuts a machine down, never cordons a node and
  never marks one powered off: besides reading it only makes requests to agents, powers on, lifts
  cordons and replaces the powered-off mark by a boot time.\<close>

theorem forced_mode_safe:
  assumes "client_go E" and "ForcePowerOnAllNodes cfg"
    and "run_state (Reconcile E (build_reconciler E cfg opts)) s = (x, t)"
  shows "\<exists>cs. hist t = cs @ hist s \<and> list_all waking_call cs"
  using logs_run [OF built.Reconcile_forced_logs [OF assms(1)] assms(3)] assms(2) by simp

theorem forced_mode_safe_witness:
  "\<exists>cs. hist (snd (run_state (Reconcile (store_env sample_cluster)
      (build_reconciler (store_env sample_cluster) (sample_config\<lparr>ForcePowerOnAllNodes := True\<rparr>) [])) init_sys)) =
     cs @ hist init_sys \<and> list_all waking_call cs"
  by (rule forced_mode_safe [OF store_env_client_go _ prod.collapse [symmetric]]) simp

text \<open>C35: a forced power-on that succeeds outside dry-run has called the power-on controller for every node of
  its listing that is managed, not ready and has a MAC address under the configured key, whatever
  became of the others.\<close>

theorem forced_mode_tries:
  assumes "client_go E"
    and "run_state (ForcePowerOnAll E cfg (snd (NewControllersFromConfig E cfg)) False) s = (None, t)"
  shows "\<exists>nodes cs. hist t = cs @ CListNodes (Inr nodes) # hist s \<and>
    (\<forall>n \<in> set nodes. wants_power cfg n \<longrightarrow> tried cfg n cs)"
  using built.ForcePowerOnAll_tries [OF assms(1), of cfg E cfg "[]" s t] assms(2) by simp

theorem forced_mode_tries_witness:
  "tried (sample_config\<lparr>PowerOnMode := ''disabled''\<rparr>) (off_node ''n1'' ''unknown'')
     (hist (snd (run_state (ForcePowerOnAll (constant_env [off_node ''n1'' ''unknown'', sample_node ''n2''] [] ok_resp)
       (sample_config\<lparr>PowerOnMode := ''disabled''\<rparr>)
       (snd (NewControllersFromConfig (constant_env [off_node ''n1'' ''unknown'', sample_node ''n2''] [] ok_resp)
          (sample_config\<lparr>PowerOnMode := ''disabled''\<rparr>))) False) init_sys)))"
proof -
  let ?ns = "[off_node ''n1'' ''unknown'', sample_node ''n2'']" and ?cfg = "sample_config\<lparr>PowerOnMode := ''disabled''\<rparr>"
  let ?E = "constant_env ?ns [] ok_resp"
  let ?run = "run_state (ForcePowerOnAll ?E ?cfg (snd (NewControllersFromConfig ?E ?cfg)) False) init_sys"
  have ok: "fst ?run = None" and first: "last (hist (snd ?run)) = CListNodes (Inr ?ns)"
    by (simp_all add: run_simps)
  obtain nodes cs where t: "hist (snd ?run) = cs @ [CListNodes (Inr nodes)]"
    and each: "\<forall>n \<in> set nodes. wants_power ?cfg n \<longrightarrow> tried ?cfg n cs"
    using forced_mode_tries [OF constant_env_client_go run_result [OF ok]] by (auto simp: init_sys_def)
  have "nodes = ?ns" using t first by simp
  moreover have "wants_power ?cfg (off_node ''n1'' ''unknown'')"
    by (simp add: wants_power_def managed_node_def managed_filter_def map_get_def IsNodeReady_def
        GetMACAddressFromNode_def sample_config_def)
  ultimately have "tried ?cfg (off_node ''n1'' ''unknown'') cs" using each by simp
  then show ?thesis unfolding t by (auto simp: tried_def)
qed

text \<open>C36: restoring the powered-off set at the start marks nothing when the two listings it makes show the same
  nodes, however many of them are off: the tracker stays as it was created.\<close>

theorem restore_marks_nothing:
  assumes "run_state (ListNodes E) s = (Inr all, s1)" and "fst (run_state (ListNodes E) s1) = Inr all'"
    and "node_Name ` set all' \<subseteq> node_Name ` set all"
  shows "tracker (snd (run_state (RestorePoweredOffState E cfg) s)) = tracker s"
proof -
  have each: "run_state (for_each (\<lambda>n. if node_Name n \<in> set (map node_Name all) then ret ()
      else on_tracker (MarkPoweredOff (node_Name n))) ns) u = ((), u)" if "set ns \<subseteq> set all'" for ns u
    using that assms(3) by (induction ns arbitrary: u) auto
  have "tracker s1 = tracker s" using assms(1) by (auto simp: ListNodes_def)
  then show ?thesis
    using assms(1,2) each by (auto simp: RestorePoweredOffState_def ListManagedNodes_def ListNodes_def)
qed

theorem restore_marks_nothing_witness:
  "tracker (snd (run_state (RestorePoweredOffState
     (constant_env [off_node ''n1'' ''unknown'', sample_node ''n2''] [] ok_resp) sample_config) init_sys)) = tracker init_sys"
proof -
  let ?ns = "[off_node ''n1'' ''unknown'', sample_node ''n2'']"
  have "run_state (ListNodes (constant_env ?ns [] ok_resp)) init_sys = (Inr ?ns, init_sys\<lparr>hist := [CListNodes (Inr ?ns)]\<rparr>)"
    "fst (run_state (ListNodes (constant_env ?ns [] ok_resp)) (init_sys\<lparr>hist := [CListNodes (Inr ?ns)]\<rparr>)) = Inr ?ns"
    by (simp_all add: ListNodes_def constant_env_def init_sys_def)
  then show ?thesis by (rule restore_marks_nothing) simp
qed

end
