(* ===== verification/Scale_Up.thy ===== *)
theory Scale_Up
  imports Forced_Mode Node_Store Process
begin

text \<open>
  The way back up: on a cluster that answers, a round outside the cooldown that finds fewer active
  nodes than the minimum calls the power-on controller for the node that has been off the longest.
\<close>

section \<open>Active and sleeping nodes\<close>

text \<open>What \<^verbatim>\<open>ListActiveNodes\<close> and \<^verbatim>\<open>ListShutdownNodeNames\<close> keep of a listing.\<close>

definition active :: "config \<Rightarrow> node_state_tracker \<Rightarrow> node \<Rightarrow> bool" where
  "active cfg tr n \<longleftrightarrow> managed_node (managed_filter cfg) n \<and> IsNodeReady n \<and> \<not> node_Unschedulable n \<and>
     node_Annotations n AnnotationPoweredOff = None \<and> \<not> IsPoweredOff tr (node_Name n) \<and>
     (\<forall>(k, v) \<in> set (IgnoreLabels cfg). node_Labels n k \<noteq> Some v)"

definition asleep :: "config \<Rightarrow> node_state_tracker \<Rightarrow> node \<Rightarrow> bool" where
  "asleep cfg tr n \<longleftrightarrow> managed_node (managed_filter cfg) n \<and> off_since tr n \<noteq> None"

lemma active_node_iff:
  "managed_node (managed_filter cfg) n \<and> active_node (NewNodeWrapper n (Some tr) now keys (IgnoreLabels cfg)) \<longleftrightarrow>
     active cfg tr n"
proof -
  have "IsIgnored (NewNodeWrapper n (Some tr) now keys (IgnoreLabels cfg)) \<longleftrightarrow>
      \<not> (\<forall>(k, v) \<in> set (IgnoreLabels cfg). node_Labels n k \<noteq> Some v)"
    by (auto simp: IsIgnored_def list_ex_iff)
  then show ?thesis
    by (auto simp: active_def active_node_def IsMarkedPoweredOff_def IsCordoned_def IsReady_def IsNodeReady_def)
qed

lemma run_listActiveNodes:
  assumes "env_ListNodes E (hist s) = Inr xs"
  obtains now where "run_state (listActiveNodes E cfg) s =
    (Inr (filter (active cfg (tracker s)) xs), s\<lparr>hist := CNow now # CListNodes (Inr xs) # hist s\<rparr>)"
proof -
  have "active cfg tr = (\<lambda>n. managed_node (managed_filter cfg) n \<and>
      active_node (NewNodeWrapper n (Some tr) now keys (IgnoreLabels cfg)))" for tr now keys
    by (rule ext) (simp add: active_node_iff)
  then have "map w_Node (filter active_node (WrapNodes (filter (managed_node (managed_filter cfg)) xs) (Some tr) now keys (IgnoreLabels cfg))) =
      filter (active cfg tr) xs" for tr now keys
    unfolding WrapNodes_def filter_map map_map comp_def filter_filter NewNodeWrapper_simps
    by (simp add: conj_commute)
  then show ?thesis using assms that
    by (auto simp: listActiveNodes_def ListActiveNodes_def ListManagedNodes_def ListNodes_def Now_def)
qed

lemma run_shutdownNodeNames:
  assumes "env_ListNodes E (hist s) = Inr xs" and "n0 \<in> set xs" and "asleep cfg (tracker s) n0"
  obtains n names where "n \<in> set xs" and "asleep cfg (tracker s) n"
    and "\<And>m. m \<in> set xs \<Longrightarrow> asleep cfg (tracker s) m \<Longrightarrow> the (off_since (tracker s) n) \<le> the (off_since (tracker s) m)"
    and "run_state (shutdownNodeNames E cfg) s =
      (node_Name n # names, s\<lparr>hist := CRand # CListNodes (Inr xs) # hist s\<rparr>)"
proof -
  let ?key = "\<lambda>n. the (off_since (tracker s) n)"
  let ?off = "filter (\<lambda>n. off_since (tracker s) n \<noteq> None) (filter (managed_node (managed_filter cfg)) xs)"
  obtain r t where run: "run_state (ListShutdownNodeNames E (managed_filter cfg)) s = (Inr r, t)"
    and t: "t = s\<lparr>hist := CRand # CListNodes (Inr xs) # hist s\<rparr>"
    using assms(1) by (auto simp: ListShutdownNodeNames_def ListManagedNodes_def ListNodes_def Rand_def)
  from run_ListShutdownNodeNames [OF run] obtain rnd where r: "r = map node_Name (sort_Slice rnd ?key ?off)"
    using t by auto
  have off: "set ?off = {m \<in> set xs. asleep cfg (tracker s) m}" by (auto simp: asleep_def)
  then have "?off \<noteq> []" using assms(2,3) by (metis (mono_tags, lifting) empty_iff list.set(1) mem_Collect_eq)
  then obtain n rest where sorted: "sort_Slice rnd ?key ?off = n # rest"
    by (metis neq_Nil_conv sort_Slice_Nil_iff)
  then have "n \<in> set ?off" by (metis list.set_intros(1) set_sort_Slice)
  moreover have "?key n \<le> ?key m" if "m \<in> set ?off" for m
    using hd_sort_Slice_least [OF that, of ?key rnd] sorted by simp
  moreover have "run_state (shutdownNodeNames E cfg) s = (node_Name n # map node_Name rest, t)"
    using run r sorted by (simp add: shutdownNodeNames_def)
  ultimately show ?thesis
    by (intro that [of n "map node_Name rest"]) (use t in \<open>auto simp: asleep_def\<close>)
qed

section \<open>The round\<close>

text \<open>From a point on and until something is written, the API server answers and shows these nodes.\<close>

definition shows_nodes :: "env \<Rightarrow> call list \<Rightarrow> node list \<Rightarrow> bool" where
  "shows_nodes E h xs \<longleftrightarrow>
     (\<forall>cs. list_all (\<lambda>c. \<not> is_write c) cs \<longrightarrow> env_ListNodes E (cs @ h) = Inr xs \<and>
        (\<forall>n \<in> set xs. env_GetNode E (cs @ h) (node_Name n) = Inr n))"

lemma shows_nodesD:
  assumes "shows_nodes E h xs" and "list_all (\<lambda>c. \<not> is_write c) cs"
  shows "env_ListNodes E (cs @ h) = Inr xs"
    and "n \<in> set xs \<Longrightarrow> env_GetNode E (cs @ h) (node_Name n) = Inr n"
  using assms by (simp_all add: shows_nodes_def)

lemma store_env_shows:
  assumes "distinct (map node_Name (stored_nodes (cl_nodes c) h))"
  shows "shows_nodes (store_env c) h (stored_nodes (cl_nodes c) h)"
proof -
  have "stored_nodes (cl_nodes c) (cs @ h) = stored_nodes (cl_nodes c) h" if "list_all (\<lambda>c. \<not> is_write c) cs" for cs
    using that by (intro stored_quiet) (auto simp: list_all_iff node_quiet_intros)
  then show ?thesis
    unfolding shows_nodes_def by (simp add: store_env_def node_named_unique [OF assms])
qed

lemma run_scale_up_below_minimum:
  assumes "shows_nodes E (hist s) xs"
    and "int (length (filter (active cfg (tracker s)) xs)) < MinNodes cfg"
    and "n0 \<in> set xs" and "asleep cfg (tracker s) n0"
  obtains n t cs where "n \<in> set xs" and "asleep cfg (tracker s) n"
    and "\<And>m. m \<in> set xs \<Longrightarrow> asleep cfg (tracker s) m \<Longrightarrow>
      the (off_since (tracker s) n) \<le> the (off_since (tracker s) m)"
    and "run_state (su_ShouldScaleUp (buildScaleUpStrategy E cfg override)) s = (Inr (node_Name n, True), t)"
    and "hist t = cs @ hist s" and "list_all (\<lambda>c. \<not> is_write c) cs"
proof -
  let ?xs = xs
  obtain now where list: "run_state (listActiveNodes E cfg) s =
      (Inr (filter (active cfg (tracker s)) ?xs), s\<lparr>hist := CNow now # CListNodes (Inr ?xs) # hist s\<rparr>)"
    by (rule run_listActiveNodes [OF shows_nodesD(1) [OF assms(1), of "[]", simplified]])
  let ?s1 = "s\<lparr>hist := CNow now # CListNodes (Inr ?xs) # hist s\<rparr>"
  have "env_ListNodes E (hist ?s1) = Inr ?xs" 
    using shows_nodesD(1) [OF assms(1), of "[CNow now, CListNodes (Inr ?xs)]"] by simp
  then obtain n names where n: "n \<in> set ?xs" "asleep cfg (tracker s) n"
    "\<And>m. m \<in> set ?xs \<Longrightarrow> asleep cfg (tracker s) m \<Longrightarrow> the (off_since (tracker s) n) \<le> the (off_since (tracker s) m)"
    and names: "run_state (shutdownNodeNames E cfg) ?s1 =
      (node_Name n # names, ?s1\<lparr>hist := CRand # CListNodes (Inr ?xs) # hist ?s1\<rparr>)"
    using run_shutdownNodeNames [of E ?s1 ?xs n0 cfg] assms(3,4) by auto
  have "run_state (MinNodeCount_ShouldScaleUp (min_node_count_of E cfg)) s =
      (Inr (node_Name n, True), ?s1\<lparr>hist := CRand # CListNodes (Inr ?xs) # hist ?s1\<rparr>)"
    using list names assms(2) by (simp add: MinNodeCount_ShouldScaleUp_def min_node_count_of_def)
  then have "run_state (su_ShouldScaleUp (buildScaleUpStrategy E cfg override)) s =
      (Inr (node_Name n, True), ?s1\<lparr>hist := CRand # CListNodes (Inr ?xs) # hist ?s1\<rparr>)"
    by (simp add: buildScaleUpStrategy_def MultiUpStrategy_def MinNodeCountScaleUp_def)
  from that [OF n this, of "[CRand, CListNodes (Inr ?xs), CNow now, CListNodes (Inr ?xs)]"] show ?thesis by simp
qed

context reconciler_parts begin

lemma MaybeScaleUp_tries:
  assumes "client_go E" and "\<not> DryRun (r_Cfg r)"
    and "run_state (su_ShouldScaleUp (r_ScaleUpStrategy r)) s = (Inr (node_Name n, True), s1)"
    and "env_GetNode E (hist s1) (node_Name n) = Inr n"
    and "GetMACAddressFromNode n \<lparr>na_MAC = na_MAC (NodeAnnotations (r_Cfg r))\<rparr> \<noteq> []"
    and "run_state (MaybeScaleUp E r) s = (up, t)"
  shows "\<exists>cs. hist t = cs @ hist s1 \<and> tried (r_Cfg r) n cs"
proof -
  let ?w = "\<lambda>now. NewNodeWrapper n (Some (tracker s1)) now \<lparr>na_MAC = na_MAC (NodeAnnotations (r_Cfg r))\<rparr>
    (IgnoreLabels (r_Cfg r))"
  let ?s2 = "s1\<lparr>hist := CGetNode (node_Name n) (Inr n) # hist s1\<rparr>"
  have get: "run_state (GetNode E (node_Name n)) s1 = (Inr n, ?s2)" using assms(4) by (simp add: GetNode_def)
  obtain now s3 where now: "run_state (Now E) ?s2 = (now, s3)" by fastforce
  have s3: "hist s3 = CNow now # CGetNode (node_Name n) (Inr n) # hist s1" "tracker s3 = tracker s1"
    using run_Now [OF now] by simp_all
  obtain p s4 where on: "run_state (PowerOnAndMarkBooted E (?w now) (r_Cfg r) (r_PowerOner r) False) s3 = (p, s4)"
    by fastforce
  have "hist (snd (run_state (MaybeScaleUp E r) s)) = hist s4"
    by (cases p) (simp_all add: MaybeScaleUp_def assms(2,3) get now s3(2) on)
  then have "hist t = hist s4" using assms(6) by simp
  moreover obtain cs where cs: "hist s4 = cs @ hist s3" "tried (r_Cfg r) n cs"
    using PowerOn_tries [OF assms(1) on] assms(5) by auto
  ultimately have "hist t = (cs @ [CNow now, CGetNode (node_Name n) (Inr n)]) @ hist s1"
    by (simp only: s3(1) append_assoc append_Cons append_Nil)
  moreover have "tried (r_Cfg r) n (cs @ [CNow now, CGetNode (node_Name n) (Inr n)])"
    using cs(2) unfolding tried_def set_append by blast
  ultimately show ?thesis by blast
qed

lemma reconcile_decide_tries:
  assumes "client_go E" and "\<not> ForcePowerOnAllNodes (r_Cfg r)"
    and "\<not> IsGlobalCooldownActive (tracker s) now (Cooldown (r_Cfg r))"
    and "run_state (reconcile_decide E r now) s = (x, t)"
  obtains up s1 ds where "run_state (MaybeScaleUp E r) (s\<lparr>counters := (counters s)\<lparr>Evaluations := Evaluations (counters s) + 1\<rparr>\<rparr>) = (up, s1)"
    and "hist t = ds @ hist s1"
proof -
  let ?s = "s\<lparr>counters := (counters s)\<lparr>Evaluations := Evaluations (counters s) + 1\<rparr>\<rparr>"
  obtain up s1 where up: "run_state (MaybeScaleUp E r) ?s = (up, s1)" by fastforce
  let ?rest = "if up then ret (Ret None)
     else do {
       a \<leftarrow> listAllNodes E (r_Cfg r);
       case a of
         Inl err \<Rightarrow> ret (Ret (Some err))
       | Inr allNodes \<Rightarrow> do {
           eligible \<leftarrow> filterEligibleNodes E (r_Cfg r) allNodes;
           d \<leftarrow> MaybeScaleDown E r eligible;
           case d of
             Panic \<Rightarrow> ret Panic
           | Ret down \<Rightarrow>
               if down then ret (Ret None)
               else do { _ \<leftarrow> MaybeRotate E r; ret (Ret None) }
         }
     }"
  have run: "run_state ?rest s1 = (x, t)"
    using assms(2-4) up by (simp add: reconcile_decide_def reconcile_loop_def)
  have "state_io_rel (logs loop_call) ?rest"
    unfolding MaybeScaleDown_def
    by (intro loop_call_queries loop_call_steps [OF assms(1)] frame_intro)
  from logs_run [OF this run] obtain ds where "hist t = ds @ hist s1" by blast
  then show ?thesis by (rule that [OF up])
qed

end

section \<open>Properties\<close>

text \<open>C34: a cluster below its minimum gets a node back. While the API server answers
  and shows the same nodes until something is written, a round outside the cooldown that finds fewer active nodes than the minimum, while some managed
  node is off and those that are off have MAC addresses, calls the power-on controller for one of
  them, one that has been off at least as long as every other.\<close>

theorem below_minimum_boots:
  assumes "client_go E" and "shows_nodes E (hist s) xs"
    and "\<not> DryRun cfg" and "\<not> ForcePowerOnAllNodes cfg"
    and "\<not> IsGlobalCooldownActive (tracker s) now (Cooldown cfg)"
    and "int (length (filter (active cfg (tracker s)) xs)) < MinNodes cfg"
    and "n0 \<in> set xs" and "asleep cfg (tracker s) n0"
    and "\<And>n. n \<in> set xs \<Longrightarrow> asleep cfg (tracker s) n \<Longrightarrow>
      GetMACAddressFromNode n \<lparr>na_MAC = na_MAC (NodeAnnotations cfg)\<rparr> \<noteq> []"
    and "run_state (reconcile_decide E (build_reconciler E cfg opts) now) s = (x, t)"
  shows "\<exists>n \<in> set xs. asleep cfg (tracker s) n \<and>
    (\<forall>m \<in> set xs. asleep cfg (tracker s) m \<longrightarrow>
       the (off_since (tracker s) n) \<le> the (off_since (tracker s) m)) \<and>
    (\<exists>cs. hist t = cs @ hist s \<and> tried cfg n cs)"
proof -
  let ?r = "build_reconciler E cfg opts"
  let ?s = "s\<lparr>counters := (counters s)\<lparr>Evaluations := Evaluations (counters s) + 1\<rparr>\<rparr>"
  have cfg: "r_Cfg ?r = cfg" by (simp add: build_reconciler_simps)
  obtain up s1 ds where up: "run_state (MaybeScaleUp E ?r) ?s = (up, s1)" and ds: "hist t = ds @ hist s1"
    using built.reconcile_decide_tries [OF assms(1) _ _ assms(10)] assms(4,5) cfg by auto
  obtain c where chain: "r_ScaleUpStrategy ?r = buildScaleUpStrategy E cfg c"
    using build_reconciler_chains(2) by blast
  obtain n s0 cs where n: "n \<in> set xs" "asleep cfg (tracker s) n"
      "\<And>m. m \<in> set xs \<Longrightarrow> asleep cfg (tracker s) m \<Longrightarrow> the (off_since (tracker s) n) \<le> the (off_since (tracker s) m)"
    and ask: "run_state (su_ShouldScaleUp (r_ScaleUpStrategy ?r)) ?s = (Inr (node_Name n, True), s0)"
    and s0: "hist s0 = cs @ hist s" "list_all (\<lambda>c. \<not> is_write c) cs"
    using run_scale_up_below_minimum [of E ?s xs cfg n0 c] assms(2,6-8) chain by auto
  have "env_GetNode E (hist s0) (node_Name n) = Inr n"
    using shows_nodesD(2) [OF assms(2) s0(2) n(1)] s0(1) by simp
  then obtain cs' where "hist s1 = cs' @ hist s0" "tried cfg n cs'"
    using built.MaybeScaleUp_tries [OF assms(1) _ ask _ _ up] assms(3) assms(9) [OF n(1,2)] cfg by auto
  then have "hist t = (ds @ cs' @ cs) @ hist s" "tried cfg n (ds @ cs' @ cs)"
    using ds s0(1) by (auto simp: tried_def)
  then show ?thesis using n by blast
qed

text \<open>One active node, a minimum of two, and two nodes that are off.\<close>

definition low_cluster :: cluster where
  "low_cluster = sample_cluster\<lparr>cl_nodes := [sample_node ''n1'', off_node ''n2'' ''1970-01-01T00:00:10Z'', off_node ''n3'' ''unknown'']\<rparr>"

theorem below_minimum_boots_witness:
  "tried (sample_config\<lparr>MinNodes := 2\<rparr>) (off_node ''n3'' ''unknown'')
     (hist (snd (run_state (reconcile_decide (store_env low_cluster)
       (build_reconciler (store_env low_cluster) (sample_config\<lparr>MinNodes := 2\<rparr>) []) 0) init_sys)))"
proof -
  let ?cfg = "sample_config\<lparr>MinNodes := 2\<rparr>" and ?E = "store_env low_cluster"
  let ?run = "run_state (reconcile_decide ?E (build_reconciler ?E ?cfg []) 0) init_sys"
  let ?ns = "cl_nodes low_cluster" and ?n3 = "off_node ''n3'' ''unknown''"
  have ns: "stored_nodes ?ns (hist init_sys) = [sample_node ''n1'', off_node ''n2'' ''1970-01-01T00:00:10Z'', ?n3]"
    by (simp add: low_cluster_def init_sys_def)
  have few: "int (length (filter (active ?cfg (tracker init_sys)) (stored_nodes ?ns (hist init_sys)))) < MinNodes ?cfg"
    by code_simp
  have cool: "\<not> IsGlobalCooldownActive (tracker init_sys) 0 (Cooldown ?cfg)" by code_simp
  have off: "off_since (tracker init_sys) ?n3 = Some 0" "off_since (tracker init_sys) (sample_node ''n1'') = None"
    "off_since (tracker init_sys) (off_node ''n2'' ''1970-01-01T00:00:10Z'') = Some (10 * Second)"
    by code_simp+
  have n3: "?n3 \<in> set (stored_nodes ?ns (hist init_sys))" "asleep ?cfg (tracker init_sys) ?n3"
    unfolding ns asleep_def off by (simp, code_simp)
  have mac: "GetMACAddressFromNode n \<lparr>na_MAC = na_MAC (NodeAnnotations ?cfg)\<rparr> \<noteq> []"
    if "n \<in> set (stored_nodes ?ns (hist init_sys))" "asleep ?cfg (tracker init_sys) n" for n
    using that unfolding ns asleep_def
    by (auto simp: off GetMACAddressFromNode_def map_get_def sample_config_def)
  have flags: "\<not> DryRun ?cfg" "\<not> ForcePowerOnAllNodes ?cfg" by (simp_all add: sample_config_def)
  have "distinct (map node_Name (stored_nodes ?ns (hist init_sys)))" unfolding ns by (simp add: sample_node_def)
  from below_minimum_boots [OF store_env_client_go store_env_shows [OF this] flags cool few n3 mac prod.collapse [symmetric]]
  obtain n cs where "n \<in> set (stored_nodes ?ns (hist init_sys))" "asleep ?cfg (tracker init_sys) n"
      "the (off_since (tracker init_sys) n) \<le> the (off_since (tracker init_sys) ?n3)"
      "hist (snd ?run) = cs @ hist init_sys" "tried ?cfg n cs"
    using n3 by blast
  moreover have "hist init_sys = []" by (simp add: init_sys_def)
  ultimately show ?thesis unfolding ns by (auto simp: asleep_def off Second_def)
qed

end
