(* ===== verification/Spec2Isabelle.thy ===== *)
theory Spec2Isabelle
  imports Rotation End_To_End Strategy_Facts Startup Scope Capacity Scale_Up
begin

text \<open>
  Verification of cluster-bare-autoscaler, a controller that powers the bare-metal nodes of a
  Kubernetes cluster on and off. This header says what the program's parts are, which theory
  models which, what the lemmas show, and what is left out. Paths are below \<^verbatim>\<open>src/\<close>.

  \<^bold>\<open>The program.\<close> \<^verbatim>\<open>main.go\<close> reads the command line, sets up tracing and the clients, loads the
  configuration, waits for the bootstrap cooldown, starts the MAC updater in a goroutine of its own
  and calls \<^verbatim>\<open>Reconcile\<close> in an endless loop. A round recovers nodes that booted by
  themselves, then either forces every node on, or, unless the global cooldown runs, tries a
  scale-up, then a scale-down, then a rotation, and stops after the first that acts. The decisions
  are made by chains of strategies over cluster loads and resource requests; a scale-down cordons
  and drains the node, marks it powered off, and calls the shutdown controller, which talks to an
  agent on the node; a power-on goes through a wake-on-LAN agent and waits for readiness. What the
  process remembers between rounds is the node state tracker and the exported metrics.

  \<^bold>\<open>State and effects.\<close> A program is a function in the state monad over \<open>sys\<close> (\<^verbatim>\<open>Kube_World\<close>): the log of
  the calls made so far, newest first, the tracker and the counters. Every call to the API server,
  to an agent, to the clock, to the random generator and to the power controllers is one entry of the
  log with its answer. The answers come from \<open>env\<close>, functions of the whole log: nothing is assumed
  of the cluster, which may change between any two calls, and every call may fail. Errors are
  values (\<open>error + 'a\<close>, \<open>error option\<close>), a Go panic is the constructor \<open>Panic\<close> of \<open>go\<close>. Integers that
  the code computes with are 64-bit words or carry their wrap-around; durations are nanoseconds with
  the saturating subtraction of Go; a \<^verbatim>\<open>float64\<close> is a real and every operation rounds to binary64
  (\<^verbatim>\<open>Go_Float\<close>), without fused multiply-add, NaN and infinities.

  \<^bold>\<open>Theories.\<close>
  \<^item> \<^verbatim>\<open>Go_Base\<close>: the prelude; Go types, loops in the monad, the frame calculus, Hoare triples, shuffle
    and unstable sort.
  \<^item> \<^verbatim>\<open>Node_State\<close>: \<^verbatim>\<open>pkg/nodeops/state.go\<close>. \<^verbatim>\<open>Kube_World\<close>: the API objects and calls, the metrics of
    \<^verbatim>\<open>internal/bootstrap/metrics/init.go\<close>. \<^verbatim>\<open>Effects\<close>: frame relations and the two client-go helpers.
  \<^item> \<^verbatim>\<open>Json\<close>: reading a JSON text (RFC 8259), for the patch into which \<^verbatim>\<open>node_wrapper.go\<close> splices an address
    that an agent sent. \<^verbatim>\<open>Time_Format\<close>: RFC 3339 formatting and parsing. \<^verbatim>\<open>Config_Model\<close>: \<^verbatim>\<open>pkg/config/config.go\<close>.
  \<^item> \<^verbatim>\<open>Node_Ops\<close>, \<^verbatim>\<open>Node_Util\<close>: \<^verbatim>\<open>pkg/nodeops\<close>, its queries (\<^verbatim>\<open>annotations.go\<close>, \<^verbatim>\<open>mac.go\<close>, \<^verbatim>\<open>node_wrapper.go\<close>,
    \<^verbatim>\<open>nodes.go\<close>, \<^verbatim>\<open>podutil.go\<close>) and its actions (\<^verbatim>\<open>util.go\<close>, the recovery of \<^verbatim>\<open>nodes.go\<close>, \<^verbatim>\<open>mac_updater.go\<close>);
    \<^verbatim>\<open>Node_Selection\<close> and \<^verbatim>\<open>Node_Actions\<close> hold the facts about them.
  \<^item> \<^verbatim>\<open>Cluster_Load\<close>, \<^verbatim>\<open>Strategies\<close>: \<^verbatim>\<open>pkg/strategy\<close>; facts in \<^verbatim>\<open>Load_Statistics\<close> and \<^verbatim>\<open>Strategy_Facts\<close>.
  \<^item> \<^verbatim>\<open>Power_Control\<close>: \<^verbatim>\<open>pkg/power\<close>; facts in \<^verbatim>\<open>Power_Facts\<close>.
  \<^item> \<^verbatim>\<open>Drain\<close>, \<^verbatim>\<open>Reconciler\<close>: \<^verbatim>\<open>pkg/controller\<close>; \<^verbatim>\<open>Autoscaler_Main\<close>: the controller of \<^verbatim>\<open>main.go\<close>.
    Facts in \<^verbatim>\<open>Reconcile_Safety\<close>, \<^verbatim>\<open>Rotation\<close>, \<^verbatim>\<open>Forced_Mode\<close>, \<^verbatim>\<open>Metrics_Truth\<close>, \<^verbatim>\<open>Shutdown_Rate\<close> (how often
    machines are shut down) and this theory. \<^verbatim>\<open>Scope\<close> says which machines are touched; \<^verbatim>\<open>Node_Store\<close>,
    \<^verbatim>\<open>End_To_End\<close>, \<^verbatim>\<open>Capacity\<close> and \<^verbatim>\<open>Scale_Up\<close> are about the stored node objects: what the actions make of
    them when any write may fail, that the minimum is kept over whole runs, and that a round below it
    powers on.
  \<^item> \<^verbatim>\<open>Process\<close>: the reconcile loop and the MAC updater side by side. \<^verbatim>\<open>Startup\<close>: the rest of \<^verbatim>\<open>main.go\<close>, that
    is the command line over the package \<^verbatim>\<open>flag\<close>, every exit, the log level and the health endpoints,
    with \<^verbatim>\<open>pkg/kubeclient\<close> and \<^verbatim>\<open>internal/bootstrap/tracing/init.go\<close>.
  \<^item> \<^verbatim>\<open>Agents\<close>: the programs on the nodes, \<^verbatim>\<open>poweroff-daemonset/main.go\<close>, \<^verbatim>\<open>wol-agent/main.go\<close> and
    \<^verbatim>\<open>metrics-daemonset/main.go\<close>. \<^verbatim>\<open>Agent_Servers\<close>: the URLs, routes and query parameters through which the
    controller reaches their handlers, and the composition of both sides.
  \<^item> \<^verbatim>\<open>Store_Cluster\<close>: what accepted writes make of the stored objects, merge patches included, and an
    environment that stores what is written to it, in which the hypotheses hold; the properties are applied to it and to \<open>constant_env\<close> at concrete clusters.

  Definitions keep the names of the Go functions. A struct field that clashes with another has the
  prefix of its record (\<open>la_Port\<close>), a loop body or the tail of a long function is a definition of its own
  (\<open>retire_node\<close>, \<open>recover_node\<close>, \<open>reconcile_loop\<close>), and a method that reads the clock itself has the
  prefix \<open>do_\<close> where the pure version takes the instant.

  \<^bold>\<open>Interfaces.\<close> \<open>frame_rel\<close> is the contract of every relation between the state before and after a
  program (which calls were logged, tracker kept, clock monotone, log safe, counters true); its rules
  reduce a program to its calls, loops included. \<open>cooldown_store\<close> is what the tracker's two per-node
  cooldowns share. \<open>advisor\<close> is what the reconciler relies on of a strategy (it only reads),
  \<open>power_controller\<close> what it relies on of a power controller (agent calls only, nothing else changes),
  and \<open>reconciler_parts\<close> a reconciler assembled from four such parts. \<open>node_order\<close> is an order on nodes, by
  which every point a program passes through is compared with where it started (\<open>spares X\<close>: nobody
  outside \<open>X\<close> goes out of service). \<open>node_view\<close> is a group of node fields on which the writes of the
  program act by themselves, so that the other fields may change under way: \<open>duty\<close>, \<open>service\<close> and
  \<open>forget_mac\<close> are such views. All are interpreted on the code's
  own definitions, the last one as \<open>built\<close> for every reconciler that \<open>NewReconciler\<close> makes from any
  configuration and any options.

  \<^bold>\<open>What is shown.\<close> Safety of the whole loop: a shutdown call happens only right
  after a drain that saw no pod, volume or attachment left and an accepted mark; a process started with
  the dry-run flag writes nothing; the cooldown blocks and spaces power actions, so the successful
  shutdowns but one fit, at one cooldown each, into the time that has passed; at no point of a run are
  fewer managed nodes in service than the minimum asks for, or than at the start; only managed nodes and
  pods on them are ever touched; the forced mode never stops a node; the program does not panic for a
  minimum of at least zero; the exported counters are the calls made. A round below the minimum calls
  the power-on controller for the node that has been off the longest. Outcomes: what a successful
  scale-down, power-on, drain, recovery and MAC update has done, in order, that a failure leaves the
  tracker alone, and that retiring a node is all or nothing unless the API server refuses the writes
  that take it back.
  Decisions: which nodes are candidates, that none is one for both directions, oldest first, what an
  approval rests on, that the wrapping resource arithmetic decides the integer condition. Data: round
  trips of the powered-off mark and of MAC addresses, percentile bounds, the validity of loaded
  configurations. Composition: a reported shutdown was accepted by the host behind the agent, a fetched
  load is the machine's load over its processors, an address travels unchanged from a machine's
  interface to the magic packet that wakes it, and in any interleaving with the MAC updater the stored
  objects are, up to the discovered address, what the loop alone makes of them, as long as the agents
  answer with addresses that need no escaping in JSON, as the agent of this repository does. Start-up: which failures
  end the process, with what status, before what has been done.

  \<^bold>\<open>Bounds.\<close> \<open>main_run n\<close> is the endless loop for its first \<open>n\<close> rounds, the properties hold for every \<open>n\<close>. The
  wait for readiness is a loop that ends because the clock passes its deadline; its polls are bounded by
  \<open>poll_bound\<close> and its requests by the configured attempts. The eviction poll and the conflict retry are
  client-go's: \<open>client_go\<close> states, as inductive relations, that they run the body until it is done, fails
  for good or they give up. It does not say they end: a drain is shown correct whenever it returns.
  The threads of \<open>process_logs\<close> run for any numbers of rounds; each has an environment of its own, which
  answers with whatever the calls of the other have made of the cluster.

  \<^bold>\<open>Library code as parameters.\<close> The clients' answers, YAML decoding (the argument
  of \<open>Load\<close>), label selector syntax, \<^verbatim>\<open>ParseIP\<close>,
  \<^verbatim>\<open>ParseFloat\<close>, UDP and unix sockets are arguments or fields of the
  environment; JSON bodies that are received are the decoded values. Patches that consist of constants
  and formatted instants are given by the keys and values they set; the one that carries foreign text
  is sent as text, and what an accepted one does to the stored node is the merge patch of RFC 7386.
  \<open>boot_env\<close> holds what the client
  libraries and the operating system answer during the start-up. Reads of
  stored objects are constrained only where a theorem says so, and writes never: \<open>reads_at view\<close> says
  that a node which is returned shows the fields in \<open>view\<close> as the accepted writes have left them, all
  other fields and every answer to a write being free; \<open>current_reads\<close> is the same of listings too, for
  name, labels, cordon and mark; \<open>shows_nodes\<close> that from some point the same nodes are shown until
  something is written; \<open>plain_macs\<close> that the agents answer with plain addresses.
  \<open>shows_only\<close> bounds what the listings show. Quantities are given with the two integers
  the code reads of them.

  \<^bold>\<open>Not modelled.\<close> Logging, spans and the usage text; what the metrics endpoint prints. \<^verbatim>\<open>ParseFloat\<close> returns finite numbers, so \<^verbatim>\<open>NaN\<close> and \<^verbatim>\<open>Inf\<close>
  on the command line are out of range. URLs are \<^verbatim>\<open>http\<close> ones, and a pod address is one that needs no
  escaping. Two threads of the process are interleaved call by call; their memory is disjoint. The
  struct \<^verbatim>\<open>NodeConfig\<close> and \<^verbatim>\<open>ShutdownHTTPController.PowerOn\<close> are never used. The test doubles under
  \<^verbatim>\<open>test/\<close>, the Helm chart, the manifests and the documentation are not code of the program.
\<close>

text \<open>With the dry-run flag the controller, however long it runs and whatever the cluster
  answers, never writes to the cluster, evicts a pod, calls a power controller or sends a request
  other than GET.\<close>

theorem dry_run_writes_nothing:
  assumes "run_state (main_run n E decoded True opts) s = (x, t)"
  shows "\<exists>cs. hist t = cs @ hist s \<and> list_all (\<lambda>c. \<not> is_write c) cs"
  using state_io_rel_run [OF main_run_dry assms] by (simp add: logs_def)

theorem dry_run_writes_nothing_witness:
  "\<exists>cs. hist (snd (run_state (main_run 3 (store_env sample_cluster) (Inr sample_config) True []) init_sys)) =
     cs @ hist init_sys \<and> list_all (\<lambda>c. \<not> is_write c) cs"
  by (rule dry_run_writes_nothing [OF prod.collapse [symmetric]])

text \<open>C1: a machine is told to shut down only when it has just been seen drained and its node has
  been marked powered off: in the log of every run of the program, a call of the shutdown
  controller comes after requests to agents only, before them the accepted patch with the time
  just read, and right before that the calls that showed no pod to wait for, no volume in use and
  no attachment.\<close>

theorem shutdown_only_when_drained:
  assumes "client_go E" and "run_state (main_run n E decoded dryRunFlag opts) init_sys = (x, t)"
  shows "safe_log (hist t)"
  using state_io_rel_run [OF main_run_safe [OF assms(1)] assms(2)]
  by (simp add: keeps_safe_def init_sys_def)

theorem shutdown_only_when_drained_witness:
  "safe_log (hist (snd (run_state (main_run 3 (store_env sample_cluster) (Inr sample_config) False []) init_sys)))"
  by (rule shutdown_only_when_drained [OF store_env_client_go prod.collapse [symmetric]])

text \<open>C10: a scale-down that succeeds outside dry-run ends, in this order, with the drain of the cordoned
  node, the accepted patch, requests to agents, the successful shutdown call and the two clock
  readings, and the tracker then has the global cooldown, the node's shutdown time and the node's
  off mark set, and nothing else changed.\<close>

theorem scale_down_success:
  assumes "client_go E" and "\<not> DryRun cfg"
    and "run_state (retire_node E (build_reconciler E cfg opts) name) s = (True, t)"
  shows "\<exists>as now cs t1 t2.
    hist t = CNow t2 # CNow t1 # CShutdown name None # as @
      CPatchNode name [(AnnotationPoweredOff, Some (Format_RFC3339 now))] None # CNow now # cs @ hist s \<and>
    list_all agent_call as \<and> cordoned name cs \<and> drained name cs \<and>
    tracker t = MarkPoweredOff name (MarkShutdown t2 name (MarkGlobalShutdown t1 (tracker s)))"
  using built.retire_node_succeeded [OF assms(1) _ assms(3)] assms(2) by simp

theorem scale_down_success_witness:
  "\<exists>E t1 t2. tracker (snd (run_state (retire_node E (build_reconciler E sample_config []) ''n1'') init_sys)) =
     MarkPoweredOff ''n1'' (MarkShutdown t2 ''n1'' (MarkGlobalShutdown t1 (tracker init_sys)))"
proof -
  let ?E = "constant_env [sample_node ''n1''] [sample_pod ''agent'' ''n1'' (Some ''DaemonSet'')] ok_resp"
  let ?run = "run_state (retire_node ?E (build_reconciler ?E sample_config []) ''n1'') init_sys"
  have ok: "fst ?run = True" by (simp add: run_simps)
  have "\<not> DryRun sample_config" by (simp add: sample_config_def)
  then show ?thesis
    using scale_down_success [OF constant_env_client_go _ run_result [OF ok]] by blast
qed

text \<open>A scale-down that does not succeed, or is a dry run, leaves the tracker as it was: no cooldown
  starts and no node is remembered as off.\<close>

theorem scale_down_failed:
  assumes "client_go E" and "run_state (MaybeScaleDown E (build_reconciler E cfg opts) eligible) s = (x, t)"
    and "x \<noteq> Ret True \<or> DryRun cfg"
  shows "tracker t = tracker s"
  using built.MaybeScaleDown_not_True [OF assms(1,2)] assms(3) by simp

theorem scale_down_failed_witness:
  "tracker (snd (run_state (MaybeScaleDown (store_env sample_cluster)
     (build_reconciler (store_env sample_cluster) (sample_config\<lparr>DryRun := True\<rparr>) []) []) init_sys)) = tracker init_sys"
  by (rule scale_down_failed [OF store_env_client_go prod.collapse [symmetric]]) simp

text \<open>C11: a node is retired only when more nodes are eligible than the configured minimum, it is the
  last of the eligible ones, and the strategy chain has just approved it.\<close>

theorem scale_down_guards:
  assumes "run_state (MaybeScaleDown E r eligible) s = (Ret True, t)" and "\<not> DryRun (r_Cfg r)"
  shows "MinNodes (r_Cfg r) < int (length eligible) \<and> eligible \<noteq> [] \<and>
    (\<exists>s1. run_state (sd_ShouldScaleDown (r_ScaleDownStrategy r) (w_Name (last eligible))) s = (Inr True, s1) \<and>
       run_state (retire_node E r (w_Name (last eligible))) s1 = (True, t))"
  using MaybeScaleDown_True [OF assms(1)] assms(2) by simp

theorem scale_down_guards_witness:
  "\<exists>E r w t. run_state (MaybeScaleDown E r [w]) init_sys = (Ret True, t) \<and> MinNodes (r_Cfg r) < 1"
proof -
  let ?E = "constant_env [sample_node ''n1''] [sample_pod ''agent'' ''n1'' (Some ''DaemonSet'')] ok_resp"
  let ?r = "(build_reconciler ?E (sample_config\<lparr>MinNodes := 0\<rparr>) [])\<lparr>r_ScaleDownStrategy := AlwaysScaleDown\<rparr>"
  let ?w = "NewNodeWrapper (sample_node ''n1'') None 0 \<lparr>na_MAC = []\<rparr> []"
  let ?run = "run_state (MaybeScaleDown ?E ?r [?w]) init_sys"
  have ok: "fst ?run = Ret True" by (simp add: run_simps go_index_def AlwaysScaleDown_def)
  have "\<not> DryRun (r_Cfg ?r)" by (simp add: sample_config_def)
  then show ?thesis using scale_down_guards [OF run_result [OF ok]] run_result [OF ok] by fastforce
qed

text \<open>C12: while the global cooldown runs, measured at the start of the loop, a loop outside the forced
  power-on only recovers nodes that booted by themselves: no eviction, no power-on, no shutdown,
  and the time of the last power action stays.\<close>

theorem cooldown_blocks:
  assumes "client_go E" and "\<not> ForcePowerOnAllNodes cfg"
    and "run_state (Reconcile E (build_reconciler E cfg opts)) s = (x, t)"
    and "IsGlobalCooldownActive (tracker s) (fst (run_state (Now E) s)) (Cooldown cfg)"
  shows "(\<exists>cs. hist t = cs @ hist s \<and> list_all restoring_call cs) \<and>
    LastShutdownTime (tracker t) = LastShutdownTime (tracker s)"
proof -
  obtain now s0 where now: "run_state (Now E) s = (now, s0)" by fastforce
  obtain s' where s': "logs restoring_call s s'" "same_last s s'"
    "s' = t \<and> x \<noteq> Panic \<or> run_state (reconcile_decide E (build_reconciler E cfg opts) now) s' = (x, t)"
    using built.Reconcile_decides [OF assms(1,3) now] by metis
  have "IsGlobalCooldownActive (tracker s') now (Cooldown cfg)"
    using assms(4) s'(2) now by (simp add: IsGlobalCooldownActive_def same_last_def)
  then have "t = s'"
    using s'(3) built.reconcile_decide_cooldown [of E _ _ _ now s' x t] assms(2) by auto
  then show ?thesis using s' by (auto simp: logs_def same_last_def)
qed

theorem cooldown_blocks_witness:
  "\<exists>cs. hist (snd (run_state (Reconcile (store_env sample_cluster)
      (build_reconciler (store_env sample_cluster) sample_config []))
      (init_sys\<lparr>tracker := MarkGlobalShutdown 0 NewNodeStateTracker\<rparr>))) = cs \<and> list_all restoring_call cs"
proof -
  let ?E = "store_env sample_cluster" and ?s = "init_sys\<lparr>tracker := MarkGlobalShutdown 0 NewNodeStateTracker\<rparr>"
  have force: "\<not> ForcePowerOnAllNodes sample_config" by (simp add: sample_config_def)
  have "IsGlobalCooldownActive (tracker ?s) (fst (run_state (Now ?E) ?s)) (Cooldown sample_config)"
    by (simp add: run_simps tracker_defs store_env_def time_Sub_def Second_def Minute_def max_int64_def
        min_int64_def unix_zero_def)
  from cooldown_blocks [OF store_env_client_go force prod.collapse [symmetric] this, of "[]"]
  show ?thesis by (simp add: init_sys_def)
qed

text \<open>C13: the time of the last power action moves by at least the configured cooldown whenever a loop
  outside the forced power-on moves it.\<close>

theorem cooldown_spacing:
  assumes "client_go E" and "\<not> ForcePowerOnAllNodes cfg" and "0 \<le> Cooldown cfg"
    and "run_state (Reconcile E (build_reconciler E cfg opts)) s = (x, t)"
    and "LastShutdownTime (tracker t) \<noteq> LastShutdownTime (tracker s)"
  shows "LastShutdownTime (tracker s) + Cooldown cfg \<le> LastShutdownTime (tracker t)"
  using built.Reconcile_spacing [OF assms(1) _ _ assms(4,5)] assms(2,3) by simp

theorem cooldown_spacing_witness:
  "\<exists>E cfg s t. 5 * Minute = Cooldown cfg \<and> LastShutdownTime (tracker s) + Cooldown cfg \<le> LastShutdownTime (tracker t) \<and>
     run_state (Reconcile E (build_reconciler E cfg [])) s = (Ret None, t)"
proof -
  let ?E = "constant_env [(sample_node ''n1'')\<lparr>node_Unschedulable := True, node_Conditions := []\<rparr>] [] ok_resp"
  let ?cfg = "sample_config\<lparr>PowerOnMode := ''disabled''\<rparr>"
  let ?s = "init_sys\<lparr>tracker := MarkPoweredOff ''n1'' NewNodeStateTracker\<rparr>"
  let ?run = "run_state (Reconcile ?E (build_reconciler ?E ?cfg [])) ?s"
  have run: "fst ?run = Ret None \<and> LastShutdownTime (tracker (snd ?run)) = 1000 * Second"
    by (simp add: run_simps PoweredOffSince_def tracker_defs rand_Shuffle_def sort_Slice_def time_Sub_def max_int64_def
        min_int64_def zero_time_def Second_def Minute_def)
  have "\<not> ForcePowerOnAllNodes ?cfg" "0 \<le> Cooldown ?cfg" "Cooldown ?cfg = 5 * Minute"
    by (simp_all add: sample_config_def Minute_def Second_def)
  moreover have "LastShutdownTime (tracker (snd ?run)) \<noteq> LastShutdownTime (tracker ?s)"
    using run by (simp add: tracker_defs zero_time_def Second_def)
  ultimately have "LastShutdownTime (tracker ?s) + Cooldown ?cfg \<le> LastShutdownTime (tracker (snd ?run))"
    using cooldown_spacing [OF constant_env_client_go _ _ prod.collapse [symmetric]] by blast
  then show ?thesis using run \<open>Cooldown ?cfg = 5 * Minute\<close> by (metis run_result)
qed

text \<open>C17: choosing the candidate panics exactly when the configured minimum is negative and nothing is
  eligible, and with a minimum of zero or more the program never panics.\<close>

theorem never_panics:
  assumes "0 \<le> MinNodes cfg"
  shows "fst (run_state (controller_run n E cfg opts) s) \<noteq> Panic"
proof -
  have "fst (run_state (run_loop n E (build_reconciler E cfg opts)) u) \<noteq> Panic" for u
    using run_loop_Panic [OF run_result, of n E "build_reconciler E cfg opts" u] assms by fastforce
  then show ?thesis
    by (auto simp: controller_run_def NewReconciler_bind when_do_def split: prod.splits)
qed

theorem never_panics_witness:
  "fst (run_state (controller_run 2 (store_env sample_cluster) sample_config []) init_sys) \<noteq> Panic"
  by (rule never_panics) (simp add: sample_config_def)

theorem candidate_panics:
  "PickScaleDownCandidate cfg eligible = Panic \<longleftrightarrow> eligible = [] \<and> MinNodes cfg < 0"
  by (auto simp: PickScaleDownCandidate_cases)

text \<open>C14: powering a node on succeeds only with a MAC address under the configured key, and then, in this
  order, the controller reported success, the boot time was written, the node was given back to
  the scheduler and the powered-off mark was removed; the tracker gains the global cooldown and
  the node's boot time, and nothing else in it changes.\<close>

theorem power_on_success:
  assumes "client_go E"
    and "run_state (PowerOnAndMarkBooted E w cfg (snd (NewControllersFromConfig E cfg)) False) s = (None, t)"
  shows "\<exists>mac as now us t1 t2.
    mac = GetMACAddressFromNode (w_Node w) \<lparr>na_MAC = na_MAC (NodeAnnotations cfg)\<rparr> \<and> mac \<noteq> [] \<and>
    hist t = CNow t2 # CNow t1 # CPatchNode (w_Name w) [(AnnotationPoweredOff, None)] None # us @
      CPatchNode (w_Name w) [(AnnotationBootedAt, Some (Format_RFC3339 now))] None # CNow now #
      CPowerOn (w_Name w) mac None # as @ hist s \<and>
    list_all agent_call as \<and> list_all restoring_call us \<and>
    tracker t = MarkBooted t2 (w_Name w) (MarkGlobalShutdown t1 (tracker s))"
  using built.PowerOn_succeeded [OF assms(1), of w cfg E cfg "[]" s t] assms(2) by simp

theorem power_on_success_witness:
  "\<exists>t1 t2. tracker (snd (run_state (PowerOnAndMarkBooted (store_env sample_cluster)
     (NewNodeWrapper (sample_node ''n2'') None 0 \<lparr>na_MAC = []\<rparr> []) sample_config
     (snd (NewControllersFromConfig (store_env sample_cluster) sample_config)) False) init_sys)) =
     MarkBooted t2 ''n2'' (MarkGlobalShutdown t1 (tracker init_sys))"
proof -
  let ?w = "NewNodeWrapper (sample_node ''n2'') None 0 \<lparr>na_MAC = []\<rparr> []"
  let ?run = "run_state (PowerOnAndMarkBooted (store_env sample_cluster) ?w sample_config
     (snd (NewControllersFromConfig (store_env sample_cluster) sample_config)) False) init_sys"
  have ok: "fst ?run = None" by code_simp
  have "w_Name ?w = ''n2''" by (simp add: sample_node_def)
  then show ?thesis using power_on_success [OF store_env_client_go run_result [OF ok]] by auto
qed

text \<open>A power-on that fails, or is a dry run, leaves the tracker as it was.\<close>

theorem power_on_failed:
  assumes "client_go E"
    and "run_state (PowerOnAndMarkBooted E w cfg (snd (NewControllersFromConfig E cfg)) dryRun) s = (res, t)"
    and "res \<noteq> None \<or> dryRun"
  shows "tracker t = tracker s"
  using built.PowerOn_failed [OF assms(1), of w cfg E cfg "[]" dryRun s res t] assms(2,3) by simp

theorem power_on_failed_witness:
  "tracker (snd (run_state (PowerOnAndMarkBooted (store_env sample_cluster)
     (NewNodeWrapper ((sample_node ''n2'')\<lparr>node_Annotations := Map.empty\<rparr>) None 0 \<lparr>na_MAC = []\<rparr> []) sample_config
     (snd (NewControllersFromConfig (store_env sample_cluster) sample_config)) False) init_sys)) = tracker init_sys"
  by (rule power_on_failed [OF store_env_client_go prod.collapse [symmetric]])
    (simp add: PowerOnAndMarkBooted_def GetMACAddressFromNode_def sample_config_def map_get_def Let_def)

end
